theory Spec2Isabelle
  imports Main "HOL-Library.Word"
begin

unbundle bit_operations_syntax

section \<open>Machine types\<close>

text \<open>
  The C types of \<^verbatim>\<open>libewf_chunk_group.c\<close>.  Every integer is a word of its width, so
  \<open>+\<close> and \<open>-\<close> wrap around.  \<^verbatim>\<open>off64_t\<close> and \<^verbatim>\<open>int\<close> are signed: they are compared with
  \<open><s\<close> and \<open>\<le>s\<close> and read with \<open>sint\<close>.  Signed overflow, which C leaves undefined, is
  two's complement wrap-around here.  \<^verbatim>\<open>size_t\<close> values (buffer sizes) are natural
  numbers, compared with \<^verbatim>\<open>SSIZE_MAX\<close> of a 64-bit platform.
\<close>

type_synonym uint8_t = "8 word"
type_synonym uint32_t = "32 word"
type_synonym uint64_t = "64 word"
type_synonym size32_t = "32 word"
type_synonym size64_t = "64 word"
type_synonym off64_t = "64 word"
type_synonym c_int = "32 word"

definition INT32_MAX :: "uint32_t" where
  "INT32_MAX = 0x7fffffff"

definition SSIZE_MAX :: nat where
  "SSIZE_MAX = 2 ^ 63 - 1"

definition INT64_MAX :: "off64_t" where
  "INT64_MAX = 0x7fffffffffffffff"

section \<open>Errors\<close>

text \<open>
  The error codes the four functions set before they return \<^verbatim>\<open>-1\<close>, one constructor for
  each (domain, code) pair of the source.  \<open>OUT_OF_BOUNDS_ACCESS\<close> is not a libcerror code:
  it stands for a read or write outside \<^verbatim>\<open>table_entries_data\<close>, which the C code does not
  detect.  \<open>LIST_INDEX_NOT_FOUND\<close> is the error of the chunks list itself.
\<close>

datatype error =
    ARGUMENT_ERROR_INVALID_VALUE
  | ARGUMENT_ERROR_VALUE_ZERO_OR_LESS
  | ARGUMENT_ERROR_VALUE_EXCEEDS_MAXIMUM
  | ARGUMENT_ERROR_UNSUPPORTED_VALUE
  | RUNTIME_ERROR_APPEND_FAILED
  | RUNTIME_ERROR_GET_FAILED
  | RUNTIME_ERROR_SET_FAILED
  | RUNTIME_ERROR_VALUE_EXCEEDS_MAXIMUM
  | RUNTIME_ERROR_VALUE_OUT_OF_BOUNDS
  | OUT_OF_BOUNDS_ACCESS
  | LIST_INDEX_NOT_FOUND

section \<open>Constants and collaborators declared outside the two source files\<close>

text \<open>
  Modelled from the spec: the range flags of \<^verbatim>\<open>libewf_definitions.h\<close>, which is not among
  the sources.  The spec (4.2) makes them a bit-set of five distinct flags; they are five
  distinct single bits here.
\<close>

definition LIBEWF_RANGE_FLAG_IS_COMPRESSED :: uint32_t where
  "LIBEWF_RANGE_FLAG_IS_COMPRESSED = 0x00000002"

definition LIBEWF_RANGE_FLAG_HAS_CHECKSUM :: uint32_t where
  "LIBEWF_RANGE_FLAG_HAS_CHECKSUM = 0x00000100"

definition LIBEWF_RANGE_FLAG_USES_PATTERN_FILL :: uint32_t where
  "LIBEWF_RANGE_FLAG_USES_PATTERN_FILL = 0x00000200"

definition LIBEWF_RANGE_FLAG_IS_TAINTED :: uint32_t where
  "LIBEWF_RANGE_FLAG_IS_TAINTED = 0x00000800"

definition LIBEWF_RANGE_FLAG_IS_CORRUPTED :: uint32_t where
  "LIBEWF_RANGE_FLAG_IS_CORRUPTED = 0x00001000"

text \<open>
  Modelled from the spec: the on-disk flag bits of a version 2 table entry (4.2 and 6.1),
  also from \<^verbatim>\<open>libewf_definitions.h\<close>.
\<close>

definition LIBEWF_CHUNK_DATA_FLAG_IS_COMPRESSED :: uint32_t where
  "LIBEWF_CHUNK_DATA_FLAG_IS_COMPRESSED = 0x00000001"

definition LIBEWF_CHUNK_DATA_FLAG_HAS_CHECKSUM :: uint32_t where
  "LIBEWF_CHUNK_DATA_FLAG_HAS_CHECKSUM = 0x00000002"

definition LIBEWF_CHUNK_DATA_FLAG_USES_PATTERN_FILL :: uint32_t where
  "LIBEWF_CHUNK_DATA_FLAG_USES_PATTERN_FILL = 0x00000004"

text \<open>
  Modelled from the spec: the sizes of the on-disk table entries (6.1), from
  \<^verbatim>\<open>ewf_definitions.h\<close>: 4 bytes for version 1, 16 bytes for version 2.  The size of the
  version 2 table header is a parameter of \<open>libewf_chunk_group_fill_v2\<close> below.
\<close>

definition sizeof_ewf_table_entry_v1_t :: nat where
  "sizeof_ewf_table_entry_v1_t = 4"

definition sizeof_ewf_table_entry_v2_t :: nat where
  "sizeof_ewf_table_entry_v2_t = 16"

text \<open>
  Modelled from the spec: the section descriptor \<^verbatim>\<open>libewf_section_t\<close> (3, SectionRef), of
  which the functions read three fields.
\<close>

record libewf_section_t =
  start_offset :: off64_t
  end_offset :: off64_t
  section_size :: size64_t

text \<open>
  Modelled from the spec: the chunks list \<^verbatim>\<open>libfdata_list_t\<close> (4.3, chunk index), a
  growable vector of elements keyed by position.  An element holds the pool entry, the
  data range and its flags, and the mapped range.  \<open>append\<close> returns the new element's
  index; \<open>get\<close>, \<open>set\<close> and \<open>set_mapped_range\<close> fail on an index out of range.
\<close>

record list_element =
  element_file_index :: c_int
  element_offset :: off64_t
  element_size :: size64_t
  element_flags :: uint32_t
  mapped_offset :: off64_t
  mapped_size :: size64_t

type_synonym libfdata_list_t = "list_element list"

definition libfdata_list_append_element ::
  "libfdata_list_t \<Rightarrow> c_int \<Rightarrow> off64_t \<Rightarrow> size64_t \<Rightarrow> uint32_t
     \<Rightarrow> error + (libfdata_list_t \<times> int)" where
  "libfdata_list_append_element cl file_index offset sz flags =
     Inr (cl @ [\<lparr>element_file_index = file_index, element_offset = offset,
                 element_size = sz, element_flags = flags,
                 mapped_offset = 0, mapped_size = 0\<rparr>],
          int (length cl))"

definition libfdata_list_set_mapped_range_by_index ::
  "libfdata_list_t \<Rightarrow> int \<Rightarrow> off64_t \<Rightarrow> size64_t \<Rightarrow> error + libfdata_list_t" where
  "libfdata_list_set_mapped_range_by_index cl i offset sz =
     (if 0 \<le> i \<and> i < int (length cl)
      then Inr (cl[nat i := (cl ! nat i)\<lparr>mapped_offset := offset, mapped_size := sz\<rparr>])
      else Inl LIST_INDEX_NOT_FOUND)"

definition libfdata_list_get_element_by_index ::
  "libfdata_list_t \<Rightarrow> int \<Rightarrow> error + list_element" where
  "libfdata_list_get_element_by_index cl i =
     (if 0 \<le> i \<and> i < int (length cl) then Inr (cl ! nat i) else Inl LIST_INDEX_NOT_FOUND)"

definition libfdata_list_set_element_by_index ::
  "libfdata_list_t \<Rightarrow> int \<Rightarrow> c_int \<Rightarrow> off64_t \<Rightarrow> size64_t \<Rightarrow> uint32_t
     \<Rightarrow> error + libfdata_list_t" where
  "libfdata_list_set_element_by_index cl i file_index offset sz flags =
     (if 0 \<le> i \<and> i < int (length cl)
      then Inr (cl[nat i := (cl ! nat i)\<lparr>element_file_index := file_index,
                  element_offset := offset, element_size := sz, element_flags := flags\<rparr>])
      else Inl LIST_INDEX_NOT_FOUND)"

text \<open>
  Modelled from the spec: the little-endian byte codec of \<^verbatim>\<open>byte_stream.h\<close> (4.1).  The
  buffer is a list of bytes and \<open>off\<close> a byte offset into it.  The C macros do not check
  bounds; an access outside the buffer is \<open>OUT_OF_BOUNDS_ACCESS\<close>.
\<close>

definition byte_stream_copy_to_uint32_little_endian ::
  "uint8_t list \<Rightarrow> nat \<Rightarrow> error + uint32_t" where
  "byte_stream_copy_to_uint32_little_endian bytes off =
     (if off + 4 \<le> length bytes
      then Inr (push_bit 24 (ucast (bytes ! (off + 3))) OR
                push_bit 16 (ucast (bytes ! (off + 2))) OR
                push_bit 8 (ucast (bytes ! (off + 1))) OR
                ucast (bytes ! off))
      else Inl OUT_OF_BOUNDS_ACCESS)"

definition byte_stream_copy_to_uint64_little_endian ::
  "uint8_t list \<Rightarrow> nat \<Rightarrow> error + uint64_t" where
  "byte_stream_copy_to_uint64_little_endian bytes off =
     (if off + 8 \<le> length bytes
      then Inr (push_bit 56 (ucast (bytes ! (off + 7))) OR
                push_bit 48 (ucast (bytes ! (off + 6))) OR
                push_bit 40 (ucast (bytes ! (off + 5))) OR
                push_bit 32 (ucast (bytes ! (off + 4))) OR
                push_bit 24 (ucast (bytes ! (off + 3))) OR
                push_bit 16 (ucast (bytes ! (off + 2))) OR
                push_bit 8 (ucast (bytes ! (off + 1))) OR
                ucast (bytes ! off))
      else Inl OUT_OF_BOUNDS_ACCESS)"

definition byte_stream_copy_from_uint32_little_endian ::
  "uint8_t list \<Rightarrow> nat \<Rightarrow> uint32_t \<Rightarrow> error + uint8_t list" where
  "byte_stream_copy_from_uint32_little_endian bytes off v =
     (if off + 4 \<le> length bytes
      then Inr (bytes[off := ucast v,
                      off + 1 := ucast (drop_bit 8 v),
                      off + 2 := ucast (drop_bit 16 v),
                      off + 3 := ucast (drop_bit 24 v)])
      else Inl OUT_OF_BOUNDS_ACCESS)"

definition byte_stream_copy_from_uint64_little_endian ::
  "uint8_t list \<Rightarrow> nat \<Rightarrow> uint64_t \<Rightarrow> error + uint8_t list" where
  "byte_stream_copy_from_uint64_little_endian bytes off v =
     (if off + 8 \<le> length bytes
      then Inr (bytes[off := ucast v,
                      off + 1 := ucast (drop_bit 8 v),
                      off + 2 := ucast (drop_bit 16 v),
                      off + 3 := ucast (drop_bit 24 v),
                      off + 4 := ucast (drop_bit 32 v),
                      off + 5 := ucast (drop_bit 40 v),
                      off + 6 := ucast (drop_bit 48 v),
                      off + 7 := ucast (drop_bit 56 v)])
      else Inl OUT_OF_BOUNDS_ACCESS)"

text \<open>
  Reading the \<open>i\<close>-th version 1 table entry,
  \<^verbatim>\<open>((ewf_table_entry_v1_t *) table_entries_data)[i].chunk_data_offset\<close>.
\<close>

definition table_entry_v1_chunk_data_offset ::
  "uint8_t list \<Rightarrow> uint32_t \<Rightarrow> error + uint32_t" where
  "table_entry_v1_chunk_data_offset table_entries_data i =
     byte_stream_copy_to_uint32_little_endian table_entries_data
       (sizeof_ewf_table_entry_v1_t * unat i)"

section \<open>Version 1 table entries: the code shared by fill and correct\<close>

text \<open>
  The local variables that \<open>libewf_chunk_group_fill_v1\<close> and
  \<open>libewf_chunk_group_correct_v1\<close> have in common, with the chunks list they work on.
  Every block of the source is a function on this record.
\<close>

record v1_vars =
  chunks_list :: libfdata_list_t
  last_chunk_data_offset :: off64_t
  last_chunk_data_size :: off64_t
  chunk_data_size :: uint32_t
  current_offset :: uint32_t
  next_offset :: uint32_t
  range_flags :: uint32_t
  stored_offset :: uint32_t
  table_entry_index :: uint32_t
  corrupted :: uint8_t
  is_compressed :: uint8_t
  overflow :: uint8_t

text \<open>Lines 126-134, 330-338, 828-836 and 1096-1104: the current offset.\<close>

definition v1_decode_current :: "'a v1_vars_scheme \<Rightarrow> 'a v1_vars_scheme" where
  "v1_decode_current s =
     (if overflow s = 0
      then s\<lparr>is_compressed := ucast (drop_bit 31 (stored_offset s)),
             current_offset := stored_offset s AND 0x7fffffff\<rparr>
      else s\<lparr>current_offset := stored_offset s\<rparr>)"

text \<open>Lines 139-146 and 841-848: the next offset.\<close>

definition v1_decode_next :: "'a v1_vars_scheme \<Rightarrow> 'a v1_vars_scheme" where
  "v1_decode_next s =
     (if overflow s = 0
      then s\<lparr>next_offset := stored_offset s AND 0x7fffffff\<rparr>
      else s\<lparr>next_offset := stored_offset s\<rparr>)"

text \<open>Lines 147-202 and 849-904: the chunk data size and the corruption tests.\<close>

definition v1_chunk_data_size :: "'a v1_vars_scheme \<Rightarrow> 'a v1_vars_scheme" where
  "v1_chunk_data_size s0 =
     (let s = s0\<lparr>corrupted := 0\<rparr>;
          s = (if next_offset s < current_offset s
               then (let s = (if stored_offset s < current_offset s
                              then s\<lparr>corrupted := 1\<rparr> else s)
                     in s\<lparr>chunk_data_size := stored_offset s - current_offset s\<rparr>)
               else s\<lparr>chunk_data_size := next_offset s - current_offset s\<rparr>);
          s = (if chunk_data_size s = 0 then s\<lparr>corrupted := 1\<rparr> else s);
          s = (if chunk_data_size s > INT32_MAX then s\<lparr>corrupted := 1\<rparr> else s)
      in s)"

text \<open>Lines 309-323 and 1075-1089: the overflow latch.\<close>

definition v1_overflow_check :: "'a v1_vars_scheme \<Rightarrow> 'a v1_vars_scheme" where
  "v1_overflow_check s =
     (if overflow s = 0 \<and> current_offset s + chunk_data_size s > INT32_MAX
      then s\<lparr>overflow := 1, is_compressed := 0\<rparr>
      else s)"

text \<open>
  Lines 349-369 and 1115-1135, without the test against \<^verbatim>\<open>INT64_MAX\<close> in between: the
  offset of the last chunk and its distance to the start or the end of the section.
\<close>

definition v1_last_chunk_data_offset ::
  "off64_t \<Rightarrow> 'a v1_vars_scheme \<Rightarrow> 'a v1_vars_scheme" where
  "v1_last_chunk_data_offset base_offset s =
     s\<lparr>last_chunk_data_offset := base_offset + ucast (current_offset s)\<rparr>"

definition v1_last_chunk_data_size ::
  "libewf_section_t \<Rightarrow> 'a v1_vars_scheme \<Rightarrow> 'a v1_vars_scheme" where
  "v1_last_chunk_data_size table_section s =
     (if last_chunk_data_offset s <s start_offset table_section
      then s\<lparr>last_chunk_data_size := start_offset table_section - last_chunk_data_offset s\<rparr>
      else if last_chunk_data_offset s <s end_offset table_section
      then s\<lparr>last_chunk_data_size := end_offset table_section - last_chunk_data_offset s\<rparr>
      else s)"

text \<open>Lines 378-401 and 1146-1169: the corruption tests of the last chunk.\<close>

definition v1_last_chunk_corrupted :: "'a v1_vars_scheme \<Rightarrow> 'a v1_vars_scheme" where
  "v1_last_chunk_corrupted s0 =
     (let s = (if last_chunk_data_size s0 \<le>s 0 then s0\<lparr>corrupted := 1\<rparr> else s0);
          s = (if ucast INT32_MAX <s last_chunk_data_size s then s\<lparr>corrupted := 1\<rparr> else s)
      in s)"

section \<open>libewf\_chunk\_group\_fill\_v1\<close>

record fill_v1_vars = v1_vars +
  storage_media_offset :: off64_t
  element_index :: int

text \<open>Lines 203-218 and 402-417: the range flags of a filled element.\<close>

definition fill_v1_range_flags ::
  "uint8_t \<Rightarrow> 'a v1_vars_scheme \<Rightarrow> 'a v1_vars_scheme" where
  "fill_v1_range_flags tainted s0 =
     (let s = (if is_compressed s0 \<noteq> 0
               then s0\<lparr>range_flags := LIBEWF_RANGE_FLAG_IS_COMPRESSED\<rparr>
               else s0\<lparr>range_flags := LIBEWF_RANGE_FLAG_HAS_CHECKSUM\<rparr>);
          s = (if corrupted s \<noteq> 0
               then s\<lparr>range_flags := range_flags s OR LIBEWF_RANGE_FLAG_IS_CORRUPTED\<rparr>
               else s);
          s = (if tainted \<noteq> 0
               then s\<lparr>range_flags := range_flags s OR LIBEWF_RANGE_FLAG_IS_TAINTED\<rparr>
               else s)
      in s)"

text \<open>
  Lines 269-305 and 468-504: append the element, set its mapped range, advance the
  storage media offset.
\<close>

definition fill_v1_append ::
  "size32_t \<Rightarrow> c_int \<Rightarrow> off64_t \<Rightarrow> size64_t \<Rightarrow> fill_v1_vars \<Rightarrow> error + fill_v1_vars" where
  "fill_v1_append chunk_size file_io_pool_entry offset sz s0 =
     (case libfdata_list_append_element (chunks_list s0) file_io_pool_entry offset sz
             (range_flags s0) of
        Inl e \<Rightarrow> Inl RUNTIME_ERROR_APPEND_FAILED
      | Inr (cl, i) \<Rightarrow>
          (let s = s0\<lparr>chunks_list := cl, element_index := i\<rparr>
           in case libfdata_list_set_mapped_range_by_index (chunks_list s) (element_index s)
                     (storage_media_offset s) (ucast chunk_size) of
                Inl e \<Rightarrow> Inl RUNTIME_ERROR_APPEND_FAILED
              | Inr cl' \<Rightarrow>
                  Inr (s\<lparr>chunks_list := cl',
                         storage_media_offset := storage_media_offset s + ucast chunk_size\<rparr>)))"

text \<open>Lines 125-325: one pass through the body of the loop.\<close>

definition fill_v1_loop_body ::
  "size32_t \<Rightarrow> c_int \<Rightarrow> off64_t \<Rightarrow> uint8_t list \<Rightarrow> uint8_t \<Rightarrow> fill_v1_vars
     \<Rightarrow> error + fill_v1_vars" where
  "fill_v1_loop_body chunk_size file_io_pool_entry base_offset table_entries_data tainted s0 =
     (let s = v1_decode_current s0
      in case table_entry_v1_chunk_data_offset table_entries_data (table_entry_index s + 1) of
           Inl e \<Rightarrow> Inl e
         | Inr v \<Rightarrow>
             (let s = s\<lparr>stored_offset := v\<rparr>;
                  s = v1_decode_next s;
                  s = v1_chunk_data_size s;
                  s = fill_v1_range_flags tainted s
              in case fill_v1_append chunk_size file_io_pool_entry
                        (base_offset + ucast (current_offset s)) (ucast (chunk_data_size s)) s of
                   Inl e \<Rightarrow> Inl e
                 | Inr s \<Rightarrow>
                     (let s = v1_overflow_check s
                      in Inr (s\<lparr>table_entry_index := table_entry_index s + 1\<rparr>))))"

lemma v1_decode_current_index [simp]:
  "table_entry_index (v1_decode_current s) = table_entry_index s"
  by (simp add: v1_decode_current_def)

lemma v1_decode_next_index [simp]:
  "table_entry_index (v1_decode_next s) = table_entry_index s"
  by (simp add: v1_decode_next_def)

lemma v1_chunk_data_size_index [simp]:
  "table_entry_index (v1_chunk_data_size s) = table_entry_index s"
  by (simp add: v1_chunk_data_size_def Let_def)

lemma v1_overflow_check_index [simp]:
  "table_entry_index (v1_overflow_check s) = table_entry_index s"
  by (simp add: v1_overflow_check_def)

lemma fill_v1_range_flags_index [simp]:
  "table_entry_index (fill_v1_range_flags t s) = table_entry_index s"
  by (simp add: fill_v1_range_flags_def Let_def)

lemma fill_v1_append_index:
  "fill_v1_append cs pool off sz s = Inr s' \<Longrightarrow> table_entry_index s' = table_entry_index s"
  by (auto simp: fill_v1_append_def libfdata_list_append_element_def Let_def
      split: sum.splits)

lemma fill_v1_loop_body_index:
  assumes "fill_v1_loop_body cs pool base d t s = Inr s'"
  shows "table_entry_index s' = table_entry_index s + 1"
proof -
  obtain v where v: "table_entry_v1_chunk_data_offset d (table_entry_index s + 1) = Inr v"
    using assms by (auto simp: fill_v1_loop_body_def Let_def split: sum.splits)
  define s1 where
    "s1 = fill_v1_range_flags t (v1_chunk_data_size (v1_decode_next
            ((v1_decode_current s)\<lparr>stored_offset := v\<rparr>)))"
  obtain s2 where s2: "fill_v1_append cs pool (base + ucast (current_offset s1))
      (ucast (chunk_data_size s1)) s1 = Inr s2"
    and s': "s' = (v1_overflow_check s2)\<lparr>table_entry_index := table_entry_index (v1_overflow_check s2) + 1\<rparr>"
    using assms v by (auto simp: fill_v1_loop_body_def Let_def s1_def split: sum.splits)
  have "table_entry_index s2 = table_entry_index s1"
    using s2 by (rule fill_v1_append_index)
  then show ?thesis by (simp add: s' s1_def)
qed

lemma uint32_less_Suc:
  fixes i n :: uint32_t
  assumes "i < n"
  shows "unat (i + 1) = Suc (unat i)"
proof -
  have "unat i < unat n" using assms by (simp add: word_less_nat_alt)
  moreover have "unat n < 2 ^ 32" using unsigned_less [of n] by simp
  ultimately have "unat i + 1 < 2 ^ 32" by simp
  then show ?thesis by (simp add: unat_word_ariths)
qed

text \<open>Lines 124-325: the loop, \<^verbatim>\<open>while (table_entry_index < number_of_entries - 1)\<close>.\<close>

function fill_v1_loop ::
  "size32_t \<Rightarrow> c_int \<Rightarrow> off64_t \<Rightarrow> uint32_t \<Rightarrow> uint8_t list \<Rightarrow> uint8_t \<Rightarrow> fill_v1_vars
     \<Rightarrow> error + fill_v1_vars" where
  "fill_v1_loop chunk_size file_io_pool_entry base_offset number_of_entries
       table_entries_data tainted s =
     (if table_entry_index s < number_of_entries - 1
      then (case fill_v1_loop_body chunk_size file_io_pool_entry base_offset
                   table_entries_data tainted s of
              Inl e \<Rightarrow> Inl e
            | Inr s' \<Rightarrow> fill_v1_loop chunk_size file_io_pool_entry base_offset
                          number_of_entries table_entries_data tainted s')
      else Inr s)"
  by pat_completeness auto
termination
proof (relation "measure (\<lambda>(cs, pool, base, n, d, t, s). unat (n - 1) - unat (table_entry_index s))",
    goal_cases)
  case 1
  show ?case by simp
next
  case (2 cs pool base n d t s s')
  have "table_entry_index s' = table_entry_index s + 1"
    using 2(2) by (rule fill_v1_loop_body_index)
  moreover have "unat (table_entry_index s + 1) = Suc (unat (table_entry_index s))"
    using 2(1) by (rule uint32_less_Suc)
  moreover have "unat (table_entry_index s) < unat (n - 1)"
    using 2(1) by (simp add: word_less_nat_alt)
  ultimately show ?case by simp
qed

declare fill_v1_loop.simps [simp del]

text \<open>Lines 326-513: the last table entry.\<close>

definition fill_v1_last ::
  "size32_t \<Rightarrow> c_int \<Rightarrow> libewf_section_t \<Rightarrow> off64_t \<Rightarrow> uint8_t list \<Rightarrow> uint8_t
     \<Rightarrow> fill_v1_vars \<Rightarrow> error + fill_v1_vars" where
  "fill_v1_last chunk_size file_io_pool_entry table_section base_offset table_entries_data
       tainted s0 =
     (case table_entry_v1_chunk_data_offset table_entries_data (table_entry_index s0) of
        Inl e \<Rightarrow> Inl e
      | Inr v \<Rightarrow>
          (let s = s0\<lparr>stored_offset := v\<rparr>;
               s = v1_decode_current s;
               s = s\<lparr>corrupted := 0\<rparr>;
               s = v1_last_chunk_data_offset base_offset s
           in if INT64_MAX <s last_chunk_data_offset s
              then Inl RUNTIME_ERROR_VALUE_EXCEEDS_MAXIMUM
              else (let s = v1_last_chunk_data_size table_section s;
                        s = v1_last_chunk_corrupted s;
                        s = fill_v1_range_flags tainted s
                    in fill_v1_append chunk_size file_io_pool_entry
                         (last_chunk_data_offset s) (last_chunk_data_size s) s)))"

text \<open>Lines 51-63: the local variables at their declaration.\<close>

definition fill_v1_vars_init :: "libfdata_list_t \<Rightarrow> fill_v1_vars" where
  "fill_v1_vars_init cl =
     \<lparr>chunks_list = cl, last_chunk_data_offset = 0, last_chunk_data_size = 0,
      chunk_data_size = 0, current_offset = 0, next_offset = 0, range_flags = 0,
      stored_offset = 0, table_entry_index = 0, corrupted = 0, is_compressed = 0,
      overflow = 0, storage_media_offset = 0, element_index = 0\<rparr>"

text \<open>
  Lines 38-514.  A pointer argument is an option, \<open>None\<close> for \<^verbatim>\<open>NULL\<close>;
  \<^verbatim>\<open>table_entries_data_size\<close> is the length of the buffer.  The result is the chunks list
  after the call when the function returns 1, and the error when it returns -1.
\<close>

definition libewf_chunk_group_fill_v1 ::
  "libfdata_list_t option \<Rightarrow> size32_t \<Rightarrow> c_int \<Rightarrow> libewf_section_t option \<Rightarrow> off64_t
     \<Rightarrow> uint32_t \<Rightarrow> uint8_t list option \<Rightarrow> uint8_t \<Rightarrow> error + libfdata_list_t" where
  "libewf_chunk_group_fill_v1 chunks_list_ptr chunk_size file_io_pool_entry table_section_ptr
       base_offset number_of_entries table_entries_data_ptr tainted =
     (case chunks_list_ptr of
        None \<Rightarrow> Inl ARGUMENT_ERROR_INVALID_VALUE
      | Some cl \<Rightarrow>
     (case table_section_ptr of
        None \<Rightarrow> Inl ARGUMENT_ERROR_INVALID_VALUE
      | Some table_section \<Rightarrow>
     if base_offset <s 0 then Inl ARGUMENT_ERROR_VALUE_ZERO_OR_LESS
     else
     (case table_entries_data_ptr of
        None \<Rightarrow> Inl ARGUMENT_ERROR_INVALID_VALUE
      | Some table_entries_data \<Rightarrow>
     if length table_entries_data > SSIZE_MAX then Inl ARGUMENT_ERROR_VALUE_EXCEEDS_MAXIMUM
     else
     (let s = fill_v1_vars_init cl
      in case table_entry_v1_chunk_data_offset table_entries_data (table_entry_index s) of
           Inl e \<Rightarrow> Inl e
         | Inr v \<Rightarrow>
             (case fill_v1_loop chunk_size file_io_pool_entry base_offset number_of_entries
                     table_entries_data tainted (s\<lparr>stored_offset := v\<rparr>) of
                Inl e \<Rightarrow> Inl e
              | Inr s \<Rightarrow>
                  (case fill_v1_last chunk_size file_io_pool_entry table_section base_offset
                          table_entries_data tainted s of
                     Inl e \<Rightarrow> Inl e
                   | Inr s \<Rightarrow> Inr (chunks_list s)))))))"

section \<open>libewf\_chunk\_group\_fill\_v2\<close>

text \<open>
  The local variables of \<open>libewf_chunk_group_fill_v2\<close>, with the two arguments the loop
  changes: the pointer \<^verbatim>\<open>table_entries_data\<close>, which is the part of the buffer it
  points to, and \<^verbatim>\<open>table_entries_data_size\<close>, which is the length of that part.
\<close>

record fill_v2_vars =
  v2_chunks_list :: libfdata_list_t
  v2_table_entries_data :: "uint8_t list"
  v2_storage_media_offset :: off64_t
  v2_table_entry_offset :: off64_t
  v2_chunk_data_offset :: uint64_t
  v2_chunk_data_flags :: uint32_t
  v2_chunk_data_size :: uint32_t
  v2_range_flags :: uint32_t
  v2_table_entry_index :: uint32_t
  v2_element_index :: int

text \<open>Lines 636-674: the range flags from the chunk data flags.\<close>

definition fill_v2_range_flags :: "uint8_t \<Rightarrow> fill_v2_vars \<Rightarrow> fill_v2_vars" where
  "fill_v2_range_flags tainted s0 =
     (let s = s0\<lparr>v2_range_flags := 0\<rparr>;
          s = (if v2_chunk_data_flags s AND LIBEWF_CHUNK_DATA_FLAG_IS_COMPRESSED \<noteq> 0
               then (let s = s\<lparr>v2_range_flags :=
                                   v2_range_flags s OR LIBEWF_RANGE_FLAG_IS_COMPRESSED\<rparr>
                     in if v2_chunk_data_flags s AND LIBEWF_CHUNK_DATA_FLAG_USES_PATTERN_FILL \<noteq> 0
                        then s\<lparr>v2_range_flags :=
                                 v2_range_flags s OR LIBEWF_RANGE_FLAG_USES_PATTERN_FILL\<rparr>
                        else s)
               else s);
          s = (if v2_chunk_data_flags s AND LIBEWF_CHUNK_DATA_FLAG_HAS_CHECKSUM \<noteq> 0
               then s\<lparr>v2_range_flags := v2_range_flags s OR LIBEWF_RANGE_FLAG_HAS_CHECKSUM\<rparr>
               else s);
          s = (if tainted \<noteq> 0
               then s\<lparr>v2_range_flags := v2_range_flags s OR LIBEWF_RANGE_FLAG_IS_TAINTED\<rparr>
               else s)
      in s)"

text \<open>Lines 675-680: a pattern fill chunk is the table entry itself.\<close>

definition fill_v2_pattern_fill :: "fill_v2_vars \<Rightarrow> fill_v2_vars" where
  "fill_v2_pattern_fill s0 =
     (let s = (if v2_range_flags s0 AND LIBEWF_RANGE_FLAG_USES_PATTERN_FILL \<noteq> 0
               then s0\<lparr>v2_chunk_data_offset := v2_table_entry_offset s0,
                       v2_chunk_data_size := 8\<rparr>
               else s0)
      in s\<lparr>v2_table_entry_offset :=
             v2_table_entry_offset s + of_nat sizeof_ewf_table_entry_v2_t\<rparr>)"

text \<open>Lines 682-720: append the element, set its mapped range, advance.\<close>

definition fill_v2_append :: "size32_t \<Rightarrow> c_int \<Rightarrow> fill_v2_vars \<Rightarrow> error + fill_v2_vars" where
  "fill_v2_append chunk_size file_io_pool_entry s0 =
     (case libfdata_list_append_element (v2_chunks_list s0) file_io_pool_entry
             (v2_chunk_data_offset s0) (ucast (v2_chunk_data_size s0)) (v2_range_flags s0) of
        Inl e \<Rightarrow> Inl RUNTIME_ERROR_APPEND_FAILED
      | Inr (cl, i) \<Rightarrow>
          (let s = s0\<lparr>v2_chunks_list := cl, v2_element_index := i\<rparr>
           in case libfdata_list_set_mapped_range_by_index (v2_chunks_list s)
                     (v2_element_index s) (v2_storage_media_offset s) (ucast chunk_size) of
                Inl e \<Rightarrow> Inl RUNTIME_ERROR_APPEND_FAILED
              | Inr cl' \<Rightarrow>
                  Inr (s\<lparr>v2_chunks_list := cl',
                         v2_storage_media_offset := v2_storage_media_offset s + ucast chunk_size,
                         v2_table_entry_index := v2_table_entry_index s + 1\<rparr>)))"

text \<open>
  Lines 587-729: one pass through the body of the loop.  The three fields of
  \<^verbatim>\<open>ewf_table_entry_v2_t\<close> are at the byte offsets 0, 8 and 12 of the entry (6.1).
\<close>

definition fill_v2_loop_body ::
  "size32_t \<Rightarrow> c_int \<Rightarrow> uint8_t \<Rightarrow> fill_v2_vars \<Rightarrow> error + fill_v2_vars" where
  "fill_v2_loop_body chunk_size file_io_pool_entry tainted s0 =
     (case byte_stream_copy_to_uint64_little_endian (v2_table_entries_data s0) 0 of
        Inl e \<Rightarrow> Inl e
      | Inr off \<Rightarrow>
     (case byte_stream_copy_to_uint32_little_endian (v2_table_entries_data s0) 8 of
        Inl e \<Rightarrow> Inl e
      | Inr sz \<Rightarrow>
     (case byte_stream_copy_to_uint32_little_endian (v2_table_entries_data s0) 12 of
        Inl e \<Rightarrow> Inl e
      | Inr fl \<Rightarrow>
          (let s = s0\<lparr>v2_chunk_data_offset := off, v2_chunk_data_size := sz,
                      v2_chunk_data_flags := fl\<rparr>;
               s = s\<lparr>v2_table_entries_data :=
                       drop sizeof_ewf_table_entry_v2_t (v2_table_entries_data s)\<rparr>;
               s = fill_v2_range_flags tainted s;
               s = fill_v2_pattern_fill s
           in fill_v2_append chunk_size file_io_pool_entry s))))"

lemma fill_v2_range_flags_data [simp]:
  "v2_table_entries_data (fill_v2_range_flags t s) = v2_table_entries_data s"
  by (simp add: fill_v2_range_flags_def Let_def)

lemma fill_v2_pattern_fill_data [simp]:
  "v2_table_entries_data (fill_v2_pattern_fill s) = v2_table_entries_data s"
  by (simp add: fill_v2_pattern_fill_def Let_def)

lemma fill_v2_append_data:
  "fill_v2_append cs pool s = Inr s' \<Longrightarrow> v2_table_entries_data s' = v2_table_entries_data s"
  by (auto simp: fill_v2_append_def libfdata_list_append_element_def Let_def
      split: sum.splits)

lemma fill_v2_loop_body_data:
  assumes "fill_v2_loop_body cs pool t s = Inr s'"
  shows "v2_table_entries_data s' = drop sizeof_ewf_table_entry_v2_t (v2_table_entries_data s)"
proof -
  obtain s1 where a: "fill_v2_append cs pool s1 = Inr s'"
    and d: "v2_table_entries_data s1 = drop sizeof_ewf_table_entry_v2_t (v2_table_entries_data s)"
    using assms by (auto simp: fill_v2_loop_body_def Let_def split: sum.splits)
  show ?thesis using fill_v2_append_data [OF a] d by simp
qed

text \<open>
  Lines 586-729: the loop,
  \<^verbatim>\<open>while (table_entries_data_size >= sizeof(ewf_table_entry_v2_t))\<close>.
\<close>

function fill_v2_loop ::
  "size32_t \<Rightarrow> c_int \<Rightarrow> uint8_t \<Rightarrow> fill_v2_vars \<Rightarrow> error + fill_v2_vars" where
  "fill_v2_loop chunk_size file_io_pool_entry tainted s =
     (if length (v2_table_entries_data s) \<ge> sizeof_ewf_table_entry_v2_t
      then (case fill_v2_loop_body chunk_size file_io_pool_entry tainted s of
              Inl e \<Rightarrow> Inl e
            | Inr s' \<Rightarrow> fill_v2_loop chunk_size file_io_pool_entry tainted s')
      else Inr s)"
  by pat_completeness auto
termination
proof (relation "measure (\<lambda>(cs, pool, t, s). length (v2_table_entries_data s))", goal_cases)
  case 1
  show ?case by simp
next
  case (2 cs pool t s s')
  show ?case
    using 2(1) fill_v2_loop_body_data [OF 2(2)] by (simp add: sizeof_ewf_table_entry_v2_t_def)
qed

declare fill_v2_loop.simps [simp del]

text \<open>
  Lines 519-731.  \<open>sizeof_ewf_table_header_v2_t\<close> stands for
  \<^verbatim>\<open>sizeof(ewf_table_header_v2_t)\<close>, whose declaration is in \<^verbatim>\<open>ewf_definitions.h\<close>; the
  other arguments are those of the source, in its order.
\<close>

definition libewf_chunk_group_fill_v2 ::
  "nat \<Rightarrow> libfdata_list_t option \<Rightarrow> size32_t \<Rightarrow> c_int \<Rightarrow> libewf_section_t option \<Rightarrow> uint32_t
     \<Rightarrow> uint8_t list option \<Rightarrow> uint8_t \<Rightarrow> error + libfdata_list_t" where
  "libewf_chunk_group_fill_v2 sizeof_ewf_table_header_v2_t chunks_list_ptr chunk_size
       file_io_pool_entry table_section_ptr number_of_offsets table_entries_data_ptr tainted =
     (case chunks_list_ptr of
        None \<Rightarrow> Inl ARGUMENT_ERROR_INVALID_VALUE
      | Some cl \<Rightarrow>
     (case table_section_ptr of
        None \<Rightarrow> Inl ARGUMENT_ERROR_INVALID_VALUE
      | Some table_section \<Rightarrow>
     (case table_entries_data_ptr of
        None \<Rightarrow> Inl ARGUMENT_ERROR_INVALID_VALUE
      | Some table_entries_data \<Rightarrow>
     if length table_entries_data > SSIZE_MAX then Inl ARGUMENT_ERROR_VALUE_EXCEEDS_MAXIMUM
     else
     (case fill_v2_loop chunk_size file_io_pool_entry tainted
             \<lparr>v2_chunks_list = cl, v2_table_entries_data = table_entries_data,
              v2_storage_media_offset = 0,
              v2_table_entry_offset =
                start_offset table_section + of_nat sizeof_ewf_table_header_v2_t,
              v2_chunk_data_offset = 0, v2_chunk_data_flags = 0, v2_chunk_data_size = 0,
              v2_range_flags = 0, v2_table_entry_index = 0, v2_element_index = 0\<rparr> of
        Inl e \<Rightarrow> Inl e
      | Inr s \<Rightarrow> Inr (v2_chunks_list s)))))"

section \<open>libewf\_chunk\_group\_correct\_v1\<close>

record correct_v1_vars = v1_vars +
  previous_chunk_data_offset :: off64_t
  previous_chunk_data_size :: size64_t
  previous_range_flags :: uint32_t
  previous_file_io_pool_entry :: c_int
  mismatch :: uint8_t
  update_data_range :: uint8_t

text \<open>Lines 905-918 and 1170-1183: the range flags of a corrected element.\<close>

definition correct_v1_range_flags ::
  "uint8_t \<Rightarrow> 'a v1_vars_scheme \<Rightarrow> 'a v1_vars_scheme" where
  "correct_v1_range_flags tainted s0 =
     (let s = s0\<lparr>range_flags := LIBEWF_RANGE_FLAG_HAS_CHECKSUM\<rparr>;
          s = (if is_compressed s \<noteq> 0
               then s\<lparr>range_flags := range_flags s OR LIBEWF_RANGE_FLAG_IS_COMPRESSED\<rparr>
               else s);
          s = (if corrupted s \<noteq> 0
               then s\<lparr>range_flags := range_flags s OR LIBEWF_RANGE_FLAG_IS_CORRUPTED\<rparr>
               else s);
          s = (if tainted \<noteq> 0
               then s\<lparr>range_flags := range_flags s OR LIBEWF_RANGE_FLAG_IS_TAINTED\<rparr>
               else s)
      in s)"

text \<open>
  Lines 969-987 and 1234-1252: the element of the chunks list at the table entry index.
  The index is passed as an \<^verbatim>\<open>int\<close>.
\<close>

definition correct_v1_get_previous :: "correct_v1_vars \<Rightarrow> error + correct_v1_vars" where
  "correct_v1_get_previous s =
     (case libfdata_list_get_element_by_index (chunks_list s) (sint (table_entry_index s)) of
        Inl e \<Rightarrow> Inl RUNTIME_ERROR_GET_FAILED
      | Inr el \<Rightarrow>
          Inr (s\<lparr>previous_file_io_pool_entry := element_file_index el,
                 previous_chunk_data_offset := element_offset el,
                 previous_chunk_data_size := element_size el,
                 previous_range_flags := element_flags el\<rparr>))"

text \<open>Lines 988-1031 and 1253-1296: the comparison with the previous element.\<close>

definition correct_v1_mismatch :: "off64_t \<Rightarrow> correct_v1_vars \<Rightarrow> correct_v1_vars" where
  "correct_v1_mismatch base_offset s =
     (if base_offset + ucast (current_offset s) \<noteq> previous_chunk_data_offset s
      then s\<lparr>mismatch := 1\<rparr>
      else if ucast (chunk_data_size s) \<noteq> previous_chunk_data_size s
      then s\<lparr>mismatch := 1\<rparr>
      else if range_flags s AND LIBEWF_RANGE_FLAG_IS_COMPRESSED
              \<noteq> previous_range_flags s AND LIBEWF_RANGE_FLAG_IS_COMPRESSED
      then s\<lparr>mismatch := 1\<rparr>
      else s\<lparr>mismatch := 0\<rparr>)"

text \<open>Lines 1032-1050 and 1297-1315: whether the element is overwritten.\<close>

definition correct_v1_update_data_range :: "uint8_t \<Rightarrow> correct_v1_vars \<Rightarrow> correct_v1_vars" where
  "correct_v1_update_data_range tainted s0 =
     (let s = s0\<lparr>update_data_range := 0\<rparr>
      in if mismatch s \<noteq> 0
         then (if corrupted s = 0 \<and> tainted = 0
               then s\<lparr>update_data_range := 1\<rparr>
               else if previous_range_flags s AND LIBEWF_RANGE_FLAG_IS_CORRUPTED \<noteq> 0
                       \<and> corrupted s = 0
               then s\<lparr>update_data_range := 1\<rparr>
               else s)
         else if previous_range_flags s AND LIBEWF_RANGE_FLAG_IS_TAINTED \<noteq> 0
         then s\<lparr>update_data_range := 1\<rparr>
         else s)"

text \<open>Lines 1051-1072 and 1316-1337: overwriting the element.\<close>

definition correct_v1_set_element ::
  "c_int \<Rightarrow> off64_t \<Rightarrow> correct_v1_vars \<Rightarrow> error + correct_v1_vars" where
  "correct_v1_set_element file_io_pool_entry base_offset s =
     (if update_data_range s \<noteq> 0
      then (case libfdata_list_set_element_by_index (chunks_list s)
                   (sint (table_entry_index s)) file_io_pool_entry
                   (base_offset + ucast (current_offset s)) (ucast (chunk_data_size s))
                   (range_flags s) of
              Inl e \<Rightarrow> Inl RUNTIME_ERROR_SET_FAILED
            | Inr cl \<Rightarrow> Inr (s\<lparr>chunks_list := cl\<rparr>))
      else Inr s)"

text \<open>Lines 969-1072 and 1234-1337: compare with the previous element and overwrite it.\<close>

definition correct_v1_compare_and_set ::
  "c_int \<Rightarrow> off64_t \<Rightarrow> uint8_t \<Rightarrow> correct_v1_vars \<Rightarrow> error + correct_v1_vars" where
  "correct_v1_compare_and_set file_io_pool_entry base_offset tainted s0 =
     (case correct_v1_get_previous s0 of
        Inl e \<Rightarrow> Inl e
      | Inr s \<Rightarrow>
          (let s = correct_v1_mismatch base_offset s;
               s = correct_v1_update_data_range tainted s
           in correct_v1_set_element file_io_pool_entry base_offset s))"

text \<open>Lines 827-1091: one pass through the body of the loop.\<close>

definition correct_v1_loop_body ::
  "c_int \<Rightarrow> off64_t \<Rightarrow> uint8_t list \<Rightarrow> uint8_t \<Rightarrow> correct_v1_vars
     \<Rightarrow> error + correct_v1_vars" where
  "correct_v1_loop_body file_io_pool_entry base_offset table_entries_data tainted s0 =
     (let s = v1_decode_current s0
      in case table_entry_v1_chunk_data_offset table_entries_data (table_entry_index s + 1) of
           Inl e \<Rightarrow> Inl e
         | Inr v \<Rightarrow>
             (let s = s\<lparr>stored_offset := v\<rparr>;
                  s = v1_decode_next s;
                  s = v1_chunk_data_size s;
                  s = correct_v1_range_flags tainted s
              in case correct_v1_compare_and_set file_io_pool_entry base_offset tainted s of
                   Inl e \<Rightarrow> Inl e
                 | Inr s \<Rightarrow>
                     (let s = v1_overflow_check s
                      in Inr (s\<lparr>table_entry_index := table_entry_index s + 1\<rparr>))))"

lemma correct_v1_range_flags_index [simp]:
  "table_entry_index (correct_v1_range_flags t s) = table_entry_index s"
  by (simp add: correct_v1_range_flags_def Let_def)

lemma correct_v1_compare_and_set_index:
  "correct_v1_compare_and_set pool base t s = Inr s' \<Longrightarrow>
   table_entry_index s' = table_entry_index s"
  by (auto simp: correct_v1_compare_and_set_def correct_v1_get_previous_def
      correct_v1_mismatch_def correct_v1_update_data_range_def correct_v1_set_element_def
      Let_def split: sum.splits if_splits)

lemma correct_v1_loop_body_index:
  assumes "correct_v1_loop_body pool base d t s = Inr s'"
  shows "table_entry_index s' = table_entry_index s + 1"
proof -
  obtain v where v: "table_entry_v1_chunk_data_offset d (table_entry_index s + 1) = Inr v"
    using assms by (auto simp: correct_v1_loop_body_def Let_def split: sum.splits)
  define s1 where
    "s1 = correct_v1_range_flags t (v1_chunk_data_size (v1_decode_next
            ((v1_decode_current s)\<lparr>stored_offset := v\<rparr>)))"
  obtain s2 where s2: "correct_v1_compare_and_set pool base t s1 = Inr s2"
    and s': "s' = (v1_overflow_check s2)\<lparr>table_entry_index := table_entry_index (v1_overflow_check s2) + 1\<rparr>"
    using assms v by (auto simp: correct_v1_loop_body_def Let_def s1_def split: sum.splits)
  have "table_entry_index s2 = table_entry_index s1"
    using s2 by (rule correct_v1_compare_and_set_index)
  then show ?thesis by (simp add: s' s1_def)
qed

text \<open>Lines 826-1091: the loop, \<^verbatim>\<open>while (table_entry_index < number_of_entries - 1)\<close>.\<close>

function correct_v1_loop ::
  "c_int \<Rightarrow> off64_t \<Rightarrow> uint32_t \<Rightarrow> uint8_t list \<Rightarrow> uint8_t \<Rightarrow> correct_v1_vars
     \<Rightarrow> error + correct_v1_vars" where
  "correct_v1_loop file_io_pool_entry base_offset number_of_entries table_entries_data tainted s =
     (if table_entry_index s < number_of_entries - 1
      then (case correct_v1_loop_body file_io_pool_entry base_offset table_entries_data
                   tainted s of
              Inl e \<Rightarrow> Inl e
            | Inr s' \<Rightarrow> correct_v1_loop file_io_pool_entry base_offset number_of_entries
                          table_entries_data tainted s')
      else Inr s)"
  by pat_completeness auto
termination
proof (relation "measure (\<lambda>(pool, base, n, d, t, s). unat (n - 1) - unat (table_entry_index s))",
    goal_cases)
  case 1
  show ?case by simp
next
  case (2 pool base n d t s s')
  have "table_entry_index s' = table_entry_index s + 1"
    using 2(2) by (rule correct_v1_loop_body_index)
  moreover have "unat (table_entry_index s + 1) = Suc (unat (table_entry_index s))"
    using 2(1) by (rule uint32_less_Suc)
  moreover have "unat (table_entry_index s) < unat (n - 1)"
    using 2(1) by (simp add: word_less_nat_alt)
  ultimately show ?case by simp
qed

declare correct_v1_loop.simps [simp del]

text \<open>Lines 1092-1345: the last table entry.\<close>

definition correct_v1_last ::
  "c_int \<Rightarrow> libewf_section_t \<Rightarrow> off64_t \<Rightarrow> uint8_t list \<Rightarrow> uint8_t \<Rightarrow> correct_v1_vars
     \<Rightarrow> error + correct_v1_vars" where
  "correct_v1_last file_io_pool_entry table_section base_offset table_entries_data tainted s0 =
     (case table_entry_v1_chunk_data_offset table_entries_data (table_entry_index s0) of
        Inl e \<Rightarrow> Inl e
      | Inr v \<Rightarrow>
          (let s = s0\<lparr>stored_offset := v\<rparr>;
               s = v1_decode_current s;
               s = s\<lparr>corrupted := 0\<rparr>;
               s = v1_last_chunk_data_offset base_offset s
           in if INT64_MAX <s last_chunk_data_offset s
              then Inl RUNTIME_ERROR_VALUE_EXCEEDS_MAXIMUM
              else (let s = v1_last_chunk_data_size table_section s;
                        s = s\<lparr>last_chunk_data_size :=
                                last_chunk_data_size s - section_size table_section\<rparr>;
                        s = v1_last_chunk_corrupted s;
                        s = correct_v1_range_flags tainted s
                    in correct_v1_compare_and_set file_io_pool_entry base_offset tainted s)))"

text \<open>Lines 749-765: the local variables at their declaration.\<close>

definition correct_v1_vars_init :: "libfdata_list_t \<Rightarrow> correct_v1_vars" where
  "correct_v1_vars_init cl =
     \<lparr>chunks_list = cl, last_chunk_data_offset = 0, last_chunk_data_size = 0,
      chunk_data_size = 0, current_offset = 0, next_offset = 0, range_flags = 0,
      stored_offset = 0, table_entry_index = 0, corrupted = 0, is_compressed = 0,
      overflow = 0, previous_chunk_data_offset = 0, previous_chunk_data_size = 0,
      previous_range_flags = 0, previous_file_io_pool_entry = 0, mismatch = 0,
      update_data_range = 0\<rparr>"

text \<open>
  Lines 736-1346.  \<^verbatim>\<open>chunk_size\<close> is an argument the function does not use.
\<close>

definition libewf_chunk_group_correct_v1 ::
  "libfdata_list_t option \<Rightarrow> size32_t \<Rightarrow> c_int \<Rightarrow> libewf_section_t option \<Rightarrow> off64_t
     \<Rightarrow> uint32_t \<Rightarrow> uint8_t list option \<Rightarrow> uint8_t \<Rightarrow> error + libfdata_list_t" where
  "libewf_chunk_group_correct_v1 chunks_list_ptr chunk_size file_io_pool_entry table_section_ptr
       base_offset number_of_entries table_entries_data_ptr tainted =
     (case chunks_list_ptr of
        None \<Rightarrow> Inl ARGUMENT_ERROR_INVALID_VALUE
      | Some cl \<Rightarrow>
     (case table_section_ptr of
        None \<Rightarrow> Inl ARGUMENT_ERROR_INVALID_VALUE
      | Some table_section \<Rightarrow>
     if base_offset <s 0 then Inl ARGUMENT_ERROR_VALUE_ZERO_OR_LESS
     else
     (case table_entries_data_ptr of
        None \<Rightarrow> Inl ARGUMENT_ERROR_INVALID_VALUE
      | Some table_entries_data \<Rightarrow>
     if length table_entries_data > SSIZE_MAX then Inl ARGUMENT_ERROR_VALUE_EXCEEDS_MAXIMUM
     else
     (let s = correct_v1_vars_init cl
      in case table_entry_v1_chunk_data_offset table_entries_data (table_entry_index s) of
           Inl e \<Rightarrow> Inl e
         | Inr v \<Rightarrow>
             (case correct_v1_loop file_io_pool_entry base_offset number_of_entries
                     table_entries_data tainted (s\<lparr>stored_offset := v\<rparr>) of
                Inl e \<Rightarrow> Inl e
              | Inr s \<Rightarrow>
                  (case correct_v1_last file_io_pool_entry table_section base_offset
                          table_entries_data tainted s of
                     Inl e \<Rightarrow> Inl e
                   | Inr s \<Rightarrow> Inr (chunks_list s)))))))"

section \<open>libewf\_chunk\_group\_generate\_table\_entries\_data\<close>

text \<open>
  The local variables of \<open>libewf_chunk_group_generate_table_entries_data\<close>, with the
  buffer it writes.  The pointer \<^verbatim>\<open>table_entries_data\<close>, which the loop advances, is the
  buffer \<open>g_buffer\<close> and a byte offset \<open>g_table_entries_data\<close> into it.
\<close>

record generate_vars =
  g_buffer :: "uint8_t list"
  g_table_entries_data :: nat
  g_chunk_data_offset :: off64_t
  g_chunk_data_size :: size64_t
  g_chunk_data_flags :: uint32_t
  g_range_flags :: uint32_t
  g_table_offset :: uint32_t
  g_table_entry_index :: uint32_t
  g_file_io_pool_entry :: c_int

text \<open>Lines 1448-1466: the element of the chunks list at the table entry index.\<close>

definition generate_get_element :: "libfdata_list_t \<Rightarrow> generate_vars \<Rightarrow> error + generate_vars" where
  "generate_get_element cl s =
     (case libfdata_list_get_element_by_index cl (sint (g_table_entry_index s)) of
        Inl e \<Rightarrow> Inl RUNTIME_ERROR_GET_FAILED
      | Inr el \<Rightarrow>
          Inr (s\<lparr>g_file_io_pool_entry := element_file_index el,
                 g_chunk_data_offset := element_offset el,
                 g_chunk_data_size := element_size el,
                 g_range_flags := element_flags el\<rparr>))"

text \<open>Lines 1469-1492: a version 1 table entry.\<close>

definition generate_table_entry_v1 :: "off64_t \<Rightarrow> generate_vars \<Rightarrow> error + generate_vars" where
  "generate_table_entry_v1 base_offset s0 =
     (let s = s0\<lparr>g_chunk_data_offset := g_chunk_data_offset s0 - base_offset\<rparr>
      in if g_chunk_data_offset s <s 0 \<or> ucast INT32_MAX <s g_chunk_data_offset s
         then Inl RUNTIME_ERROR_VALUE_OUT_OF_BOUNDS
         else (let s = s\<lparr>g_table_offset := ucast (g_chunk_data_offset s)\<rparr>;
                   s = (if g_range_flags s AND LIBEWF_RANGE_FLAG_IS_COMPRESSED \<noteq> 0
                        then s\<lparr>g_table_offset := g_table_offset s OR 0x80000000\<rparr>
                        else s)
               in case byte_stream_copy_from_uint32_little_endian (g_buffer s)
                         (g_table_entries_data s) (g_table_offset s) of
                    Inl e \<Rightarrow> Inl e
                  | Inr b \<Rightarrow> Inr (s\<lparr>g_buffer := b\<rparr>)))"

text \<open>Lines 1496-1532: a version 2 table entry.\<close>

definition generate_table_entry_v2 :: "generate_vars \<Rightarrow> error + generate_vars" where
  "generate_table_entry_v2 s0 =
     (if g_chunk_data_size s0 > 0xffffffff
      then Inl RUNTIME_ERROR_VALUE_OUT_OF_BOUNDS
      else (let s = s0\<lparr>g_chunk_data_flags := 0\<rparr>;
                s = (if g_range_flags s AND LIBEWF_RANGE_FLAG_IS_COMPRESSED \<noteq> 0
                     then s\<lparr>g_chunk_data_flags :=
                              g_chunk_data_flags s OR LIBEWF_CHUNK_DATA_FLAG_IS_COMPRESSED\<rparr>
                     else s);
                s = (if g_range_flags s AND LIBEWF_RANGE_FLAG_HAS_CHECKSUM \<noteq> 0
                     then s\<lparr>g_chunk_data_flags :=
                              g_chunk_data_flags s OR LIBEWF_CHUNK_DATA_FLAG_HAS_CHECKSUM\<rparr>
                     else s);
                s = (if g_range_flags s AND LIBEWF_RANGE_FLAG_USES_PATTERN_FILL \<noteq> 0
                     then s\<lparr>g_chunk_data_flags :=
                              g_chunk_data_flags s OR LIBEWF_CHUNK_DATA_FLAG_USES_PATTERN_FILL\<rparr>
                     else s)
            in case byte_stream_copy_from_uint64_little_endian (g_buffer s)
                      (g_table_entries_data s) (g_chunk_data_offset s) of
                 Inl e \<Rightarrow> Inl e
               | Inr b1 \<Rightarrow>
              (case byte_stream_copy_from_uint32_little_endian b1
                      (g_table_entries_data s + 8) (ucast (g_chunk_data_size s)) of
                 Inl e \<Rightarrow> Inl e
               | Inr b2 \<Rightarrow>
              (case byte_stream_copy_from_uint32_little_endian b2
                      (g_table_entries_data s + 12) (g_chunk_data_flags s) of
                 Inl e \<Rightarrow> Inl e
               | Inr b3 \<Rightarrow> Inr (s\<lparr>g_buffer := b3\<rparr>)))))"

text \<open>Lines 1447-1535: one pass through the body of the loop.\<close>

definition generate_loop_body ::
  "libfdata_list_t \<Rightarrow> uint8_t \<Rightarrow> nat \<Rightarrow> off64_t \<Rightarrow> generate_vars \<Rightarrow> error + generate_vars" where
  "generate_loop_body cl format_version table_entry_data_size base_offset s0 =
     (case generate_get_element cl s0 of
        Inl e \<Rightarrow> Inl e
      | Inr s \<Rightarrow>
          (case (if format_version = 1 then generate_table_entry_v1 base_offset s
                 else if format_version = 2 then generate_table_entry_v2 s
                 else Inr s) of
             Inl e \<Rightarrow> Inl e
           | Inr s \<Rightarrow>
               Inr (s\<lparr>g_table_entries_data := g_table_entries_data s + table_entry_data_size,
                      g_table_entry_index := g_table_entry_index s + 1\<rparr>)))"

lemma generate_get_element_index:
  "generate_get_element cl s = Inr s' \<Longrightarrow> g_table_entry_index s' = g_table_entry_index s"
  by (auto simp: generate_get_element_def split: sum.splits)

lemma generate_table_entry_v1_index:
  "generate_table_entry_v1 base s = Inr s' \<Longrightarrow> g_table_entry_index s' = g_table_entry_index s"
  by (auto simp: generate_table_entry_v1_def Let_def split: sum.splits if_splits)

lemma generate_table_entry_v2_index:
  "generate_table_entry_v2 s = Inr s' \<Longrightarrow> g_table_entry_index s' = g_table_entry_index s"
  by (auto simp: generate_table_entry_v2_def Let_def split: sum.splits if_splits)

lemma generate_loop_body_index:
  assumes "generate_loop_body cl fv es base s = Inr s'"
  shows "g_table_entry_index s' = g_table_entry_index s + 1"
proof -
  obtain s1 s2 where s1: "generate_get_element cl s = Inr s1"
    and s2: "(if fv = 1 then generate_table_entry_v1 base s1
              else if fv = 2 then generate_table_entry_v2 s1 else Inr s1) = Inr s2"
    and s': "s' = s2\<lparr>g_table_entries_data := g_table_entries_data s2 + es,
                     g_table_entry_index := g_table_entry_index s2 + 1\<rparr>"
    using assms by (auto simp: generate_loop_body_def split: sum.splits)
  have "g_table_entry_index s2 = g_table_entry_index s1"
    using s2 generate_table_entry_v1_index generate_table_entry_v2_index
    by (auto split: if_splits)
  then show ?thesis using generate_get_element_index [OF s1] by (simp add: s')
qed

text \<open>
  Lines 1444-1535: the loop,
  \<^verbatim>\<open>for (table_entry_index = 0; table_entry_index < number_of_entries; table_entry_index++)\<close>,
  from the state after the initialisation.
\<close>

function generate_loop ::
  "libfdata_list_t \<Rightarrow> uint8_t \<Rightarrow> nat \<Rightarrow> uint32_t \<Rightarrow> off64_t \<Rightarrow> generate_vars
     \<Rightarrow> error + generate_vars" where
  "generate_loop cl format_version table_entry_data_size number_of_entries base_offset s =
     (if g_table_entry_index s < number_of_entries
      then (case generate_loop_body cl format_version table_entry_data_size base_offset s of
              Inl e \<Rightarrow> Inl e
            | Inr s' \<Rightarrow> generate_loop cl format_version table_entry_data_size
                          number_of_entries base_offset s')
      else Inr s)"
  by pat_completeness auto
termination
proof (relation "measure (\<lambda>(cl, fv, es, n, base, s). unat n - unat (g_table_entry_index s))",
    goal_cases)
  case 1
  show ?case by simp
next
  case (2 cl fv es n base s s')
  have "g_table_entry_index s' = g_table_entry_index s + 1"
    using 2(2) by (rule generate_loop_body_index)
  moreover have "unat (g_table_entry_index s + 1) = Suc (unat (g_table_entry_index s))"
    using 2(1) by (rule uint32_less_Suc)
  moreover have "unat (g_table_entry_index s) < unat n"
    using 2(1) by (simp add: word_less_nat_alt)
  ultimately show ?case by simp
qed

declare generate_loop.simps [simp del]

text \<open>
  Lines 1351-1537.  The buffer \<^verbatim>\<open>table_entries_data\<close> is an argument and, when the function
  returns 1, the result; \<^verbatim>\<open>table_entries_data_size\<close> is its length.
\<close>

definition libewf_chunk_group_generate_table_entries_data ::
  "libfdata_list_t option \<Rightarrow> uint8_t \<Rightarrow> uint8_t list option \<Rightarrow> uint32_t \<Rightarrow> off64_t
     \<Rightarrow> error + uint8_t list" where
  "libewf_chunk_group_generate_table_entries_data chunks_list_ptr format_version
       table_entries_data_ptr number_of_entries base_offset =
     (case chunks_list_ptr of
        None \<Rightarrow> Inl ARGUMENT_ERROR_INVALID_VALUE
      | Some cl \<Rightarrow>
     if format_version \<noteq> 1 \<and> format_version \<noteq> 2 then Inl ARGUMENT_ERROR_UNSUPPORTED_VALUE
     else
     (let table_entry_data_size =
            (if format_version = 1 then sizeof_ewf_table_entry_v1_t
             else sizeof_ewf_table_entry_v2_t)
      in case table_entries_data_ptr of
           None \<Rightarrow> Inl ARGUMENT_ERROR_INVALID_VALUE
         | Some table_entries_data \<Rightarrow>
     if length table_entries_data > SSIZE_MAX then Inl ARGUMENT_ERROR_VALUE_EXCEEDS_MAXIMUM
     else if unat number_of_entries * table_entry_data_size > length table_entries_data
     then Inl RUNTIME_ERROR_VALUE_OUT_OF_BOUNDS
     else if base_offset <s 0 then Inl ARGUMENT_ERROR_VALUE_ZERO_OR_LESS
     else
     (case generate_loop cl format_version table_entry_data_size number_of_entries base_offset
             \<lparr>g_buffer = table_entries_data, g_table_entries_data = 0,
              g_chunk_data_offset = 0, g_chunk_data_size = 0, g_chunk_data_flags = 0,
              g_range_flags = 0, g_table_offset = 0, g_table_entry_index = 0,
              g_file_io_pool_entry = 0\<rparr> of
        Inl e \<Rightarrow> Inl e
      | Inr s \<Rightarrow> Inr (g_buffer s))))"

section \<open>Evaluation on concrete inputs\<close>

text \<open>The defining equations, collected for the simplifier to run the functions with.\<close>

lemmas list_defs = libfdata_list_append_element_def libfdata_list_set_mapped_range_by_index_def
  libfdata_list_get_element_by_index_def libfdata_list_set_element_by_index_def

lemmas codec_defs = byte_stream_copy_to_uint32_little_endian_def
  byte_stream_copy_to_uint64_little_endian_def byte_stream_copy_from_uint32_little_endian_def
  byte_stream_copy_from_uint64_little_endian_def table_entry_v1_chunk_data_offset_def
  sizeof_ewf_table_entry_v1_t_def sizeof_ewf_table_entry_v2_t_def

lemmas flag_defs = LIBEWF_RANGE_FLAG_IS_COMPRESSED_def LIBEWF_RANGE_FLAG_HAS_CHECKSUM_def
  LIBEWF_RANGE_FLAG_USES_PATTERN_FILL_def LIBEWF_RANGE_FLAG_IS_TAINTED_def
  LIBEWF_RANGE_FLAG_IS_CORRUPTED_def LIBEWF_CHUNK_DATA_FLAG_IS_COMPRESSED_def
  LIBEWF_CHUNK_DATA_FLAG_HAS_CHECKSUM_def LIBEWF_CHUNK_DATA_FLAG_USES_PATTERN_FILL_def

lemmas v1_defs = v1_decode_current_def v1_decode_next_def v1_chunk_data_size_def
  v1_overflow_check_def v1_last_chunk_data_offset_def v1_last_chunk_data_size_def
  v1_last_chunk_corrupted_def INT32_MAX_def INT64_MAX_def SSIZE_MAX_def

lemmas fill_v1_defs = libewf_chunk_group_fill_v1_def fill_v1_vars_init_def fill_v1_loop.simps
  fill_v1_loop_body_def fill_v1_last_def fill_v1_append_def fill_v1_range_flags_def

lemmas fill_v2_defs = libewf_chunk_group_fill_v2_def fill_v2_loop.simps fill_v2_loop_body_def
  fill_v2_append_def fill_v2_pattern_fill_def fill_v2_range_flags_def

lemmas correct_v1_defs = libewf_chunk_group_correct_v1_def correct_v1_vars_init_def
  correct_v1_loop.simps correct_v1_loop_body_def correct_v1_last_def
  correct_v1_compare_and_set_def correct_v1_get_previous_def correct_v1_mismatch_def
  correct_v1_update_data_range_def correct_v1_set_element_def correct_v1_range_flags_def

lemmas generate_defs = libewf_chunk_group_generate_table_entries_data_def generate_loop.simps
  generate_loop_body_def generate_get_element_def generate_table_entry_v1_def
  generate_table_entry_v2_def

section \<open>The test of the last chunk offset against INT64\_MAX\<close>

text \<open>
  \<^verbatim>\<open>last_chunk_data_offset\<close> is an \<^verbatim>\<open>off64_t\<close>, so the test
  \<^verbatim>\<open>last_chunk_data_offset > (off64_t) INT64_MAX\<close> of lines 351 and 1117 is false for
  every value of the variable.
\<close>

lemma INT64_MAX_not_sless: "\<not> INT64_MAX <s (x :: off64_t)"
  using sint_lt [of x] by (simp add: word_sless_alt INT64_MAX_def)

text \<open>
  C5.  The claim: when \<open>base_offset + current\<close>, as an exact integer, exceeds
  \<^verbatim>\<open>INT64_MAX\<close>, fill and correct fail with the error "value exceeds maximum".  The
  code adds in \<^verbatim>\<open>off64_t\<close> and tests the sum afterwards.  With the base offset
  \<^verbatim>\<open>INT64_MAX\<close> and one table entry that stores the offset 1 the exact sum is
  \<open>2 ^ 63\<close>; the sum of the code is the least \<^verbatim>\<open>off64_t\<close>, the test does not fire,
  and both functions return 1: fill appends an element at that negative offset, correct
  leaves the list as it is.
\<close>

theorem C5_last_chunk_offset_overflow_undetected:
  "libewf_chunk_group_fill_v1 (Some []) 0x10000 0
       (Some \<lparr>start_offset = 0, end_offset = 0x100, section_size = 0\<rparr>)
       0x7fffffffffffffff 1 (Some [1, 0, 0, 0]) 0 =
     Inr [\<lparr>element_file_index = 0, element_offset = 0x8000000000000000,
           element_size = 0x8000000000000000, element_flags = 0x1100,
           mapped_offset = 0, mapped_size = 0x10000\<rparr>]
   \<and> libewf_chunk_group_correct_v1
       (Some [\<lparr>element_file_index = 0, element_offset = 0, element_size = 0,
               element_flags = 0, mapped_offset = 0, mapped_size = 0x10000\<rparr>]) 0x10000 0
       (Some \<lparr>start_offset = 0, end_offset = 0x100, section_size = 0\<rparr>)
       0x7fffffffffffffff 1 (Some [1, 0, 0, 0]) 0 =
     Inr [\<lparr>element_file_index = 0, element_offset = 0, element_size = 0,
           element_flags = 0, mapped_offset = 0, mapped_size = 0x10000\<rparr>]"
proof
  show "libewf_chunk_group_fill_v1 (Some []) 0x10000 0
       (Some \<lparr>start_offset = 0, end_offset = 0x100, section_size = 0\<rparr>)
       0x7fffffffffffffff 1 (Some [1, 0, 0, 0]) 0 =
     Inr [\<lparr>element_file_index = 0, element_offset = 0x8000000000000000,
           element_size = 0x8000000000000000, element_flags = 0x1100,
           mapped_offset = 0, mapped_size = 0x10000\<rparr>]"
    by (simp add: fill_v1_defs v1_defs codec_defs list_defs flag_defs Let_def
        word_sless_alt word_sle_eq)
  show "libewf_chunk_group_correct_v1
       (Some [\<lparr>element_file_index = 0, element_offset = 0, element_size = 0,
               element_flags = 0, mapped_offset = 0, mapped_size = 0x10000\<rparr>]) 0x10000 0
       (Some \<lparr>start_offset = 0, end_offset = 0x100, section_size = 0\<rparr>)
       0x7fffffffffffffff 1 (Some [1, 0, 0, 0]) 0 =
     Inr [\<lparr>element_file_index = 0, element_offset = 0, element_size = 0,
           element_flags = 0, mapped_offset = 0, mapped_size = 0x10000\<rparr>]"
    by (simp add: correct_v1_defs v1_defs codec_defs list_defs flag_defs Let_def
        word_sless_alt word_sle_eq)
qed

section \<open>The blocks of the version 1 functions as single assignments\<close>

text \<open>
  What a block of the source computes, as functions of the values it reads: the current
  and the next offset under the overflow regime, the compression bit, the size of the
  chunk, the corruption tests and the overflow latch.  Each block of the model is then one
  record update, and one pass through the loop of fill is the function \<open>fill_v1_step\<close> of
  the next stored offset.
\<close>

definition v1_current :: "uint8_t \<Rightarrow> uint32_t \<Rightarrow> uint32_t" where
  "v1_current ov st = (if ov = 0 then st AND 0x7fffffff else st)"

definition v1_compressed :: "uint8_t \<Rightarrow> uint8_t \<Rightarrow> uint32_t \<Rightarrow> uint8_t" where
  "v1_compressed ov ic st = (if ov = 0 then ucast (drop_bit 31 st) else ic)"

definition v1_size :: "uint32_t \<Rightarrow> uint32_t \<Rightarrow> uint32_t \<Rightarrow> uint32_t" where
  "v1_size c n st = (if n < c then st - c else n - c)"

definition v1_corrupted :: "uint32_t \<Rightarrow> uint32_t \<Rightarrow> uint32_t \<Rightarrow> uint8_t" where
  "v1_corrupted c n st =
     (if (n < c \<and> st < c) \<or> v1_size c n st = 0 \<or> v1_size c n st > INT32_MAX then 1 else 0)"

definition v1_latch :: "uint8_t \<Rightarrow> uint32_t \<Rightarrow> uint32_t \<Rightarrow> bool" where
  "v1_latch ov c sz = (ov = 0 \<and> c + sz > INT32_MAX)"

definition fill_v1_flags :: "uint8_t \<Rightarrow> uint8_t \<Rightarrow> uint8_t \<Rightarrow> uint32_t" where
  "fill_v1_flags ic co t =
     ((if ic \<noteq> 0 then LIBEWF_RANGE_FLAG_IS_COMPRESSED else LIBEWF_RANGE_FLAG_HAS_CHECKSUM)
     OR (if co \<noteq> 0 then LIBEWF_RANGE_FLAG_IS_CORRUPTED else 0))
     OR (if t \<noteq> 0 then LIBEWF_RANGE_FLAG_IS_TAINTED else 0)"

lemma v1_decode_current_eq:
  "v1_decode_current s =
     s\<lparr>is_compressed := v1_compressed (overflow s) (is_compressed s) (stored_offset s),
       current_offset := v1_current (overflow s) (stored_offset s)\<rparr>"
  by (simp add: v1_decode_current_def v1_compressed_def v1_current_def)

lemma v1_decode_next_eq:
  "v1_decode_next s = s\<lparr>next_offset := v1_current (overflow s) (stored_offset s)\<rparr>"
  by (simp add: v1_decode_next_def v1_current_def)

lemma v1_chunk_data_size_eq:
  "v1_chunk_data_size s =
     s\<lparr>corrupted := v1_corrupted (current_offset s) (next_offset s) (stored_offset s),
       chunk_data_size := v1_size (current_offset s) (next_offset s) (stored_offset s)\<rparr>"
  by (simp add: v1_chunk_data_size_def v1_corrupted_def v1_size_def Let_def)

lemma v1_overflow_check_eq:
  "v1_overflow_check s =
     s\<lparr>overflow := (if v1_latch (overflow s) (current_offset s) (chunk_data_size s)
                     then 1 else overflow s),
       is_compressed := (if v1_latch (overflow s) (current_offset s) (chunk_data_size s)
                     then 0 else is_compressed s)\<rparr>"
  by (simp add: v1_overflow_check_def v1_latch_def)

lemma fill_v1_range_flags_eq:
  "fill_v1_range_flags t s = s\<lparr>range_flags := fill_v1_flags (is_compressed s) (corrupted s) t\<rparr>"
  by (simp add: fill_v1_range_flags_def fill_v1_flags_def Let_def)

lemma fill_v1_append_eq:
  "fill_v1_append cs pool off sz s =
     Inr (s\<lparr>chunks_list := chunks_list s @
                [\<lparr>element_file_index = pool, element_offset = off, element_size = sz,
                  element_flags = range_flags s, mapped_offset = storage_media_offset s,
                  mapped_size = ucast cs\<rparr>],
            storage_media_offset := storage_media_offset s + ucast cs,
            element_index := int (length (chunks_list s))\<rparr>)"
  by (simp add: fill_v1_append_def libfdata_list_append_element_def
      libfdata_list_set_mapped_range_by_index_def)



definition v1_last_size :: "libewf_section_t \<Rightarrow> off64_t \<Rightarrow> off64_t \<Rightarrow> off64_t" where
  "v1_last_size sec lo old =
     (if lo <s start_offset sec then start_offset sec - lo
      else if lo <s end_offset sec then end_offset sec - lo else old)"

definition v1_last_corrupted :: "uint8_t \<Rightarrow> off64_t \<Rightarrow> uint8_t" where
  "v1_last_corrupted co lsz = (if lsz \<le>s 0 \<or> ucast INT32_MAX <s lsz then 1 else co)"

lemma v1_last_chunk_data_size_eq:
  "v1_last_chunk_data_size sec s =
     s\<lparr>last_chunk_data_size :=
         v1_last_size sec (last_chunk_data_offset s) (last_chunk_data_size s)\<rparr>"
  by (simp add: v1_last_chunk_data_size_def v1_last_size_def)

lemma v1_last_chunk_corrupted_eq:
  "v1_last_chunk_corrupted s =
     s\<lparr>corrupted := v1_last_corrupted (corrupted s) (last_chunk_data_size s)\<rparr>"
  by (simp add: v1_last_chunk_corrupted_def v1_last_corrupted_def Let_def)

definition fill_v1_step ::
  "size32_t \<Rightarrow> c_int \<Rightarrow> off64_t \<Rightarrow> uint8_t \<Rightarrow> uint32_t \<Rightarrow> fill_v1_vars \<Rightarrow> fill_v1_vars" where
  "fill_v1_step cs pool base t v s =
     (let c = v1_current (overflow s) (stored_offset s);
          n = v1_current (overflow s) v;
          ic = v1_compressed (overflow s) (is_compressed s) (stored_offset s);
          sz = v1_size c n v;
          co = v1_corrupted c n v;
          fl = fill_v1_flags ic co t
      in s\<lparr>chunks_list := chunks_list s @
                [\<lparr>element_file_index = pool, element_offset = base + ucast c,
                  element_size = ucast sz, element_flags = fl,
                  mapped_offset = storage_media_offset s, mapped_size = ucast cs\<rparr>],
             chunk_data_size := sz, current_offset := c, next_offset := n,
             range_flags := fl, stored_offset := v,
             table_entry_index := table_entry_index s + 1,
             corrupted := co,
             is_compressed := (if v1_latch (overflow s) c sz then 0 else ic),
             overflow := (if v1_latch (overflow s) c sz then 1 else overflow s),
             storage_media_offset := storage_media_offset s + ucast cs,
             element_index := int (length (chunks_list s))\<rparr>)"

lemma fill_v1_loop_body_eq:
  "fill_v1_loop_body cs pool base d t s =
     (case table_entry_v1_chunk_data_offset d (table_entry_index s + 1) of
        Inl e \<Rightarrow> Inl e
      | Inr v \<Rightarrow> Inr (fill_v1_step cs pool base t v s))"
  by (simp add: fill_v1_loop_body_def fill_v1_step_def Let_def v1_decode_current_eq
      v1_decode_next_eq v1_chunk_data_size_eq v1_overflow_check_eq fill_v1_range_flags_eq
      fill_v1_append_eq split: sum.split)

definition fill_v1_last_step ::
  "size32_t \<Rightarrow> c_int \<Rightarrow> libewf_section_t \<Rightarrow> off64_t \<Rightarrow> uint8_t \<Rightarrow> uint32_t \<Rightarrow> fill_v1_vars
     \<Rightarrow> fill_v1_vars" where
  "fill_v1_last_step cs pool sec base t v s =
     (let c = v1_current (overflow s) v;
          ic = v1_compressed (overflow s) (is_compressed s) v;
          lo = base + ucast c;
          lsz = v1_last_size sec lo (last_chunk_data_size s);
          co = v1_last_corrupted 0 lsz;
          fl = fill_v1_flags ic co t
      in s\<lparr>chunks_list := chunks_list s @
                [\<lparr>element_file_index = pool, element_offset = lo,
                  element_size = lsz, element_flags = fl,
                  mapped_offset = storage_media_offset s, mapped_size = ucast cs\<rparr>],
             last_chunk_data_offset := lo, last_chunk_data_size := lsz,
             current_offset := c, range_flags := fl, stored_offset := v,
             corrupted := co, is_compressed := ic,
             storage_media_offset := storage_media_offset s + ucast cs,
             element_index := int (length (chunks_list s))\<rparr>)"

lemma fill_v1_last_eq:
  "fill_v1_last cs pool sec base d t s =
     (case table_entry_v1_chunk_data_offset d (table_entry_index s) of
        Inl e \<Rightarrow> Inl e
      | Inr v \<Rightarrow> Inr (fill_v1_last_step cs pool sec base t v s))"
  by (simp add: fill_v1_last_def fill_v1_last_step_def Let_def v1_decode_current_eq
      v1_last_chunk_data_offset_def v1_last_chunk_data_size_eq v1_last_chunk_corrupted_eq
      fill_v1_range_flags_eq fill_v1_append_eq INT64_MAX_not_sless split: sum.split)


section \<open>The loop of fill\<close>

text \<open>
  A table entry is read inside the buffer or not at all; the loop keeps every invariant
  that one pass keeps; and the loop returns when every entry up to the last one can be
  read.
\<close>

lemma table_entry_v1_in_bounds:
  "4 * unat i + 4 \<le> length d \<Longrightarrow> \<exists>v. table_entry_v1_chunk_data_offset d i = Inr v"
  by (simp add: table_entry_v1_chunk_data_offset_def byte_stream_copy_to_uint32_little_endian_def
      sizeof_ewf_table_entry_v1_t_def)

lemma table_entry_v1_error:
  "table_entry_v1_chunk_data_offset d i = Inl e \<Longrightarrow>
   e = OUT_OF_BOUNDS_ACCESS \<and> length d < 4 * unat i + 4"
  by (auto simp: table_entry_v1_chunk_data_offset_def
      byte_stream_copy_to_uint32_little_endian_def sizeof_ewf_table_entry_v1_t_def
      split: if_splits)

lemma uint32_less_inc:
  fixes i n :: uint32_t
  assumes "i < n"
  shows "i + 1 \<le> n" and "i < i + 1"
  using assms uint32_less_Suc [OF assms]
  by (simp_all add: word_less_nat_alt word_le_nat_alt)

lemma fill_v1_loop_invariant:
  assumes "fill_v1_loop cs pool base n d t s = Inr s'"
    and "I s"
    and "\<And>s v. I s \<Longrightarrow> table_entry_index s < n - 1 \<Longrightarrow>
           table_entry_v1_chunk_data_offset d (table_entry_index s + 1) = Inr v \<Longrightarrow>
           I (fill_v1_step cs pool base t v s)"
  shows "I s' \<and> \<not> table_entry_index s' < n - 1"
  using assms
proof (induction cs pool base n d t s rule: fill_v1_loop.induct)
  case (1 cs pool base n d t s)
  show ?case
  proof (cases "table_entry_index s < n - 1")
    case True
    obtain v where v: "table_entry_v1_chunk_data_offset d (table_entry_index s + 1) = Inr v"
      and body: "fill_v1_loop_body cs pool base d t s = Inr (fill_v1_step cs pool base t v s)"
      and rest: "fill_v1_loop cs pool base n d t (fill_v1_step cs pool base t v s) = Inr s'"
      using "1.prems"(1) True
      by (subst (asm) fill_v1_loop.simps) (auto simp: fill_v1_loop_body_eq split: sum.splits)
    have "I (fill_v1_step cs pool base t v s)"
      using "1.prems"(3) [OF "1.prems"(2) True v] .
    then show ?thesis
      using "1.IH" [OF True body rest] "1.prems"(3) by blast
  next
    case False
    then have "s' = s"
      using "1.prems"(1) by (subst (asm) fill_v1_loop.simps) simp
    then show ?thesis using False "1.prems"(2) by simp
  qed
qed

lemma fill_v1_step_index [simp]:
  "table_entry_index (fill_v1_step cs pool base t v s) = table_entry_index s + 1"
  by (simp add: fill_v1_step_def Let_def)

lemma fill_v1_loop_total:
  assumes "\<And>i. table_entry_index s < i \<Longrightarrow> i \<le> n - 1 \<Longrightarrow>
             \<exists>v. table_entry_v1_chunk_data_offset d i = Inr v"
  shows "\<exists>s'. fill_v1_loop cs pool base n d t s = Inr s'"
  using assms
proof (induction cs pool base n d t s rule: fill_v1_loop.induct)
  case (1 cs pool base n d t s)
  show ?case
  proof (cases "table_entry_index s < n - 1")
    case True
    note inc = uint32_less_inc [OF True]
    obtain v where v: "table_entry_v1_chunk_data_offset d (table_entry_index s + 1) = Inr v"
      using "1.prems" [OF inc(2) inc(1)] by blast
    have body: "fill_v1_loop_body cs pool base d t s = Inr (fill_v1_step cs pool base t v s)"
      by (simp add: fill_v1_loop_body_eq v)
    have "\<exists>s'. fill_v1_loop cs pool base n d t (fill_v1_step cs pool base t v s) = Inr s'"
    proof (rule "1.IH" [OF True body])
      fix i
      assume "table_entry_index (fill_v1_step cs pool base t v s) < i" and le: "i \<le> n - 1"
      then have "table_entry_index s < i" using inc(2) by simp
      then show "\<exists>v. table_entry_v1_chunk_data_offset d i = Inr v"
        using "1.prems" le by blast
    qed
    then show ?thesis
      using True body by (subst fill_v1_loop.simps) simp
  next
    case False
    then show ?thesis by (subst fill_v1_loop.simps) simp
  qed
qed


section \<open>The reads of fill stay inside the buffer, or do not\<close>

lemma fill_v1_loop_out_of_bounds:
  assumes "table_entry_index s < i" and "i \<le> n - 1"
    and "table_entry_v1_chunk_data_offset d i = Inl OUT_OF_BOUNDS_ACCESS"
  shows "fill_v1_loop cs pool base n d t s = Inl OUT_OF_BOUNDS_ACCESS"
  using assms
proof (induction cs pool base n d t s rule: fill_v1_loop.induct)
  case (1 cs pool base n d t s)
  have lt: "table_entry_index s < n - 1"
    using "1.prems"(1,2) by simp
  note inc = uint32_less_inc [OF "1.prems"(1)]
  show ?case
  proof (cases "table_entry_v1_chunk_data_offset d (table_entry_index s + 1)")
    case (Inl e)
    then have "e = OUT_OF_BOUNDS_ACCESS" using table_entry_v1_error by blast
    then show ?thesis
      using lt Inl by (subst fill_v1_loop.simps) (simp add: fill_v1_loop_body_eq)
  next
    case (Inr v)
    have body: "fill_v1_loop_body cs pool base d t s = Inr (fill_v1_step cs pool base t v s)"
      by (simp add: fill_v1_loop_body_eq Inr)
    have "table_entry_index s + 1 \<noteq> i"
      using Inr "1.prems"(3) by auto
    then have "table_entry_index (fill_v1_step cs pool base t v s) < i"
      using inc(1) by simp
    then have "fill_v1_loop cs pool base n d t (fill_v1_step cs pool base t v s)
        = Inl OUT_OF_BOUNDS_ACCESS"
      using "1.IH" [OF lt body] "1.prems"(2,3) by blast
    then show ?thesis
      using lt body by (subst fill_v1_loop.simps) simp
  qed
qed

lemma fill_v1_unfold:
  assumes "\<not> base <s 0" and "length d \<le> SSIZE_MAX"
  shows "libewf_chunk_group_fill_v1 (Some cl) cs pool (Some sec) base n (Some d) t =
     (case table_entry_v1_chunk_data_offset d 0 of
        Inl e \<Rightarrow> Inl e
      | Inr v \<Rightarrow>
          (case fill_v1_loop cs pool base n d t ((fill_v1_vars_init cl)\<lparr>stored_offset := v\<rparr>) of
             Inl e \<Rightarrow> Inl e
           | Inr s \<Rightarrow>
               (case fill_v1_last cs pool sec base d t s of
                  Inl e \<Rightarrow> Inl e
                | Inr s \<Rightarrow> Inr (chunks_list s))))"
proof -
  have "table_entry_index (fill_v1_vars_init cl) = 0"
    by (simp add: fill_v1_vars_init_def)
  then show ?thesis
    using assms by (simp add: libewf_chunk_group_fill_v1_def Let_def)
qed

lemma fill_v1_not_out_of_bounds:
  assumes "1 \<le> unat n" and "4 * unat n \<le> length d"
  shows "libewf_chunk_group_fill_v1 clp cs pool secp base n (Some d) t
           \<noteq> Inl OUT_OF_BOUNDS_ACCESS"
proof (cases "clp = None \<or> secp = None \<or> base <s 0 \<or> length d > SSIZE_MAX")
  case True
  then show ?thesis
    by (auto simp: libewf_chunk_group_fill_v1_def split: option.splits)
next
  case False
  then obtain cl sec where clp: "clp = Some cl" and secp: "secp = Some sec"
    and base: "\<not> base <s 0" and len: "length d \<le> SSIZE_MAX"
    by auto
  have "n \<noteq> 0" using assms(1) by auto
  then have n1: "unat (n - 1) = unat n - 1"
    by (rule unat_minus_one)
  have rd: "\<exists>v. table_entry_v1_chunk_data_offset d i = Inr v" if "i \<le> n - 1" for i
  proof (rule table_entry_v1_in_bounds)
    have "unat i \<le> unat n - 1" using that n1 by (simp add: word_le_nat_alt)
    then show "4 * unat i + 4 \<le> length d" using assms by simp
  qed
  obtain v where v: "table_entry_v1_chunk_data_offset d 0 = Inr v"
    using rd [of 0] by auto
  define s0 where "s0 = (fill_v1_vars_init cl)\<lparr>stored_offset := v\<rparr>"
  obtain s1 where s1: "fill_v1_loop cs pool base n d t s0 = Inr s1"
    using fill_v1_loop_total [of s0 n d cs pool base t] rd by blast
  have "table_entry_index s1 \<le> n - 1 \<and> \<not> table_entry_index s1 < n - 1"
  proof (rule fill_v1_loop_invariant [OF s1])
    show "table_entry_index s0 \<le> n - 1" by (simp add: s0_def fill_v1_vars_init_def)
  next
    fix s :: fill_v1_vars and v
    assume "table_entry_index s < n - 1"
    then show "table_entry_index (fill_v1_step cs pool base t v s) \<le> n - 1"
      using uint32_less_inc(1) by simp
  qed
  then obtain v' where v': "table_entry_v1_chunk_data_offset d (table_entry_index s1) = Inr v'"
    using rd by blast
  show ?thesis
    using v s1 v' by (simp add: clp secp fill_v1_unfold [OF base len] s0_def fill_v1_last_eq)
qed

lemma fill_v1_no_entries_out_of_bounds:
  assumes "\<not> base <s 0" and "length d < 2 ^ 34"
  shows "libewf_chunk_group_fill_v1 (Some cl) cs pool (Some sec) base 0 (Some d) t
           = Inl OUT_OF_BOUNDS_ACCESS"
proof -
  have len: "length d \<le> SSIZE_MAX" using assms(2) by (simp add: SSIZE_MAX_def)
  have last: "table_entry_v1_chunk_data_offset d 0xffffffff = Inl OUT_OF_BOUNDS_ACCESS"
    using assms(2)
    by (simp add: table_entry_v1_chunk_data_offset_def
        byte_stream_copy_to_uint32_little_endian_def sizeof_ewf_table_entry_v1_t_def)
  show ?thesis
  proof (cases "table_entry_v1_chunk_data_offset d 0")
    case (Inl e)
    then show ?thesis
      using table_entry_v1_error [OF Inl] by (simp add: fill_v1_unfold [OF assms(1) len])
  next
    case (Inr v)
    have "fill_v1_loop cs pool base 0 d t ((fill_v1_vars_init cl)\<lparr>stored_offset := v\<rparr>)
        = Inl OUT_OF_BOUNDS_ACCESS"
    proof (rule fill_v1_loop_out_of_bounds [OF _ _ last])
      show "table_entry_index ((fill_v1_vars_init cl)\<lparr>stored_offset := v\<rparr>) < 0xffffffff"
        by (simp add: fill_v1_vars_init_def)
      show "(0xffffffff :: uint32_t) \<le> 0 - 1" by simp
    qed
    then show ?thesis
      using Inr by (simp add: fill_v1_unfold [OF assms(1) len])
  qed
qed


text \<open>
  C10.  \<open>libewf_chunk_group_fill_v1\<close> does not compare the size of the buffer with the
  number of entries.  With at least one entry and a buffer of at least four bytes for
  each entry, no read leaves the buffer: the function does not end in the out-of-bounds
  branch.  With no entry, the bound \<^verbatim>\<open>number_of_entries - 1\<close> of the loop wraps to
  \<open>2 ^ 32 - 1\<close>, and the function leaves every buffer of less than \<open>2 ^ 34\<close> bytes.  A
  buffer of one entry with two entries announced is left as well, not refused.
\<close>

theorem C10_fill_v1_reads_and_buffer_size:
  "(1 \<le> unat n \<and> 4 * unat n \<le> length d \<longrightarrow>
      libewf_chunk_group_fill_v1 clp cs pool secp base n (Some d) t
        \<noteq> Inl OUT_OF_BOUNDS_ACCESS)
   \<and> (0 :: uint32_t) - 1 = 0xffffffff
   \<and> (\<not> base <s 0 \<and> length d < 2 ^ 34 \<longrightarrow>
      libewf_chunk_group_fill_v1 (Some cl) cs pool (Some sec) base 0 (Some d) t
        = Inl OUT_OF_BOUNDS_ACCESS)
   \<and> libewf_chunk_group_fill_v1 (Some []) 0x10000 0
        (Some \<lparr>start_offset = 0, end_offset = 0x100, section_size = 0\<rparr>) 0 2
        (Some [0x10, 0, 0, 0]) 0 = Inl OUT_OF_BOUNDS_ACCESS"
proof (intro conjI impI)
  assume "1 \<le> unat n \<and> 4 * unat n \<le> length d"
  then show "libewf_chunk_group_fill_v1 clp cs pool secp base n (Some d) t
      \<noteq> Inl OUT_OF_BOUNDS_ACCESS"
    using fill_v1_not_out_of_bounds by blast
next
  show "(0 :: uint32_t) - 1 = 0xffffffff" by simp
next
  assume "\<not> base <s 0 \<and> length d < 2 ^ 34"
  then show "libewf_chunk_group_fill_v1 (Some cl) cs pool (Some sec) base 0 (Some d) t
      = Inl OUT_OF_BOUNDS_ACCESS"
    using fill_v1_no_entries_out_of_bounds by blast
next
  show "libewf_chunk_group_fill_v1 (Some []) 0x10000 0
        (Some \<lparr>start_offset = 0, end_offset = 0x100, section_size = 0\<rparr>) 0 2
        (Some [0x10, 0, 0, 0]) 0 = Inl OUT_OF_BOUNDS_ACCESS"
    by (simp add: fill_v1_defs v1_defs codec_defs list_defs flag_defs Let_def)
qed

theorem C10_fill_v1_reads_and_buffer_size_witness:
  "1 \<le> unat (1 :: uint32_t) \<and> 4 * unat (1 :: uint32_t) \<le> length [0x10, 0, 0, 0 :: uint8_t]
   \<and> libewf_chunk_group_fill_v1 (Some []) 0x10000 0
        (Some \<lparr>start_offset = 0, end_offset = 0x100, section_size = 0\<rparr>) 0 1
        (Some [0x10, 0, 0, 0]) 0 \<noteq> Inl OUT_OF_BOUNDS_ACCESS
   \<and> \<not> (0 :: off64_t) <s 0 \<and> length [0x10, 0, 0, 0 :: uint8_t] < 2 ^ 34
   \<and> libewf_chunk_group_fill_v1 (Some []) 0x10000 0
        (Some \<lparr>start_offset = 0, end_offset = 0x100, section_size = 0\<rparr>) 0 0
        (Some [0x10, 0, 0, 0]) 0 = Inl OUT_OF_BOUNDS_ACCESS"
  using C10_fill_v1_reads_and_buffer_size [where n = 1 and d = "[0x10, 0, 0, 0]"
      and clp = "Some []" and cl = "[]" and cs = "0x10000" and pool = 0 and base = 0 and t = 0
      and secp = "Some \<lparr>start_offset = 0, end_offset = 0x100, section_size = 0\<rparr>"
      and sec = "\<lparr>start_offset = 0, end_offset = 0x100, section_size = 0\<rparr>"]
  by simp

section \<open>The elements that fill appends\<close>

text \<open>
  An element is decoded from the stored offset \<open>st\<close> of a table entry when its offset
  and its compression flag are those of one of the two regimes: the low 31 bits as the
  offset and bit 31 as the flag before the overflow, all 32 bits as the offset and no
  flag after it.
\<close>

definition v1_element_of_entry :: "off64_t \<Rightarrow> uint32_t \<Rightarrow> list_element \<Rightarrow> bool" where
  "v1_element_of_entry base st e =
     ((element_offset e = base + ucast (st AND 0x7fffffff) \<and>
       (element_flags e AND LIBEWF_RANGE_FLAG_IS_COMPRESSED \<noteq> 0) = bit st 31)
      \<or> (element_offset e = base + ucast st \<and>
          element_flags e AND LIBEWF_RANGE_FLAG_IS_COMPRESSED = 0))"

definition one_of_compressed_and_checksum :: "uint32_t \<Rightarrow> bool" where
  "one_of_compressed_and_checksum fl =
     ((fl AND LIBEWF_RANGE_FLAG_IS_COMPRESSED \<noteq> 0) \<noteq> (fl AND LIBEWF_RANGE_FLAG_HAS_CHECKSUM \<noteq> 0))"

lemma fill_v1_flags_compressed:
  "fill_v1_flags ic co t AND LIBEWF_RANGE_FLAG_IS_COMPRESSED =
     (if ic \<noteq> 0 then LIBEWF_RANGE_FLAG_IS_COMPRESSED else 0)"
  by (simp add: fill_v1_flags_def flag_defs)

lemma fill_v1_flags_checksum:
  "fill_v1_flags ic co t AND LIBEWF_RANGE_FLAG_HAS_CHECKSUM =
     (if ic \<noteq> 0 then 0 else LIBEWF_RANGE_FLAG_HAS_CHECKSUM)"
  by (simp add: fill_v1_flags_def flag_defs)

lemma fill_v1_flags_one: "one_of_compressed_and_checksum (fill_v1_flags ic co t)"
  by (simp add: one_of_compressed_and_checksum_def fill_v1_flags_compressed
      fill_v1_flags_checksum) (simp add: flag_defs)

lemma is_compressed_bit:
  "((ucast (drop_bit 31 (st :: uint32_t)) :: uint8_t) = 0) = (\<not> bit st 31)"
proof -
  have n0: "bit st (31 + n) = (n = 0 \<and> bit st 31)" for n
    using bit_imp_le_length [of st "31 + n"] by (cases "n = 0") auto
  have "(ucast (drop_bit 31 st) :: uint8_t) = (if bit st 31 then 1 else 0)"
    by (rule bit_word_eqI) (auto simp: bit_simps n0)
  then show ?thesis by simp
qed

lemma v1_element_of_entry_step:
  assumes "ov \<noteq> 0 \<longrightarrow> ic = 0"
  shows "v1_element_of_entry base st
     \<lparr>element_file_index = pool, element_offset = base + ucast (v1_current ov st),
      element_size = sz,
      element_flags = fill_v1_flags (v1_compressed ov ic st) co t,
      mapped_offset = m, mapped_size = ms\<rparr>"
proof -
  have "LIBEWF_RANGE_FLAG_IS_COMPRESSED \<noteq> 0"
    by (simp add: LIBEWF_RANGE_FLAG_IS_COMPRESSED_def)
  then show ?thesis
    using assms
    by (auto simp: v1_element_of_entry_def v1_current_def v1_compressed_def
        fill_v1_flags_compressed is_compressed_bit)
qed


definition fill_v1_entry_ok ::
  "size32_t \<Rightarrow> off64_t \<Rightarrow> uint8_t list \<Rightarrow> nat \<Rightarrow> list_element \<Rightarrow> bool" where
  "fill_v1_entry_ok cs base d k e =
     ((\<exists>st. table_entry_v1_chunk_data_offset d (of_nat k) = Inr st
            \<and> v1_element_of_entry base st e)
      \<and> mapped_offset e = of_nat k * ucast cs \<and> mapped_size e = ucast cs
      \<and> one_of_compressed_and_checksum (element_flags e))"

definition fill_v1_inv ::
  "size32_t \<Rightarrow> off64_t \<Rightarrow> uint32_t \<Rightarrow> uint8_t list \<Rightarrow> libfdata_list_t \<Rightarrow> fill_v1_vars \<Rightarrow> bool" where
  "fill_v1_inv cs base n d cl s =
     (table_entry_index s \<le> n - 1
      \<and> table_entry_v1_chunk_data_offset d (table_entry_index s) = Inr (stored_offset s)
      \<and> (overflow s \<noteq> 0 \<longrightarrow> is_compressed s = 0)
      \<and> storage_media_offset s = of_nat (unat (table_entry_index s)) * ucast cs
      \<and> length (chunks_list s) = length cl + unat (table_entry_index s)
      \<and> take (length cl) (chunks_list s) = cl
      \<and> (\<forall>k < unat (table_entry_index s).
            fill_v1_entry_ok cs base d k (chunks_list s ! (length cl + k))))"

lemma fill_v1_step_chunks_list:
  "chunks_list (fill_v1_step cs pool base t v s) = chunks_list s @
     [\<lparr>element_file_index = pool,
       element_offset = base + ucast (v1_current (overflow s) (stored_offset s)),
       element_size = ucast (v1_size (v1_current (overflow s) (stored_offset s))
                        (v1_current (overflow s) v) v),
       element_flags = fill_v1_flags
         (v1_compressed (overflow s) (is_compressed s) (stored_offset s))
         (v1_corrupted (v1_current (overflow s) (stored_offset s)) (v1_current (overflow s) v) v)
         t,
       mapped_offset = storage_media_offset s, mapped_size = ucast cs\<rparr>]"
  by (simp add: fill_v1_step_def Let_def)

lemma fill_v1_step_stored_offset [simp]:
  "stored_offset (fill_v1_step cs pool base t v s) = v"
  by (simp add: fill_v1_step_def Let_def)

lemma fill_v1_step_storage_media_offset [simp]:
  "storage_media_offset (fill_v1_step cs pool base t v s) = storage_media_offset s + ucast cs"
  by (simp add: fill_v1_step_def Let_def)

lemma fill_v1_step_overflow:
  "overflow (fill_v1_step cs pool base t v s) =
     (if v1_latch (overflow s) (v1_current (overflow s) (stored_offset s))
           (v1_size (v1_current (overflow s) (stored_offset s)) (v1_current (overflow s) v) v)
      then 1 else overflow s)"
  by (simp add: fill_v1_step_def Let_def)

lemma fill_v1_step_is_compressed:
  "is_compressed (fill_v1_step cs pool base t v s) =
     (if v1_latch (overflow s) (v1_current (overflow s) (stored_offset s))
           (v1_size (v1_current (overflow s) (stored_offset s)) (v1_current (overflow s) v) v)
      then 0 else v1_compressed (overflow s) (is_compressed s) (stored_offset s))"
  by (simp add: fill_v1_step_def Let_def)

lemma fill_v1_step_latch_invariant:
  assumes "overflow s \<noteq> 0 \<longrightarrow> is_compressed s = 0"
  shows "overflow (fill_v1_step cs pool base t v s) \<noteq> 0 \<longrightarrow>
         is_compressed (fill_v1_step cs pool base t v s) = 0"
  using assms
  by (simp add: fill_v1_step_overflow fill_v1_step_is_compressed v1_compressed_def)

lemma fill_v1_inv_step:
  assumes inv: "fill_v1_inv cs base n d cl s"
    and lt: "table_entry_index s < n - 1"
    and v: "table_entry_v1_chunk_data_offset d (table_entry_index s + 1) = Inr v"
  shows "fill_v1_inv cs base n d cl (fill_v1_step cs pool base t v s)"
proof -
  let ?s' = "fill_v1_step cs pool base t v s"
  let ?i = "unat (table_entry_index s)"
  have suc: "unat (table_entry_index s + 1) = Suc ?i"
    using lt by (rule uint32_less_Suc)
  have rd: "table_entry_v1_chunk_data_offset d (table_entry_index s) = Inr (stored_offset s)"
    and latch: "overflow s \<noteq> 0 \<longrightarrow> is_compressed s = 0"
    and media: "storage_media_offset s = of_nat ?i * ucast cs"
    and len: "length (chunks_list s) = length cl + ?i"
    and tk: "take (length cl) (chunks_list s) = cl"
    and old: "\<And>k. k < ?i \<Longrightarrow> fill_v1_entry_ok cs base d k (chunks_list s ! (length cl + k))"
    using inv by (simp_all add: fill_v1_inv_def)
  obtain e where cl': "chunks_list ?s' = chunks_list s @ [e]"
    and e_of: "v1_element_of_entry base (stored_offset s) e"
    and e_off: "mapped_offset e = storage_media_offset s"
    and e_size: "mapped_size e = ucast cs"
    and e_one: "one_of_compressed_and_checksum (element_flags e)"
    using v1_element_of_entry_step [OF latch] fill_v1_flags_one
    by (simp add: fill_v1_step_chunks_list)
  have "table_entry_index ?s' \<le> n - 1"
    using uint32_less_inc(1) [OF lt] by simp
  moreover have "table_entry_v1_chunk_data_offset d (table_entry_index ?s') = Inr (stored_offset ?s')"
    using v by simp
  moreover have "overflow ?s' \<noteq> 0 \<longrightarrow> is_compressed ?s' = 0"
    using latch by (rule fill_v1_step_latch_invariant)
  moreover have "storage_media_offset ?s' = of_nat (unat (table_entry_index ?s')) * ucast cs"
  proof -
    have "unat (table_entry_index ?s') = Suc ?i"
      by (simp only: fill_v1_step_index suc)
    then have "(of_nat (unat (table_entry_index ?s')) :: off64_t) = 1 + of_nat ?i"
      by (simp only: of_nat_Suc)
    moreover have "storage_media_offset ?s' = of_nat ?i * ucast cs + ucast cs"
      by (simp only: fill_v1_step_storage_media_offset media)
    ultimately show ?thesis
      by (simp only: distrib_right mult_1_left add.commute)
  qed
  moreover have "length (chunks_list ?s') = length cl + unat (table_entry_index ?s')"
    by (simp add: cl' len suc)
  moreover have "take (length cl) (chunks_list ?s') = cl"
    using tk len by (simp add: cl')
  moreover have "fill_v1_entry_ok cs base d k (chunks_list ?s' ! (length cl + k))"
    if "k < unat (table_entry_index ?s')" for k
  proof (cases "k < ?i")
    case True
    then show ?thesis using old [OF True] len by (simp add: cl' nth_append)
  next
    case False
    then have k: "k = ?i" using that suc by simp
    have "chunks_list ?s' ! (length cl + k) = e"
      using len by (simp add: cl' k nth_append)
    moreover have "fill_v1_entry_ok cs base d k e"
      using rd e_of e_off e_size e_one media by (auto simp: fill_v1_entry_ok_def k)
    ultimately show ?thesis by simp
  qed
  ultimately show ?thesis
    unfolding fill_v1_inv_def by blast
qed


lemma fill_v1_last_step_chunks_list:
  "chunks_list (fill_v1_last_step cs pool sec base t v s) = chunks_list s @
     [\<lparr>element_file_index = pool,
       element_offset = base + ucast (v1_current (overflow s) v),
       element_size = v1_last_size sec (base + ucast (v1_current (overflow s) v))
                        (last_chunk_data_size s),
       element_flags = fill_v1_flags (v1_compressed (overflow s) (is_compressed s) v)
         (v1_last_corrupted 0 (v1_last_size sec (base + ucast (v1_current (overflow s) v))
                        (last_chunk_data_size s))) t,
       mapped_offset = storage_media_offset s, mapped_size = ucast cs\<rparr>]"
  by (simp add: fill_v1_last_step_def Let_def)

lemma fill_v1_success:
  assumes "libewf_chunk_group_fill_v1 (Some cl) cs pool secp base n (Some d) t = Inr cl'"
  obtains sec v s1 s2 where "secp = Some sec" and "\<not> base <s 0" and "length d \<le> SSIZE_MAX"
    and "table_entry_v1_chunk_data_offset d 0 = Inr v"
    and "fill_v1_loop cs pool base n d t ((fill_v1_vars_init cl)\<lparr>stored_offset := v\<rparr>) = Inr s1"
    and "fill_v1_last cs pool sec base d t s1 = Inr s2"
    and "cl' = chunks_list s2"
proof -
  obtain sec where sec: "secp = Some sec" and base: "\<not> base <s 0"
    and len: "length d \<le> SSIZE_MAX"
    using assms by (auto simp: libewf_chunk_group_fill_v1_def split: option.splits if_splits)
  show ?thesis
    using assms that [OF sec base len]
    by (auto simp: sec fill_v1_unfold [OF base len] split: sum.splits)
qed

lemma fill_v1_inv_init:
  assumes "table_entry_v1_chunk_data_offset d 0 = Inr v"
  shows "fill_v1_inv cs base n d cl ((fill_v1_vars_init cl)\<lparr>stored_offset := v\<rparr>)"
  using assms by (simp add: fill_v1_inv_def fill_v1_vars_init_def)

lemma fill_v1_result:
  assumes "libewf_chunk_group_fill_v1 (Some cl) cs pool secp base n (Some d) t = Inr cl'"
  shows "length cl' = length cl + unat (n - 1) + 1 \<and> take (length cl) cl' = cl
     \<and> (\<forall>k \<le> unat (n - 1). fill_v1_entry_ok cs base d k (cl' ! (length cl + k)))"
proof -
  obtain sec v s1 s2 where v: "table_entry_v1_chunk_data_offset d 0 = Inr v"
    and s1: "fill_v1_loop cs pool base n d t ((fill_v1_vars_init cl)\<lparr>stored_offset := v\<rparr>) = Inr s1"
    and s2: "fill_v1_last cs pool sec base d t s1 = Inr s2"
    and cl': "cl' = chunks_list s2"
    using assms by (rule fill_v1_success)
  have "fill_v1_inv cs base n d cl s1 \<and> \<not> table_entry_index s1 < n - 1"
    using s1 fill_v1_inv_init [OF v]
  proof (rule fill_v1_loop_invariant)
    fix s :: fill_v1_vars and v
    assume "fill_v1_inv cs base n d cl s" and "table_entry_index s < n - 1"
      and "table_entry_v1_chunk_data_offset d (table_entry_index s + 1) = Inr v"
    then show "fill_v1_inv cs base n d cl (fill_v1_step cs pool base t v s)"
      by (rule fill_v1_inv_step)
  qed
  then have inv: "fill_v1_inv cs base n d cl s1" and idx: "table_entry_index s1 = n - 1"
    by (auto simp: fill_v1_inv_def)
  let ?i = "unat (n - 1)"
  have rd: "table_entry_v1_chunk_data_offset d (n - 1) = Inr (stored_offset s1)"
    and latch: "overflow s1 \<noteq> 0 \<longrightarrow> is_compressed s1 = 0"
    and media: "storage_media_offset s1 = of_nat ?i * ucast cs"
    and len: "length (chunks_list s1) = length cl + ?i"
    and tk: "take (length cl) (chunks_list s1) = cl"
    and old: "\<And>k. k < ?i \<Longrightarrow> fill_v1_entry_ok cs base d k (chunks_list s1 ! (length cl + k))"
    using inv by (simp_all add: fill_v1_inv_def idx)
  have s2_eq: "s2 = fill_v1_last_step cs pool sec base t (stored_offset s1) s1"
    using s2 rd by (simp add: fill_v1_last_eq idx)
  obtain e where cl'': "cl' = chunks_list s1 @ [e]"
    and e_of: "v1_element_of_entry base (stored_offset s1) e"
    and e_off: "mapped_offset e = storage_media_offset s1"
    and e_size: "mapped_size e = ucast cs"
    and e_one: "one_of_compressed_and_checksum (element_flags e)"
    using v1_element_of_entry_step [OF latch] fill_v1_flags_one
    by (simp add: cl' s2_eq fill_v1_last_step_chunks_list)
  have "fill_v1_entry_ok cs base d k (cl' ! (length cl + k))" if "k \<le> ?i" for k
  proof (cases "k < ?i")
    case True
    then show ?thesis using old [OF True] len by (simp add: cl'' nth_append)
  next
    case False
    then have k: "k = ?i" using that by simp
    have "cl' ! (length cl + k) = e"
      using len by (simp add: cl'' k nth_append)
    moreover have "fill_v1_entry_ok cs base d k e"
      using rd e_of e_off e_size e_one media by (auto simp: fill_v1_entry_ok_def k)
    ultimately show ?thesis by simp
  qed
  then show ?thesis
    using len tk by (simp add: cl'')
qed


lemma fill_v1_total:
  assumes rd: "\<And>i. i \<le> n - 1 \<Longrightarrow> \<exists>v. table_entry_v1_chunk_data_offset d i = Inr v"
    and base: "\<not> base <s 0" and len: "length d \<le> SSIZE_MAX"
  shows "\<exists>cl'. libewf_chunk_group_fill_v1 (Some cl) cs pool (Some sec) base n (Some d) t = Inr cl'"
proof -
  obtain v where v: "table_entry_v1_chunk_data_offset d 0 = Inr v"
    using rd [of 0] by auto
  define s0 where "s0 = (fill_v1_vars_init cl)\<lparr>stored_offset := v\<rparr>"
  obtain s1 where s1: "fill_v1_loop cs pool base n d t s0 = Inr s1"
    using fill_v1_loop_total [of s0 n d cs pool base t] rd by blast
  have "table_entry_index s1 \<le> n - 1 \<and> \<not> table_entry_index s1 < n - 1"
  proof (rule fill_v1_loop_invariant [OF s1])
    show "table_entry_index s0 \<le> n - 1" by (simp add: s0_def fill_v1_vars_init_def)
  next
    fix s :: fill_v1_vars and v
    assume "table_entry_index s < n - 1"
    then show "table_entry_index (fill_v1_step cs pool base t v s) \<le> n - 1"
      using uint32_less_inc(1) by simp
  qed
  then obtain v' where v': "table_entry_v1_chunk_data_offset d (table_entry_index s1) = Inr v'"
    using rd by blast
  show ?thesis
    using v s1 v' by (simp add: fill_v1_unfold [OF base len] s0_def fill_v1_last_eq)
qed

lemma unat_uint32_bound: "unat (x :: uint32_t) < 2 ^ 32"
  using unsigned_less [of x, where 'a = nat] by simp

lemma unat_ucast_uint32: "unat (ucast (x :: uint32_t) :: uint64_t) = unat x"
  using unat_uint32_bound [of x] by (simp add: unsigned_ucast_eq take_bit_nat_eq_self)

lemma unat_uint32_minus_one: "unat (- 1 :: uint32_t) = 4294967295"
  by (simp add: unsigned_minus_1_eq_mask mask_eq_exp_minus_1)

lemma unat_mapped_offset:
  assumes "k < 2 ^ 32"
  shows "unat ((of_nat k :: off64_t) * ucast (cs :: size32_t)) = k * unat cs"
proof -
  have cs: "unat cs < 2 ^ 32" by (rule unat_uint32_bound)
  have "k * unat cs < 2 ^ 32 * 2 ^ 32"
    using assms cs by (intro mult_strict_mono) simp_all
  then have lt: "k * unat cs < 2 ^ 64" by simp
  have "unat (of_nat k :: off64_t) = k"
    using assms by (simp add: unat_of_nat)
  moreover have "unat (ucast cs :: off64_t) = unat cs"
    by (rule unat_ucast_uint32)
  ultimately show ?thesis
    using lt by (simp add: unat_word_ariths)
qed







section \<open>The blocks of correct as single assignments\<close>

text \<open>
  The comparison of correct: \<open>v1_mismatch\<close> is the chain of tests of lines 988-1031 on
  the offset, the size and the compression flag, and \<open>v1_update\<close> the decision of lines
  1032-1050.  One pass through the loop decodes the entry, compares it with the element
  \<open>el\<close> of the list at the table entry index, overwrites the element or not, and sets the
  overflow latch.
\<close>

definition correct_v1_flags :: "uint8_t \<Rightarrow> uint8_t \<Rightarrow> uint8_t \<Rightarrow> uint32_t" where
  "correct_v1_flags ic co t =
     ((LIBEWF_RANGE_FLAG_HAS_CHECKSUM
       OR (if ic \<noteq> 0 then LIBEWF_RANGE_FLAG_IS_COMPRESSED else 0))
      OR (if co \<noteq> 0 then LIBEWF_RANGE_FLAG_IS_CORRUPTED else 0))
     OR (if t \<noteq> 0 then LIBEWF_RANGE_FLAG_IS_TAINTED else 0)"

lemma correct_v1_range_flags_eq:
  "correct_v1_range_flags t s =
     s\<lparr>range_flags := correct_v1_flags (is_compressed s) (corrupted s) t\<rparr>"
  by (simp add: correct_v1_range_flags_def correct_v1_flags_def Let_def)

definition v1_mismatch :: "off64_t \<Rightarrow> size64_t \<Rightarrow> uint32_t \<Rightarrow> list_element \<Rightarrow> bool" where
  "v1_mismatch off sz fl el =
     (\<not> (off = element_offset el \<and> sz = element_size el
         \<and> fl AND LIBEWF_RANGE_FLAG_IS_COMPRESSED
             = element_flags el AND LIBEWF_RANGE_FLAG_IS_COMPRESSED))"

definition v1_update :: "bool \<Rightarrow> uint8_t \<Rightarrow> uint8_t \<Rightarrow> list_element \<Rightarrow> bool" where
  "v1_update mm co t el =
     ((mm \<and> co = 0 \<and> t = 0)
      \<or> (mm \<and> element_flags el AND LIBEWF_RANGE_FLAG_IS_CORRUPTED \<noteq> 0 \<and> co = 0)
      \<or> (\<not> mm \<and> element_flags el AND LIBEWF_RANGE_FLAG_IS_TAINTED \<noteq> 0))"

definition correct_v1_compared ::
  "c_int \<Rightarrow> off64_t \<Rightarrow> uint8_t \<Rightarrow> list_element \<Rightarrow> correct_v1_vars \<Rightarrow> correct_v1_vars" where
  "correct_v1_compared pool base t el s =
     (let off = base + ucast (current_offset s);
          sz = ucast (chunk_data_size s);
          mm = v1_mismatch off sz (range_flags s) el;
          upd = v1_update mm (corrupted s) t el
      in s\<lparr>chunks_list :=
             (if upd
              then (chunks_list s)[nat (sint (table_entry_index s)) :=
                     el\<lparr>element_file_index := pool, element_offset := off,
                        element_size := sz, element_flags := range_flags s\<rparr>]
              else chunks_list s),
           previous_chunk_data_offset := element_offset el,
           previous_chunk_data_size := element_size el,
           previous_range_flags := element_flags el,
           previous_file_io_pool_entry := element_file_index el,
           mismatch := (if mm then 1 else 0),
           update_data_range := (if upd then 1 else 0)\<rparr>)"

lemma correct_v1_compare_and_set_eq:
  "correct_v1_compare_and_set pool base t s =
     (case libfdata_list_get_element_by_index (chunks_list s) (sint (table_entry_index s)) of
        Inl e \<Rightarrow> Inl RUNTIME_ERROR_GET_FAILED
      | Inr el \<Rightarrow> Inr (correct_v1_compared pool base t el s))"
proof (cases "0 \<le> sint (table_entry_index s)
    \<and> sint (table_entry_index s) < int (length (chunks_list s))")
  case False
  then show ?thesis
    by (auto simp: correct_v1_compare_and_set_def correct_v1_get_previous_def
        libfdata_list_get_element_by_index_def)
next
  case True
  let ?el = "chunks_list s ! nat (sint (table_entry_index s))"
  let ?s1 = "s\<lparr>previous_file_io_pool_entry := element_file_index ?el,
                 previous_chunk_data_offset := element_offset ?el,
                 previous_chunk_data_size := element_size ?el,
                 previous_range_flags := element_flags ?el\<rparr>"
  have get: "correct_v1_get_previous s = Inr ?s1"
    using True by (simp add: correct_v1_get_previous_def libfdata_list_get_element_by_index_def)
  have mm: "correct_v1_mismatch base ?s1 =
      ?s1\<lparr>mismatch := (if v1_mismatch (base + ucast (current_offset s))
                 (ucast (chunk_data_size s)) (range_flags s) ?el then 1 else 0)\<rparr>"
    by (simp add: correct_v1_mismatch_def v1_mismatch_def)
  let ?s2 = "?s1\<lparr>mismatch := (if v1_mismatch (base + ucast (current_offset s))
                 (ucast (chunk_data_size s)) (range_flags s) ?el then 1 else 0)\<rparr>"
  have upd: "correct_v1_update_data_range t ?s2 =
      ?s2\<lparr>update_data_range := (if v1_update (v1_mismatch (base + ucast (current_offset s))
                 (ucast (chunk_data_size s)) (range_flags s) ?el) (corrupted s) t ?el
               then 1 else 0)\<rparr>"
    by (simp add: correct_v1_update_data_range_def v1_update_def Let_def)
  show ?thesis
    using True
    by (simp add: correct_v1_compare_and_set_def get mm upd Let_def
        correct_v1_set_element_def libfdata_list_set_element_by_index_def
        libfdata_list_get_element_by_index_def correct_v1_compared_def)
qed


definition correct_v1_decoded :: "uint8_t \<Rightarrow> uint32_t \<Rightarrow> correct_v1_vars \<Rightarrow> correct_v1_vars" where
  "correct_v1_decoded t v s =
     (let c = v1_current (overflow s) (stored_offset s);
          n = v1_current (overflow s) v;
          ic = v1_compressed (overflow s) (is_compressed s) (stored_offset s);
          sz = v1_size c n v;
          co = v1_corrupted c n v
      in s\<lparr>chunk_data_size := sz, current_offset := c, next_offset := n,
           range_flags := correct_v1_flags ic co t, stored_offset := v,
           corrupted := co, is_compressed := ic\<rparr>)"

definition correct_v1_latched :: "correct_v1_vars \<Rightarrow> correct_v1_vars" where
  "correct_v1_latched s =
     s\<lparr>table_entry_index := table_entry_index s + 1,
       is_compressed := (if v1_latch (overflow s) (current_offset s) (chunk_data_size s)
                         then 0 else is_compressed s),
       overflow := (if v1_latch (overflow s) (current_offset s) (chunk_data_size s)
                    then 1 else overflow s)\<rparr>"

definition correct_v1_step ::
  "c_int \<Rightarrow> off64_t \<Rightarrow> uint8_t \<Rightarrow> uint32_t \<Rightarrow> list_element \<Rightarrow> correct_v1_vars
     \<Rightarrow> correct_v1_vars" where
  "correct_v1_step pool base t v el s =
     correct_v1_latched (correct_v1_compared pool base t el (correct_v1_decoded t v s))"

lemma correct_v1_decoded_chunks_list [simp]:
  "chunks_list (correct_v1_decoded t v s) = chunks_list s"
  by (simp add: correct_v1_decoded_def Let_def)

lemma correct_v1_decoded_index [simp]:
  "table_entry_index (correct_v1_decoded t v s) = table_entry_index s"
  by (simp add: correct_v1_decoded_def Let_def)

lemma correct_v1_loop_body_eq:
  "correct_v1_loop_body pool base d t s =
     (case table_entry_v1_chunk_data_offset d (table_entry_index s + 1) of
        Inl e \<Rightarrow> Inl e
      | Inr v \<Rightarrow>
          (case libfdata_list_get_element_by_index (chunks_list s)
                  (sint (table_entry_index s)) of
             Inl e \<Rightarrow> Inl RUNTIME_ERROR_GET_FAILED
           | Inr el \<Rightarrow> Inr (correct_v1_step pool base t v el s)))"
proof (cases "table_entry_v1_chunk_data_offset d (table_entry_index s + 1)")
  case (Inl e)
  then show ?thesis
    by (simp add: correct_v1_loop_body_def Let_def v1_decode_current_eq)
next
  case (Inr v)
  have dec: "correct_v1_range_flags t (v1_chunk_data_size (v1_decode_next
      ((v1_decode_current s)\<lparr>stored_offset := v\<rparr>))) = correct_v1_decoded t v s"
    by (simp add: v1_decode_current_eq v1_decode_next_eq v1_chunk_data_size_eq
        correct_v1_range_flags_eq correct_v1_decoded_def Let_def)
  show ?thesis
    by (simp add: correct_v1_loop_body_def Let_def Inr dec [simplified Let_def]
        correct_v1_compare_and_set_eq correct_v1_step_def v1_overflow_check_eq
        correct_v1_latched_def split: sum.split)
qed

definition correct_v1_last_decoded ::
  "libewf_section_t \<Rightarrow> off64_t \<Rightarrow> uint8_t \<Rightarrow> uint32_t \<Rightarrow> correct_v1_vars \<Rightarrow> correct_v1_vars" where
  "correct_v1_last_decoded sec base t v s =
     (let c = v1_current (overflow s) v;
          ic = v1_compressed (overflow s) (is_compressed s) v;
          lo = base + ucast c;
          lsz = v1_last_size sec lo (last_chunk_data_size s) - section_size sec;
          co = v1_last_corrupted 0 lsz
      in s\<lparr>stored_offset := v, is_compressed := ic, current_offset := c,
           last_chunk_data_offset := lo, last_chunk_data_size := lsz, corrupted := co,
           range_flags := correct_v1_flags ic co t\<rparr>)"

lemma correct_v1_last_decoded_chunks_list [simp]:
  "chunks_list (correct_v1_last_decoded sec base t v s) = chunks_list s"
  by (simp add: correct_v1_last_decoded_def Let_def)

lemma correct_v1_last_decoded_index [simp]:
  "table_entry_index (correct_v1_last_decoded sec base t v s) = table_entry_index s"
  by (simp add: correct_v1_last_decoded_def Let_def)

lemma correct_v1_last_eq:
  "correct_v1_last pool sec base d t s =
     (case table_entry_v1_chunk_data_offset d (table_entry_index s) of
        Inl e \<Rightarrow> Inl e
      | Inr v \<Rightarrow>
          (case libfdata_list_get_element_by_index (chunks_list s)
                  (sint (table_entry_index s)) of
             Inl e \<Rightarrow> Inl RUNTIME_ERROR_GET_FAILED
           | Inr el \<Rightarrow>
               Inr (correct_v1_compared pool base t el (correct_v1_last_decoded sec base t v s))))"
  by (simp add: correct_v1_last_def Let_def INT64_MAX_not_sless v1_decode_current_eq
      v1_last_chunk_data_offset_def v1_last_chunk_data_size_eq v1_last_chunk_corrupted_eq
      correct_v1_range_flags_eq correct_v1_compare_and_set_eq correct_v1_last_decoded_def
      split: sum.split)


section \<open>The overflow latch\<close>

lemma v1_latch_clear:
  "v1_latch 0 c sz = (2 ^ 31 - 1 < (unat c + unat sz) mod 2 ^ 32)"
  by (simp add: v1_latch_def INT32_MAX_def word_less_nat_alt unat_word_ariths)

lemma correct_v1_compared_fields [simp]:
  "overflow (correct_v1_compared pool base t el s) = overflow s"
  "is_compressed (correct_v1_compared pool base t el s) = is_compressed s"
  "current_offset (correct_v1_compared pool base t el s) = current_offset s"
  "chunk_data_size (correct_v1_compared pool base t el s) = chunk_data_size s"
  "range_flags (correct_v1_compared pool base t el s) = range_flags s"
  "corrupted (correct_v1_compared pool base t el s) = corrupted s"
  "stored_offset (correct_v1_compared pool base t el s) = stored_offset s"
  "table_entry_index (correct_v1_compared pool base t el s) = table_entry_index s"
  by (simp_all add: correct_v1_compared_def Let_def)

lemma correct_v1_step_fields:
  "current_offset (correct_v1_step pool base t v el s) = v1_current (overflow s) (stored_offset s)"
  "chunk_data_size (correct_v1_step pool base t v el s) =
     v1_size (v1_current (overflow s) (stored_offset s)) (v1_current (overflow s) v) v"
  "overflow (correct_v1_step pool base t v el s) =
     (if v1_latch (overflow s) (v1_current (overflow s) (stored_offset s))
           (v1_size (v1_current (overflow s) (stored_offset s)) (v1_current (overflow s) v) v)
      then 1 else overflow s)"
  "is_compressed (correct_v1_step pool base t v el s) =
     (if v1_latch (overflow s) (v1_current (overflow s) (stored_offset s))
           (v1_size (v1_current (overflow s) (stored_offset s)) (v1_current (overflow s) v) v)
      then 0 else v1_compressed (overflow s) (is_compressed s) (stored_offset s))"
  "stored_offset (correct_v1_step pool base t v el s) = v"
  "table_entry_index (correct_v1_step pool base t v el s) = table_entry_index s + 1"
  by (simp_all add: correct_v1_step_def correct_v1_latched_def correct_v1_decoded_def Let_def)

lemma fill_v1_step_fields:
  "current_offset (fill_v1_step cs pool base t v s) = v1_current (overflow s) (stored_offset s)"
  "chunk_data_size (fill_v1_step cs pool base t v s) =
     v1_size (v1_current (overflow s) (stored_offset s)) (v1_current (overflow s) v) v"
  by (simp_all add: fill_v1_step_def Let_def)


text \<open>
  C4.  The claim: after a table entry other than the last, processed with the overflow
  flag clear, the flag is set exactly when \<open>current + size\<close>, as an exact integer sum,
  exceeds \<^verbatim>\<open>INT32_MAX\<close>.  The code adds in \<^verbatim>\<open>uint32_t\<close> (lines 310 and 1076): the flag is
  set exactly when the sum modulo \<open>2 ^ 32\<close> exceeds \<^verbatim>\<open>INT32_MAX\<close>, in fill and in correct.
\<close>

theorem C4_overflow_latch_is_set_on_the_wrapped_sum:
  "(overflow s = 0 \<and> fill_v1_loop_body cs pool base d t s = Inr s' \<longrightarrow>
      (overflow s' \<noteq> 0)
        = (2 ^ 31 - 1 < (unat (current_offset s') + unat (chunk_data_size s')) mod 2 ^ 32))
   \<and> (overflow c = 0 \<and> correct_v1_loop_body pool base d t c = Inr c' \<longrightarrow>
      (overflow c' \<noteq> 0)
        = (2 ^ 31 - 1 < (unat (current_offset c') + unat (chunk_data_size c')) mod 2 ^ 32))"
proof (intro conjI impI)
  assume a: "overflow s = 0 \<and> fill_v1_loop_body cs pool base d t s = Inr s'"
  then obtain v where "s' = fill_v1_step cs pool base t v s"
    by (auto simp: fill_v1_loop_body_eq split: sum.splits)
  then show "(overflow s' \<noteq> 0)
      = (2 ^ 31 - 1 < (unat (current_offset s') + unat (chunk_data_size s')) mod 2 ^ 32)"
    using a by (simp add: fill_v1_step_overflow fill_v1_step_fields v1_latch_clear)
next
  assume a: "overflow c = 0 \<and> correct_v1_loop_body pool base d t c = Inr c'"
  then obtain v el where "c' = correct_v1_step pool base t v el c"
    by (auto simp: correct_v1_loop_body_eq split: sum.splits)
  then show "(overflow c' \<noteq> 0)
      = (2 ^ 31 - 1 < (unat (current_offset c') + unat (chunk_data_size c')) mod 2 ^ 32)"
    using a by (simp add: correct_v1_step_fields v1_latch_clear)
qed

theorem C4_overflow_latch_is_set_on_the_wrapped_sum_witness:
  "overflow ((fill_v1_vars_init [])\<lparr>stored_offset := 0x40000000\<rparr>) = 0
   \<and> fill_v1_loop_body 0x10000 0 0 [0, 0, 0, 0x40, 0, 0, 0, 0x80] 0
        ((fill_v1_vars_init [])\<lparr>stored_offset := 0x40000000\<rparr>)
      = Inr (fill_v1_step 0x10000 0 0 0 0x80000000
              ((fill_v1_vars_init [])\<lparr>stored_offset := 0x40000000\<rparr>))
   \<and> (overflow (fill_v1_step 0x10000 0 0 0 0x80000000
              ((fill_v1_vars_init [])\<lparr>stored_offset := 0x40000000\<rparr>)) \<noteq> 0)
      = (2 ^ 31 - 1 < (unat (current_offset (fill_v1_step 0x10000 0 0 0 0x80000000
              ((fill_v1_vars_init [])\<lparr>stored_offset := 0x40000000\<rparr>)))
           + unat (chunk_data_size (fill_v1_step 0x10000 0 0 0 0x80000000
              ((fill_v1_vars_init [])\<lparr>stored_offset := 0x40000000\<rparr>)))) mod 2 ^ 32)
   \<and> overflow ((correct_v1_vars_init
          [\<lparr>element_file_index = 0, element_offset = 0, element_size = 0,
            element_flags = 0, mapped_offset = 0, mapped_size = 0\<rparr>])
          \<lparr>stored_offset := 0x40000000\<rparr>) = 0
   \<and> correct_v1_loop_body 0 0 [0, 0, 0, 0x40, 0, 0, 0, 0x80] 0
        ((correct_v1_vars_init
          [\<lparr>element_file_index = 0, element_offset = 0, element_size = 0,
            element_flags = 0, mapped_offset = 0, mapped_size = 0\<rparr>])
          \<lparr>stored_offset := 0x40000000\<rparr>)
      = Inr (correct_v1_step 0 0 0 0x80000000
              \<lparr>element_file_index = 0, element_offset = 0, element_size = 0,
                element_flags = 0, mapped_offset = 0, mapped_size = 0\<rparr>
              ((correct_v1_vars_init
                [\<lparr>element_file_index = 0, element_offset = 0, element_size = 0,
                  element_flags = 0, mapped_offset = 0, mapped_size = 0\<rparr>])
                \<lparr>stored_offset := 0x40000000\<rparr>))"
proof -
  let ?s = "(fill_v1_vars_init [])\<lparr>stored_offset := 0x40000000\<rparr>"
  let ?el = "\<lparr>element_file_index = 0, element_offset = 0, element_size = 0,
            element_flags = 0, mapped_offset = 0, mapped_size = 0\<rparr> :: list_element"
  let ?c = "(correct_v1_vars_init [?el])\<lparr>stored_offset := 0x40000000\<rparr>"
  have h1: "overflow ?s = 0" by (simp add: fill_v1_vars_init_def)
  have h2: "fill_v1_loop_body 0x10000 0 0 [0, 0, 0, 0x40, 0, 0, 0, 0x80] 0 ?s
      = Inr (fill_v1_step 0x10000 0 0 0 0x80000000 ?s)"
    by (simp add: fill_v1_loop_body_eq fill_v1_vars_init_def codec_defs)
  have h3: "overflow ?c = 0" by (simp add: correct_v1_vars_init_def)
  have h4: "correct_v1_loop_body 0 0 [0, 0, 0, 0x40, 0, 0, 0, 0x80] 0 ?c
      = Inr (correct_v1_step 0 0 0 0x80000000 ?el ?c)"
    by (simp add: correct_v1_loop_body_eq correct_v1_vars_init_def codec_defs list_defs)
  note r = C4_overflow_latch_is_set_on_the_wrapped_sum [where s = ?s and cs = "0x10000"
      and pool = 0 and base = 0 and d = "[0, 0, 0, 0x40, 0, 0, 0, 0x80]" and t = 0
      and s' = "fill_v1_step 0x10000 0 0 0 0x80000000 ?s" and c = ?c
      and c' = "correct_v1_step 0 0 0 0x80000000 ?el ?c"]
  have c1: "(overflow (fill_v1_step 0x10000 0 0 0 0x80000000 ?s) \<noteq> 0)
      = (2 ^ 31 - 1 < (unat (current_offset (fill_v1_step 0x10000 0 0 0 0x80000000 ?s))
           + unat (chunk_data_size (fill_v1_step 0x10000 0 0 0 0x80000000 ?s))) mod 2 ^ 32)"
    using r h1 h2 by blast
  show ?thesis
    using h1 h2 c1 h3 h4 by (intro conjI)
qed



text \<open>
  The exact sum: the stored offsets \<^verbatim>\<open>0x10\<close> and then \<^verbatim>\<open>0x05\<close> give the current offset
  \<^verbatim>\<open>0x10\<close> and the size \<^verbatim>\<open>0x05 - 0x10\<close>, which is \<^verbatim>\<open>0xfffffff5\<close> in \<^verbatim>\<open>uint32_t\<close>.  Their
  exact sum exceeds \<^verbatim>\<open>INT32_MAX\<close>; the sum of the code is 5, and the flag stays clear.
\<close>

theorem C4_exact_sum_counterexample:
  "(case fill_v1_loop_body 0x10000 0 0 [0x10, 0, 0, 0, 5, 0, 0, 0] 0
           ((fill_v1_vars_init [])\<lparr>stored_offset := 0x10\<rparr>) of
      Inl e \<Rightarrow> False
    | Inr s' \<Rightarrow> overflow s' = 0 \<and> current_offset s' = 0x10
         \<and> chunk_data_size s' = 0xfffffff5
         \<and> 2 ^ 31 - 1 < unat (current_offset s') + unat (chunk_data_size s'))"
  by (simp add: fill_v1_loop_body_eq fill_v1_vars_init_def codec_defs fill_v1_step_overflow
      fill_v1_step_fields v1_current_def v1_size_def v1_latch_def INT32_MAX_def)


section \<open>What correct compares and what it writes\<close>

lemma correct_v1_flags_both:
  "ic \<noteq> 0 \<Longrightarrow> \<not> one_of_compressed_and_checksum (correct_v1_flags ic co t)"
  by (simp add: one_of_compressed_and_checksum_def correct_v1_flags_def flag_defs)

lemma correct_v1_step_compared:
  "mismatch (correct_v1_step pool base t v el s) =
     (if v1_mismatch (base + ucast (v1_current (overflow s) (stored_offset s)))
           (ucast (v1_size (v1_current (overflow s) (stored_offset s))
              (v1_current (overflow s) v) v))
           (range_flags (correct_v1_decoded t v s)) el then 1 else 0)"
  "update_data_range (correct_v1_step pool base t v el s) =
     (if v1_update (v1_mismatch (base + ucast (v1_current (overflow s) (stored_offset s)))
           (ucast (v1_size (v1_current (overflow s) (stored_offset s))
              (v1_current (overflow s) v) v))
           (range_flags (correct_v1_decoded t v s)) el)
         (corrupted (correct_v1_decoded t v s)) t el then 1 else 0)"
  "range_flags (correct_v1_step pool base t v el s) = range_flags (correct_v1_decoded t v s)"
  "corrupted (correct_v1_step pool base t v el s) = corrupted (correct_v1_decoded t v s)"
  "chunks_list (correct_v1_step pool base t v el s) =
     (if update_data_range (correct_v1_step pool base t v el s) \<noteq> 0
      then (chunks_list s)[nat (sint (table_entry_index s)) :=
             el\<lparr>element_file_index := pool,
                element_offset := base + ucast (v1_current (overflow s) (stored_offset s)),
                element_size := ucast (v1_size (v1_current (overflow s) (stored_offset s))
                  (v1_current (overflow s) v) v),
                element_flags := range_flags (correct_v1_decoded t v s)\<rparr>]
      else chunks_list s)"
  by (simp_all add: correct_v1_step_def correct_v1_latched_def correct_v1_compared_def
      correct_v1_decoded_def Let_def)

lemma correct_v1_loop_body_compare_and_overwrite:
  assumes "correct_v1_loop_body pool base d t s = Inr s'"
  shows "\<exists>el. libfdata_list_get_element_by_index (chunks_list s) (sint (table_entry_index s))
           = Inr el
     \<and> (mismatch s' \<noteq> 0)
         = v1_mismatch (base + ucast (current_offset s')) (ucast (chunk_data_size s'))
             (range_flags s') el
     \<and> (update_data_range s' \<noteq> 0) = v1_update (mismatch s' \<noteq> 0) (corrupted s') t el
     \<and> chunks_list s' =
         (if update_data_range s' \<noteq> 0
          then (chunks_list s)[nat (sint (table_entry_index s)) :=
                 el\<lparr>element_file_index := pool,
                    element_offset := base + ucast (current_offset s'),
                    element_size := ucast (chunk_data_size s'),
                    element_flags := range_flags s'\<rparr>]
          else chunks_list s)"
proof -
  obtain v el where el: "libfdata_list_get_element_by_index (chunks_list s)
      (sint (table_entry_index s)) = Inr el"
    and s': "s' = correct_v1_step pool base t v el s"
    using assms by (auto simp: correct_v1_loop_body_eq split: sum.splits)
  show ?thesis
    unfolding s' using el
    by (simp add: correct_v1_step_compared correct_v1_step_fields)
qed


text \<open>
  C1.  The claim: every element that fill appends, from version 1 or version 2 entries,
  and every element that correct writes back, from a well-formed entry, has exactly one
  of the flags compressed and checksum.  Fill composes the flags so
  (\<open>fill_v1_flags_one\<close>, \<open>fill_v1_result\<close>).  Correct starts from the checksum flag and adds
  the compressed flag to it (lines 905-910 and 1170-1175): the element it writes back for
  a compressed entry has both.  Here the first of two entries stores \<^verbatim>\<open>0x80000010\<close>, and
  the element of the list at its index differs.
\<close>

theorem C1_correct_v1_sets_both_flags:
  "libewf_chunk_group_correct_v1
     (Some [\<lparr>element_file_index = 0, element_offset = 0, element_size = 0,
             element_flags = 0, mapped_offset = 0, mapped_size = 0x10000\<rparr>,
            \<lparr>element_file_index = 0, element_offset = 0x20, element_size = 0x10,
             element_flags = 0x100, mapped_offset = 0x10000, mapped_size = 0x10000\<rparr>])
     0x10000 0 (Some \<lparr>start_offset = 0, end_offset = 0x100, section_size = 0\<rparr>)
     0 2 (Some [0x10, 0, 0, 0x80, 0x20, 0, 0, 0]) 0 =
   Inr [\<lparr>element_file_index = 0, element_offset = 0x10, element_size = 0x10,
         element_flags = 0x102, mapped_offset = 0, mapped_size = 0x10000\<rparr>,
        \<lparr>element_file_index = 0, element_offset = 0x20, element_size = 0x10,
         element_flags = 0x100, mapped_offset = 0x10000, mapped_size = 0x10000\<rparr>]
   \<and> \<not> one_of_compressed_and_checksum 0x102"
proof
  show "libewf_chunk_group_correct_v1
     (Some [\<lparr>element_file_index = 0, element_offset = 0, element_size = 0,
             element_flags = 0, mapped_offset = 0, mapped_size = 0x10000\<rparr>,
            \<lparr>element_file_index = 0, element_offset = 0x20, element_size = 0x10,
             element_flags = 0x100, mapped_offset = 0x10000, mapped_size = 0x10000\<rparr>])
     0x10000 0 (Some \<lparr>start_offset = 0, end_offset = 0x100, section_size = 0\<rparr>)
     0 2 (Some [0x10, 0, 0, 0x80, 0x20, 0, 0, 0]) 0 =
   Inr [\<lparr>element_file_index = 0, element_offset = 0x10, element_size = 0x10,
         element_flags = 0x102, mapped_offset = 0, mapped_size = 0x10000\<rparr>,
        \<lparr>element_file_index = 0, element_offset = 0x20, element_size = 0x10,
         element_flags = 0x100, mapped_offset = 0x10000, mapped_size = 0x10000\<rparr>]"
    by (simp add: correct_v1_defs v1_defs codec_defs list_defs flag_defs Let_def
        word_sless_alt word_sle_eq)
  show "\<not> one_of_compressed_and_checksum 0x102"
    by (simp add: one_of_compressed_and_checksum_def flag_defs)
qed


text \<open>
  C2.  The claim: for every entry, the mismatch holds exactly when the newly derived
  offset, size or compression flag differs from the element of the list, and the element
  is overwritten by the precedence rule.  For an entry of the loop this is
  \<open>correct_v1_loop_body_compare_and_overwrite\<close>.  For the last entry the code derives
  \<^verbatim>\<open>last_chunk_data_size\<close> and then compares and writes \<^verbatim>\<open>chunk_data_size\<close>, the size
  of the entry before (lines 1266 and 1323), which is 0 when the table has one entry.
  Here fill derives the element of offset \<^verbatim>\<open>0x10\<close> and size \<^verbatim>\<open>0xf0\<close>; correct, from the
  same table and on that very element, finds a mismatch and writes the size 0.
\<close>

theorem C2_correct_v1_last_entry_compares_stale_size:
  "libewf_chunk_group_fill_v1 (Some []) 0x10000 0
     (Some \<lparr>start_offset = 0, end_offset = 0x100, section_size = 0\<rparr>)
     0 1 (Some [0x10, 0, 0, 0]) 0 =
   Inr [\<lparr>element_file_index = 0, element_offset = 0x10, element_size = 0xf0,
         element_flags = 0x100, mapped_offset = 0, mapped_size = 0x10000\<rparr>]
   \<and> libewf_chunk_group_correct_v1
     (Some [\<lparr>element_file_index = 0, element_offset = 0x10, element_size = 0xf0,
             element_flags = 0x100, mapped_offset = 0, mapped_size = 0x10000\<rparr>])
     0x10000 0 (Some \<lparr>start_offset = 0, end_offset = 0x100, section_size = 0\<rparr>)
     0 1 (Some [0x10, 0, 0, 0]) 0 =
   Inr [\<lparr>element_file_index = 0, element_offset = 0x10, element_size = 0,
         element_flags = 0x100, mapped_offset = 0, mapped_size = 0x10000\<rparr>]"
proof
  show "libewf_chunk_group_fill_v1 (Some []) 0x10000 0
     (Some \<lparr>start_offset = 0, end_offset = 0x100, section_size = 0\<rparr>)
     0 1 (Some [0x10, 0, 0, 0]) 0 =
   Inr [\<lparr>element_file_index = 0, element_offset = 0x10, element_size = 0xf0,
         element_flags = 0x100, mapped_offset = 0, mapped_size = 0x10000\<rparr>]"
    by (simp add: fill_v1_defs v1_defs codec_defs list_defs flag_defs Let_def
        word_sless_alt word_sle_eq)
  show "libewf_chunk_group_correct_v1
     (Some [\<lparr>element_file_index = 0, element_offset = 0x10, element_size = 0xf0,
             element_flags = 0x100, mapped_offset = 0, mapped_size = 0x10000\<rparr>])
     0x10000 0 (Some \<lparr>start_offset = 0, end_offset = 0x100, section_size = 0\<rparr>)
     0 1 (Some [0x10, 0, 0, 0]) 0 =
   Inr [\<lparr>element_file_index = 0, element_offset = 0x10, element_size = 0,
         element_flags = 0x100, mapped_offset = 0, mapped_size = 0x10000\<rparr>]"
    by (simp add: correct_v1_defs v1_defs codec_defs list_defs flag_defs Let_def
        word_sless_alt word_sle_eq)
qed


section \<open>The elements that fill appends from version 2 entries\<close>

text \<open>
  The values of the codec, the range flags and the element of one version 2 table entry
  as functions of the bytes; one pass through the loop as one assignment; and the loop:
  it returns, and the \<open>k\<close>-th new element is the element of the entry at the byte offset
  \<open>16 * k\<close>, whose address in the segment file is the start of the section plus the size
  of the table header plus \<open>16 * k\<close>.
\<close>

definition uint32_le :: "uint8_t list \<Rightarrow> nat \<Rightarrow> uint32_t" where
  "uint32_le bytes off =
     push_bit 24 (ucast (bytes ! (off + 3))) OR push_bit 16 (ucast (bytes ! (off + 2))) OR
     push_bit 8 (ucast (bytes ! (off + 1))) OR ucast (bytes ! off)"

definition uint64_le :: "uint8_t list \<Rightarrow> nat \<Rightarrow> uint64_t" where
  "uint64_le bytes off =
     push_bit 56 (ucast (bytes ! (off + 7))) OR push_bit 48 (ucast (bytes ! (off + 6))) OR
     push_bit 40 (ucast (bytes ! (off + 5))) OR push_bit 32 (ucast (bytes ! (off + 4))) OR
     push_bit 24 (ucast (bytes ! (off + 3))) OR push_bit 16 (ucast (bytes ! (off + 2))) OR
     push_bit 8 (ucast (bytes ! (off + 1))) OR ucast (bytes ! off)"

lemma byte_stream_copy_to_uint32_eq:
  "byte_stream_copy_to_uint32_little_endian bytes off =
     (if off + 4 \<le> length bytes then Inr (uint32_le bytes off) else Inl OUT_OF_BOUNDS_ACCESS)"
  by (simp add: byte_stream_copy_to_uint32_little_endian_def uint32_le_def)

lemma byte_stream_copy_to_uint64_eq:
  "byte_stream_copy_to_uint64_little_endian bytes off =
     (if off + 8 \<le> length bytes then Inr (uint64_le bytes off) else Inl OUT_OF_BOUNDS_ACCESS)"
  by (simp add: byte_stream_copy_to_uint64_little_endian_def uint64_le_def)

lemma uint32_le_drop:
  "k + off + 4 \<le> length bytes \<Longrightarrow> uint32_le (drop k bytes) off = uint32_le bytes (k + off)"
  by (simp add: uint32_le_def add.assoc)

lemma uint64_le_drop:
  "k + off + 8 \<le> length bytes \<Longrightarrow> uint64_le (drop k bytes) off = uint64_le bytes (k + off)"
  by (simp add: uint64_le_def add.assoc)

definition fill_v2_flags :: "uint8_t \<Rightarrow> uint32_t \<Rightarrow> uint32_t" where
  "fill_v2_flags t fl =
     ((if fl AND LIBEWF_CHUNK_DATA_FLAG_IS_COMPRESSED \<noteq> 0
       then LIBEWF_RANGE_FLAG_IS_COMPRESSED
            OR (if fl AND LIBEWF_CHUNK_DATA_FLAG_USES_PATTERN_FILL \<noteq> 0
                then LIBEWF_RANGE_FLAG_USES_PATTERN_FILL else 0)
       else 0)
      OR (if fl AND LIBEWF_CHUNK_DATA_FLAG_HAS_CHECKSUM \<noteq> 0
          then LIBEWF_RANGE_FLAG_HAS_CHECKSUM else 0))
     OR (if t \<noteq> 0 then LIBEWF_RANGE_FLAG_IS_TAINTED else 0)"

lemma fill_v2_range_flags_eq:
  "fill_v2_range_flags t s = s\<lparr>v2_range_flags := fill_v2_flags t (v2_chunk_data_flags s)\<rparr>"
  by (simp add: fill_v2_range_flags_def fill_v2_flags_def Let_def)

definition fill_v2_element ::
  "size32_t \<Rightarrow> c_int \<Rightarrow> uint8_t \<Rightarrow> off64_t \<Rightarrow> off64_t \<Rightarrow> uint8_t list \<Rightarrow> nat \<Rightarrow> list_element" where
  "fill_v2_element cs pool t entry_offset media_offset bytes off =
     (let fl = fill_v2_flags t (uint32_le bytes (off + 12));
          p = (fl AND LIBEWF_RANGE_FLAG_USES_PATTERN_FILL \<noteq> 0)
      in \<lparr>element_file_index = pool,
          element_offset = (if p then entry_offset else uint64_le bytes off),
          element_size = ucast (if p then 8 else uint32_le bytes (off + 8)),
          element_flags = fl,
          mapped_offset = media_offset, mapped_size = ucast cs\<rparr>)"

definition fill_v2_step :: "size32_t \<Rightarrow> c_int \<Rightarrow> uint8_t \<Rightarrow> fill_v2_vars \<Rightarrow> fill_v2_vars" where
  "fill_v2_step cs pool t s =
     (let d = v2_table_entries_data s;
          fl = fill_v2_flags t (uint32_le d 12);
          p = (fl AND LIBEWF_RANGE_FLAG_USES_PATTERN_FILL \<noteq> 0)
      in s\<lparr>v2_chunks_list := v2_chunks_list s @
             [fill_v2_element cs pool t (v2_table_entry_offset s) (v2_storage_media_offset s) d 0],
           v2_table_entries_data := drop 16 d,
           v2_storage_media_offset := v2_storage_media_offset s + ucast cs,
           v2_table_entry_offset := v2_table_entry_offset s + 16,
           v2_chunk_data_offset := (if p then v2_table_entry_offset s else uint64_le d 0),
           v2_chunk_data_flags := uint32_le d 12,
           v2_chunk_data_size := (if p then 8 else uint32_le d 8),
           v2_range_flags := fl,
           v2_table_entry_index := v2_table_entry_index s + 1,
           v2_element_index := int (length (v2_chunks_list s))\<rparr>)"

lemma fill_v2_loop_body_eq:
  assumes "16 \<le> length (v2_table_entries_data s)"
  shows "fill_v2_loop_body cs pool t s = Inr (fill_v2_step cs pool t s)"
  using assms
  by (simp add: fill_v2_loop_body_def byte_stream_copy_to_uint32_eq
      byte_stream_copy_to_uint64_eq Let_def fill_v2_range_flags_eq fill_v2_pattern_fill_def
      fill_v2_append_def list_defs fill_v2_step_def fill_v2_element_def
      sizeof_ewf_table_entry_v2_t_def)


lemma fill_v2_loop_invariant:
  assumes "I s"
    and "\<And>s. I s \<Longrightarrow> 16 \<le> length (v2_table_entries_data s) \<Longrightarrow> I (fill_v2_step cs pool t s)"
  shows "\<exists>s'. fill_v2_loop cs pool t s = Inr s' \<and> I s' \<and> length (v2_table_entries_data s') < 16"
  using assms
proof (induction cs pool t s rule: fill_v2_loop.induct)
  case (1 cs pool t s)
  show ?case
  proof (cases "16 \<le> length (v2_table_entries_data s)")
    case True
    have body: "fill_v2_loop_body cs pool t s = Inr (fill_v2_step cs pool t s)"
      using True by (rule fill_v2_loop_body_eq)
    have "I (fill_v2_step cs pool t s)"
      using "1.prems"(2) [OF "1.prems"(1) True] .
    then have "\<exists>s'. fill_v2_loop cs pool t (fill_v2_step cs pool t s) = Inr s' \<and> I s'
        \<and> length (v2_table_entries_data s') < 16"
      using "1.IH" [OF _ body] True "1.prems"(2)
      by (simp add: sizeof_ewf_table_entry_v2_t_def)
    then show ?thesis
      using True body
      by (subst fill_v2_loop.simps) (simp add: sizeof_ewf_table_entry_v2_t_def)
  next
    case False
    then show ?thesis
      using "1.prems"(1)
      by (subst fill_v2_loop.simps) (simp add: sizeof_ewf_table_entry_v2_t_def)
  qed
qed

definition fill_v2_inv ::
  "size32_t \<Rightarrow> c_int \<Rightarrow> uint8_t \<Rightarrow> off64_t \<Rightarrow> uint8_t list \<Rightarrow> libfdata_list_t \<Rightarrow> fill_v2_vars
     \<Rightarrow> bool" where
  "fill_v2_inv cs pool t entry_offset d cl s =
     (\<exists>i. 16 * i \<le> length d
        \<and> v2_table_entries_data s = drop (16 * i) d
        \<and> v2_table_entry_offset s = entry_offset + of_nat (16 * i)
        \<and> v2_storage_media_offset s = of_nat i * ucast cs
        \<and> length (v2_chunks_list s) = length cl + i
        \<and> take (length cl) (v2_chunks_list s) = cl
        \<and> (\<forall>k < i. v2_chunks_list s ! (length cl + k) =
              fill_v2_element cs pool t (entry_offset + of_nat (16 * k)) (of_nat k * ucast cs)
                d (16 * k)))"

lemma fill_v2_element_drop:
  assumes "k + 16 \<le> length d"
  shows "fill_v2_element cs pool t eo m (drop k d) 0 = fill_v2_element cs pool t eo m d k"
  using assms by (simp add: fill_v2_element_def Let_def uint32_le_drop uint64_le_drop)

lemma fill_v2_step_fields:
  "v2_chunks_list (fill_v2_step cs pool t s) = v2_chunks_list s @
     [fill_v2_element cs pool t (v2_table_entry_offset s) (v2_storage_media_offset s)
        (v2_table_entries_data s) 0]"
  "v2_table_entries_data (fill_v2_step cs pool t s) = drop 16 (v2_table_entries_data s)"
  "v2_storage_media_offset (fill_v2_step cs pool t s) = v2_storage_media_offset s + ucast cs"
  "v2_table_entry_offset (fill_v2_step cs pool t s) = v2_table_entry_offset s + 16"
  by (simp_all add: fill_v2_step_def Let_def)

lemma fill_v2_inv_step:
  assumes inv: "fill_v2_inv cs pool t eo d cl s"
    and ge: "16 \<le> length (v2_table_entries_data s)"
  shows "fill_v2_inv cs pool t eo d cl (fill_v2_step cs pool t s)"
proof -
  let ?s' = "fill_v2_step cs pool t s"
  obtain i where le: "16 * i \<le> length d"
    and data: "v2_table_entries_data s = drop (16 * i) d"
    and teo: "v2_table_entry_offset s = eo + of_nat (16 * i)"
    and media: "v2_storage_media_offset s = of_nat i * ucast cs"
    and len: "length (v2_chunks_list s) = length cl + i"
    and tk: "take (length cl) (v2_chunks_list s) = cl"
    and old: "\<And>k. k < i \<Longrightarrow> v2_chunks_list s ! (length cl + k) =
              fill_v2_element cs pool t (eo + of_nat (16 * k)) (of_nat k * ucast cs) d (16 * k)"
    using inv unfolding fill_v2_inv_def by blast
  have le': "16 * i + 16 \<le> length d"
    using ge le by (simp add: data)
  have new: "fill_v2_element cs pool t (v2_table_entry_offset s) (v2_storage_media_offset s)
        (v2_table_entries_data s) 0
      = fill_v2_element cs pool t (eo + of_nat (16 * i)) (of_nat i * ucast cs) d (16 * i)"
    using le' by (simp add: data teo media fill_v2_element_drop)
  have "16 * Suc i \<le> length d" using le' by simp
  moreover have "v2_table_entries_data ?s' = drop (16 * Suc i) d"
    by (simp add: fill_v2_step_fields data add.commute)
  moreover have "v2_table_entry_offset ?s' = eo + of_nat (16 * Suc i)"
    by (simp add: fill_v2_step_fields teo)
  moreover have "v2_storage_media_offset ?s' = of_nat (Suc i) * ucast cs"
    by (simp add: fill_v2_step_fields media distrib_right)
  moreover have "length (v2_chunks_list ?s') = length cl + Suc i"
    by (simp add: fill_v2_step_fields len)
  moreover have "take (length cl) (v2_chunks_list ?s') = cl"
    using tk len by (simp add: fill_v2_step_fields)
  moreover have "v2_chunks_list ?s' ! (length cl + k) =
      fill_v2_element cs pool t (eo + of_nat (16 * k)) (of_nat k * ucast cs) d (16 * k)"
    if "k < Suc i" for k
  proof (cases "k < i")
    case True
    then show ?thesis using old [OF True] len by (simp add: fill_v2_step_fields nth_append)
  next
    case False
    then have k: "k = i" using that by simp
    show ?thesis using len new by (simp add: fill_v2_step_fields nth_append k)
  qed
  ultimately show ?thesis
    unfolding fill_v2_inv_def by blast
qed

lemma fill_v2_result:
  assumes "length d \<le> SSIZE_MAX"
  shows "\<exists>new. libewf_chunk_group_fill_v2 hs (Some cl) cs pool (Some sec) n (Some d) t
           = Inr (cl @ new)
     \<and> length new = length d div 16
     \<and> (\<forall>k < length d div 16. new ! k =
           fill_v2_element cs pool t (start_offset sec + of_nat hs + of_nat (16 * k))
             (of_nat k * ucast cs) d (16 * k))"
proof -
  let ?eo = "start_offset sec + of_nat hs"
  let ?s0 = "\<lparr>v2_chunks_list = cl, v2_table_entries_data = d,
              v2_storage_media_offset = 0, v2_table_entry_offset = ?eo,
              v2_chunk_data_offset = 0, v2_chunk_data_flags = 0, v2_chunk_data_size = 0,
              v2_range_flags = 0, v2_table_entry_index = 0, v2_element_index = 0\<rparr>"
  have "fill_v2_inv cs pool t ?eo d cl ?s0"
    unfolding fill_v2_inv_def by (rule exI [of _ 0]) simp
  then obtain s' where loop: "fill_v2_loop cs pool t ?s0 = Inr s'"
    and inv: "fill_v2_inv cs pool t ?eo d cl s'"
    and lt: "length (v2_table_entries_data s') < 16"
    using fill_v2_loop_invariant [of "fill_v2_inv cs pool t ?eo d cl" ?s0 cs pool t]
      fill_v2_inv_step by blast
  obtain i where le: "16 * i \<le> length d"
    and data: "v2_table_entries_data s' = drop (16 * i) d"
    and len: "length (v2_chunks_list s') = length cl + i"
    and tk: "take (length cl) (v2_chunks_list s') = cl"
    and old: "\<And>k. k < i \<Longrightarrow> v2_chunks_list s' ! (length cl + k) =
              fill_v2_element cs pool t (?eo + of_nat (16 * k)) (of_nat k * ucast cs) d (16 * k)"
    using inv unfolding fill_v2_inv_def by blast
  have i: "i = length d div 16"
    using le lt by (simp add: data)
  define new where "new = drop (length cl) (v2_chunks_list s')"
  have cl': "v2_chunks_list s' = cl @ new"
    using tk by (metis append_take_drop_id new_def)
  have "libewf_chunk_group_fill_v2 hs (Some cl) cs pool (Some sec) n (Some d) t = Inr (cl @ new)"
    using assms loop by (simp add: libewf_chunk_group_fill_v2_def cl')
  moreover have "length new = length d div 16"
    using len by (simp add: new_def i)
  moreover have "new ! k = fill_v2_element cs pool t (?eo + of_nat (16 * k))
      (of_nat k * ucast cs) d (16 * k)" if "k < length d div 16" for k
    using old [of k] that i by (simp add: cl' nth_append)
  ultimately show ?thesis by blast
qed


lemma fill_v2_success:
  assumes "libewf_chunk_group_fill_v2 hs (Some cl) cs pool secp n (Some d) t = Inr cl'"
  obtains sec where "secp = Some sec" and "length d \<le> SSIZE_MAX"
  using assms
  by (auto simp: libewf_chunk_group_fill_v2_def split: option.splits if_splits)

lemma fill_v2_flags_one:
  assumes "(fl AND LIBEWF_CHUNK_DATA_FLAG_IS_COMPRESSED \<noteq> 0)
           \<noteq> (fl AND LIBEWF_CHUNK_DATA_FLAG_HAS_CHECKSUM \<noteq> 0)"
  shows "one_of_compressed_and_checksum (fill_v2_flags t fl)"
  using assms
  by (auto simp: one_of_compressed_and_checksum_def fill_v2_flags_def flag_defs)

lemma fill_v2_flags_pattern_fill:
  assumes "fl AND LIBEWF_CHUNK_DATA_FLAG_IS_COMPRESSED \<noteq> 0"
    and "fl AND LIBEWF_CHUNK_DATA_FLAG_USES_PATTERN_FILL \<noteq> 0"
  shows "fill_v2_flags t fl AND LIBEWF_RANGE_FLAG_USES_PATTERN_FILL \<noteq> 0"
    and "fill_v2_flags t fl AND LIBEWF_RANGE_FLAG_IS_COMPRESSED \<noteq> 0"
  using assms by (simp_all add: fill_v2_flags_def flag_defs)


text \<open>
  C9.  A call of \<open>libewf_chunk_group_fill_v2\<close> that returns 1 has appended one element
  for each 16 bytes of the buffer, rounded down, and \<^verbatim>\<open>number_of_offsets\<close> has no effect on
  the result.
\<close>

theorem C9_fill_v2_number_of_elements:
  "(libewf_chunk_group_fill_v2 hs (Some cl) cs pool secp n (Some d) t = Inr cl' \<longrightarrow>
      length cl' = length cl + length d div 16 \<and> take (length cl) cl' = cl)
   \<and> libewf_chunk_group_fill_v2 hs clp cs pool secp n dp t
       = libewf_chunk_group_fill_v2 hs clp cs pool secp n' dp t"
proof (intro conjI impI)
  assume ok: "libewf_chunk_group_fill_v2 hs (Some cl) cs pool secp n (Some d) t = Inr cl'"
  then obtain sec where sec: "secp = Some sec" and len: "length d \<le> SSIZE_MAX"
    by (rule fill_v2_success)
  obtain new where "libewf_chunk_group_fill_v2 hs (Some cl) cs pool (Some sec) n (Some d) t
      = Inr (cl @ new)" and "length new = length d div 16"
    using fill_v2_result [OF len] by blast
  then show "length cl' = length cl + length d div 16" and "take (length cl) cl' = cl"
    using ok by (auto simp: sec)
next
  show "libewf_chunk_group_fill_v2 hs clp cs pool secp n dp t
       = libewf_chunk_group_fill_v2 hs clp cs pool secp n' dp t"
    by (simp add: libewf_chunk_group_fill_v2_def)
qed

lemma fill_v2_pattern_fill_entry:
  "libewf_chunk_group_fill_v2 24 (Some []) 0x10000 0
       (Some \<lparr>start_offset = 0x1000, end_offset = 0x2000, section_size = 0x28\<rparr>) 1
       (Some [0xad, 0xde, 0, 0, 0, 0, 0, 0, 0, 0x10, 0, 0, 5, 0, 0, 0]) 0 =
     Inr [\<lparr>element_file_index = 0, element_offset = 0x1018, element_size = 8,
           element_flags = 0x202, mapped_offset = 0, mapped_size = 0x10000\<rparr>]"
  by (simp add: fill_v2_defs codec_defs list_defs flag_defs SSIZE_MAX_def Let_def)


theorem C9_fill_v2_number_of_elements_witness:
  "libewf_chunk_group_fill_v2 24 (Some []) 0x10000 0
       (Some \<lparr>start_offset = 0x1000, end_offset = 0x2000, section_size = 0x28\<rparr>) 1
       (Some [0xad, 0xde, 0, 0, 0, 0, 0, 0, 0, 0x10, 0, 0, 5, 0, 0, 0]) 0 =
     Inr [\<lparr>element_file_index = 0, element_offset = 0x1018, element_size = 8,
           element_flags = 0x202, mapped_offset = 0, mapped_size = 0x10000\<rparr>]
   \<and> length [\<lparr>element_file_index = 0, element_offset = 0x1018, element_size = 8 :: size64_t,
           element_flags = 0x202, mapped_offset = 0, mapped_size = 0x10000\<rparr>]
       = length ([] :: libfdata_list_t)
         + length [0xad, 0xde, 0, 0, 0, 0, 0, 0, 0, 0x10, 0, 0, 5, 0, 0, 0 :: uint8_t] div 16"
proof -
  note r = C9_fill_v2_number_of_elements [THEN conjunct1, rule_format,
      OF fill_v2_pattern_fill_entry, THEN conjunct1]
  show ?thesis
    using fill_v2_pattern_fill_entry r by (intro conjI)
qed


text \<open>
  C7.  The claim: for a version 2 entry \<open>i\<close> whose flags have the pattern fill bit the
  element has the address of the entry as its offset, the size 8, and the flags pattern
  fill and compressed.  The code sets the pattern fill flag inside the test of the
  compressed bit (lines 638-646): this holds for an entry that has both bits.
\<close>

theorem C7_fill_v2_pattern_fill:
  assumes "libewf_chunk_group_fill_v2 hs (Some cl) cs pool (Some sec) n (Some d) t = Inr cl'"
    and "16 * i + 16 \<le> length d"
    and "byte_stream_copy_to_uint32_little_endian d (16 * i + 12) = Inr fl"
    and "fl AND LIBEWF_CHUNK_DATA_FLAG_IS_COMPRESSED \<noteq> 0"
    and "fl AND LIBEWF_CHUNK_DATA_FLAG_USES_PATTERN_FILL \<noteq> 0"
  shows "element_offset (cl' ! (length cl + i)) = start_offset sec + of_nat hs + of_nat (16 * i)
     \<and> element_size (cl' ! (length cl + i)) = 8
     \<and> element_flags (cl' ! (length cl + i)) AND LIBEWF_RANGE_FLAG_USES_PATTERN_FILL \<noteq> 0
     \<and> element_flags (cl' ! (length cl + i)) AND LIBEWF_RANGE_FLAG_IS_COMPRESSED \<noteq> 0"
proof -
  obtain sec' where "Some sec = Some sec'" and len: "length d \<le> SSIZE_MAX"
    using assms(1) by (rule fill_v2_success)
  have i: "i < length d div 16" using assms(2) by simp
  obtain new where "libewf_chunk_group_fill_v2 hs (Some cl) cs pool (Some sec) n (Some d) t
      = Inr (cl @ new)"
    and new: "new ! i = fill_v2_element cs pool t (start_offset sec + of_nat hs + of_nat (16 * i))
             (of_nat i * ucast cs) d (16 * i)"
    using fill_v2_result [OF len, of hs cl cs pool sec n t] i by blast
  then have el: "cl' ! (length cl + i) = fill_v2_element cs pool t
      (start_offset sec + of_nat hs + of_nat (16 * i)) (of_nat i * ucast cs) d (16 * i)"
    using assms(1) by simp
  have fl: "uint32_le d (16 * i + 12) = fl"
    using assms(2,3) by (simp add: byte_stream_copy_to_uint32_eq)
  show ?thesis
    using fill_v2_flags_pattern_fill [OF assms(4,5), of t]
    by (simp add: el fill_v2_element_def Let_def fl)
qed

theorem C7_fill_v2_pattern_fill_witness:
  "16 * 0 + 16 \<le> length [0xad, 0xde, 0, 0, 0, 0, 0, 0, 0, 0x10, 0, 0, 5, 0, 0, 0 :: uint8_t]
   \<and> byte_stream_copy_to_uint32_little_endian
        [0xad, 0xde, 0, 0, 0, 0, 0, 0, 0, 0x10, 0, 0, 5, 0, 0, 0] (16 * 0 + 12) = Inr 5
   \<and> (5 :: uint32_t) AND LIBEWF_CHUNK_DATA_FLAG_IS_COMPRESSED \<noteq> 0
   \<and> (5 :: uint32_t) AND LIBEWF_CHUNK_DATA_FLAG_USES_PATTERN_FILL \<noteq> 0
   \<and> element_offset ([\<lparr>element_file_index = 0, element_offset = 0x1018, element_size = 8,
           element_flags = 0x202, mapped_offset = 0, mapped_size = 0x10000\<rparr>]
         ! (length ([] :: libfdata_list_t) + 0))
       = start_offset \<lparr>start_offset = 0x1000, end_offset = 0x2000, section_size = 0x28\<rparr>
         + of_nat 24 + of_nat (16 * 0)"
proof -
  have h2: "16 * 0 + 16 \<le> length [0xad, 0xde, 0, 0, 0, 0, 0, 0, 0, 0x10, 0, 0, 5, 0, 0, 0 :: uint8_t]"
    by simp
  have h3: "byte_stream_copy_to_uint32_little_endian
        [0xad, 0xde, 0, 0, 0, 0, 0, 0, 0, 0x10, 0, 0, 5, 0, 0, 0] (16 * 0 + 12) = Inr 5"
    by (simp add: codec_defs)
  have h4: "(5 :: uint32_t) AND LIBEWF_CHUNK_DATA_FLAG_IS_COMPRESSED \<noteq> 0"
    by (simp add: flag_defs)
  have h5: "(5 :: uint32_t) AND LIBEWF_CHUNK_DATA_FLAG_USES_PATTERN_FILL \<noteq> 0"
    by (simp add: flag_defs)
  note r = C7_fill_v2_pattern_fill [OF fill_v2_pattern_fill_entry h2 h3 h4 h5, THEN conjunct1]
  show ?thesis
    using h2 h3 h4 h5 r by (intro conjI)
qed


text \<open>
  An entry with the pattern fill bit and without the compressed bit: the element keeps
  the stored offset and size, and has neither flag.
\<close>

theorem C7_pattern_fill_bit_alone_counterexample:
  "libewf_chunk_group_fill_v2 24 (Some []) 0x10000 0
       (Some \<lparr>start_offset = 0x1000, end_offset = 0x2000, section_size = 0x28\<rparr>) 1
       (Some [0xad, 0xde, 0, 0, 0, 0, 0, 0, 0, 0x10, 0, 0, 4, 0, 0, 0]) 0 =
     Inr [\<lparr>element_file_index = 0, element_offset = 0xdead, element_size = 0x1000,
           element_flags = 0, mapped_offset = 0, mapped_size = 0x10000\<rparr>]"
  by (simp add: fill_v2_defs codec_defs list_defs flag_defs SSIZE_MAX_def Let_def)


section \<open>The overflow latch within a pass\<close>

text \<open>
  The states of a pass of fill at the head of its loop: the state in which the loop is
  entered, the first table entry read, and every state that the body of the loop returns
  from one of them while the loop condition holds.  The last of them is the state in which
  the block of the last entry runs.  The same for correct.
\<close>

inductive fill_v1_pass ::
  "size32_t \<Rightarrow> c_int \<Rightarrow> off64_t \<Rightarrow> uint32_t \<Rightarrow> uint8_t list \<Rightarrow> uint8_t \<Rightarrow> libfdata_list_t
     \<Rightarrow> fill_v1_vars \<Rightarrow> bool"
  for cs pool base n d t cl where
    start: "table_entry_v1_chunk_data_offset d 0 = Inr v \<Longrightarrow>
      fill_v1_pass cs pool base n d t cl ((fill_v1_vars_init cl)\<lparr>stored_offset := v\<rparr>)"
  | entry: "fill_v1_pass cs pool base n d t cl s \<Longrightarrow> table_entry_index s < n - 1 \<Longrightarrow>
      fill_v1_loop_body cs pool base d t s = Inr s' \<Longrightarrow>
      fill_v1_pass cs pool base n d t cl s'"

inductive correct_v1_pass ::
  "c_int \<Rightarrow> off64_t \<Rightarrow> uint32_t \<Rightarrow> uint8_t list \<Rightarrow> uint8_t \<Rightarrow> libfdata_list_t
     \<Rightarrow> correct_v1_vars \<Rightarrow> bool"
  for pool base n d t cl where
    start: "table_entry_v1_chunk_data_offset d 0 = Inr v \<Longrightarrow>
      correct_v1_pass pool base n d t cl ((correct_v1_vars_init cl)\<lparr>stored_offset := v\<rparr>)"
  | entry: "correct_v1_pass pool base n d t cl s \<Longrightarrow> table_entry_index s < n - 1 \<Longrightarrow>
      correct_v1_loop_body pool base d t s = Inr s' \<Longrightarrow>
      correct_v1_pass pool base n d t cl s'"

lemma correct_v1_loop_invariant:
  assumes "correct_v1_loop pool base n d t s = Inr s'"
    and "I s"
    and "\<And>s v el. I s \<Longrightarrow> table_entry_index s < n - 1 \<Longrightarrow>
           table_entry_v1_chunk_data_offset d (table_entry_index s + 1) = Inr v \<Longrightarrow>
           libfdata_list_get_element_by_index (chunks_list s) (sint (table_entry_index s))
             = Inr el \<Longrightarrow>
           I (correct_v1_step pool base t v el s)"
  shows "I s' \<and> \<not> table_entry_index s' < n - 1"
  using assms
proof (induction pool base n d t s rule: correct_v1_loop.induct)
  case (1 pool base n d t s)
  show ?case
  proof (cases "table_entry_index s < n - 1")
    case True
    obtain v el where v: "table_entry_v1_chunk_data_offset d (table_entry_index s + 1) = Inr v"
      and el: "libfdata_list_get_element_by_index (chunks_list s) (sint (table_entry_index s))
             = Inr el"
      and body: "correct_v1_loop_body pool base d t s = Inr (correct_v1_step pool base t v el s)"
      and rest: "correct_v1_loop pool base n d t (correct_v1_step pool base t v el s) = Inr s'"
      using "1.prems"(1) True
      by (subst (asm) correct_v1_loop.simps)
        (auto simp: correct_v1_loop_body_eq split: sum.splits)
    have "I (correct_v1_step pool base t v el s)"
      using "1.prems"(3) [OF "1.prems"(2) True v el] .
    then show ?thesis
      using "1.IH" [OF True body rest] "1.prems"(3) by blast
  next
    case False
    then have "s' = s"
      using "1.prems"(1) by (subst (asm) correct_v1_loop.simps) simp
    then show ?thesis using False "1.prems"(2) by simp
  qed
qed

lemma correct_v1_flags_compressed:
  "correct_v1_flags ic co t AND LIBEWF_RANGE_FLAG_IS_COMPRESSED =
     (if ic \<noteq> 0 then LIBEWF_RANGE_FLAG_IS_COMPRESSED else 0)"
  by (simp add: correct_v1_flags_def flag_defs)

lemma fill_v1_pass_latched:
  assumes "fill_v1_pass cs pool base n d t cl s"
  shows "overflow s \<noteq> 0 \<longrightarrow> is_compressed s = 0"
  using assms
proof (induction rule: fill_v1_pass.induct)
  case (start v)
  show ?case by (simp add: fill_v1_vars_init_def)
next
  case (entry s s')
  obtain v where "s' = fill_v1_step cs pool base t v s"
    using entry.hyps(3) by (auto simp: fill_v1_loop_body_eq split: sum.splits)
  then show ?case
    using fill_v1_step_latch_invariant [OF entry.IH] by simp
qed

lemma correct_v1_step_latch_invariant:
  assumes "overflow s \<noteq> 0 \<longrightarrow> is_compressed s = 0"
  shows "overflow (correct_v1_step pool base t v el s) \<noteq> 0 \<longrightarrow>
         is_compressed (correct_v1_step pool base t v el s) = 0"
  using assms by (simp add: correct_v1_step_fields v1_compressed_def)

lemma correct_v1_pass_latched:
  assumes "correct_v1_pass pool base n d t cl s"
  shows "overflow s \<noteq> 0 \<longrightarrow> is_compressed s = 0"
  using assms
proof (induction rule: correct_v1_pass.induct)
  case (start v)
  show ?case by (simp add: correct_v1_vars_init_def)
next
  case (entry s s')
  obtain v el where "s' = correct_v1_step pool base t v el s"
    using entry.hyps(3) by (auto simp: correct_v1_loop_body_eq split: sum.splits)
  then show ?case
    using correct_v1_step_latch_invariant [OF entry.IH] by simp
qed


lemma fill_v1_after_latch:
  assumes ov: "overflow s \<noteq> 0" and ic: "is_compressed s = 0"
    and loop: "fill_v1_loop cs pool base n d t s = Inr s1"
  shows "overflow s1 \<noteq> 0 \<and> is_compressed s1 = 0
     \<and> (\<exists>new. chunks_list s1 = chunks_list s @ new
            \<and> (\<forall>e \<in> set new. element_flags e AND LIBEWF_RANGE_FLAG_IS_COMPRESSED = 0))"
proof -
  let ?I = "\<lambda>x. overflow x \<noteq> 0 \<and> is_compressed x = 0
     \<and> (\<exists>new. chunks_list x = chunks_list s @ new
            \<and> (\<forall>e \<in> set new. element_flags e AND LIBEWF_RANGE_FLAG_IS_COMPRESSED = 0))"
  have "?I s1 \<and> \<not> table_entry_index s1 < n - 1"
  proof (rule fill_v1_loop_invariant [OF loop, of ?I])
    show "?I s" using ov ic by simp
  next
    fix x :: fill_v1_vars and v
    assume I: "?I x"
    then obtain new where new: "chunks_list x = chunks_list s @ new"
      and nc: "\<forall>e \<in> set new. element_flags e AND LIBEWF_RANGE_FLAG_IS_COMPRESSED = 0"
      by blast
    have "overflow (fill_v1_step cs pool base t v x) \<noteq> 0"
      using I by (simp add: fill_v1_step_overflow)
    moreover have "is_compressed (fill_v1_step cs pool base t v x) = 0"
      using I by (simp add: fill_v1_step_is_compressed v1_compressed_def)
    moreover have "\<exists>new'. chunks_list (fill_v1_step cs pool base t v x) = chunks_list s @ new'
        \<and> (\<forall>e \<in> set new'. element_flags e AND LIBEWF_RANGE_FLAG_IS_COMPRESSED = 0)"
      using I nc
      by (simp add: fill_v1_step_chunks_list new v1_compressed_def fill_v1_flags_compressed)
    ultimately show "?I (fill_v1_step cs pool base t v x)" by blast
  qed
  then show ?thesis by blast
qed

lemma fill_v1_last_after_latch:
  assumes ov: "overflow s \<noteq> 0" and ic: "is_compressed s = 0"
    and last: "fill_v1_last cs pool sec base d t s = Inr s2"
  shows "\<exists>e. chunks_list s2 = chunks_list s @ [e]
     \<and> element_flags e AND LIBEWF_RANGE_FLAG_IS_COMPRESSED = 0"
proof -
  obtain v where "s2 = fill_v1_last_step cs pool sec base t v s"
    using last by (auto simp: fill_v1_last_eq split: sum.splits)
  then show ?thesis
    using ov ic
    by (simp add: fill_v1_last_step_chunks_list v1_compressed_def fill_v1_flags_compressed)
qed

lemma list_update_flags:
  assumes "k < length xs" and "element_flags e AND c = 0"
  shows "xs[i := e] ! k = xs ! k \<or> element_flags (xs[i := e] ! k) AND c = (0 :: uint32_t)"
  using assms by (cases "k = i") simp_all

lemma correct_v1_compared_chunks_list:
  assumes "range_flags s AND LIBEWF_RANGE_FLAG_IS_COMPRESSED = 0"
  shows "length (chunks_list (correct_v1_compared pool base t el s)) = length (chunks_list s)
     \<and> (\<forall>k < length (chunks_list s).
           chunks_list (correct_v1_compared pool base t el s) ! k = chunks_list s ! k
           \<or> element_flags (chunks_list (correct_v1_compared pool base t el s) ! k)
                AND LIBEWF_RANGE_FLAG_IS_COMPRESSED = 0)"
  using assms by (simp add: correct_v1_compared_def Let_def list_update_flags)

lemma correct_v1_step_chunks_list:
  assumes "overflow s \<noteq> 0" and "is_compressed s = 0"
  shows "length (chunks_list (correct_v1_step pool base t v el s)) = length (chunks_list s)
     \<and> (\<forall>k < length (chunks_list s).
           chunks_list (correct_v1_step pool base t v el s) ! k = chunks_list s ! k
           \<or> element_flags (chunks_list (correct_v1_step pool base t v el s) ! k)
                AND LIBEWF_RANGE_FLAG_IS_COMPRESSED = 0)"
proof -
  have "range_flags (correct_v1_decoded t v s) AND LIBEWF_RANGE_FLAG_IS_COMPRESSED = 0"
    using assms
    by (simp add: correct_v1_decoded_def Let_def v1_compressed_def correct_v1_flags_compressed)
  from correct_v1_compared_chunks_list [OF this, of pool base t el]
  show ?thesis
    by (simp add: correct_v1_step_def correct_v1_latched_def)
qed

lemma correct_v1_after_latch:
  assumes ov: "overflow s \<noteq> 0" and ic: "is_compressed s = 0"
    and loop: "correct_v1_loop pool base n d t s = Inr s1"
  shows "overflow s1 \<noteq> 0 \<and> is_compressed s1 = 0
     \<and> length (chunks_list s1) = length (chunks_list s)
     \<and> (\<forall>k < length (chunks_list s). chunks_list s1 ! k = chunks_list s ! k
           \<or> element_flags (chunks_list s1 ! k) AND LIBEWF_RANGE_FLAG_IS_COMPRESSED = 0)"
proof -
  let ?I = "\<lambda>x. overflow x \<noteq> 0 \<and> is_compressed x = 0
     \<and> length (chunks_list x) = length (chunks_list s)
     \<and> (\<forall>k < length (chunks_list s). chunks_list x ! k = chunks_list s ! k
           \<or> element_flags (chunks_list x ! k) AND LIBEWF_RANGE_FLAG_IS_COMPRESSED = 0)"
  have "?I s1 \<and> \<not> table_entry_index s1 < n - 1"
  proof (rule correct_v1_loop_invariant [OF loop, of ?I])
    show "?I s" using ov ic by simp
  next
    fix x :: correct_v1_vars and v el
    assume I: "?I x"
    note st = correct_v1_step_chunks_list [of x pool base t v el]
    have "overflow (correct_v1_step pool base t v el x) \<noteq> 0"
      using I by (simp add: correct_v1_step_fields)
    moreover have "is_compressed (correct_v1_step pool base t v el x) = 0"
      using I by (simp add: correct_v1_step_fields v1_compressed_def)
    moreover have "length (chunks_list (correct_v1_step pool base t v el x))
        = length (chunks_list s)"
      using I st by simp
    moreover have "chunks_list (correct_v1_step pool base t v el x) ! k = chunks_list s ! k
        \<or> element_flags (chunks_list (correct_v1_step pool base t v el x) ! k)
             AND LIBEWF_RANGE_FLAG_IS_COMPRESSED = 0" if "k < length (chunks_list s)" for k
      using I st that by (metis (no_types, lifting))
    ultimately show "?I (correct_v1_step pool base t v el x)" by blast
  qed
  then show ?thesis by blast
qed

lemma correct_v1_last_after_latch:
  assumes ov: "overflow s \<noteq> 0" and ic: "is_compressed s = 0"
    and last: "correct_v1_last pool sec base d t s = Inr s2"
  shows "length (chunks_list s2) = length (chunks_list s)
     \<and> (\<forall>k < length (chunks_list s). chunks_list s2 ! k = chunks_list s ! k
           \<or> element_flags (chunks_list s2 ! k) AND LIBEWF_RANGE_FLAG_IS_COMPRESSED = 0)"
proof -
  obtain v el where s2: "s2 = correct_v1_compared pool base t el
      (correct_v1_last_decoded sec base t v s)"
    using last by (auto simp: correct_v1_last_eq split: sum.splits)
  have "range_flags (correct_v1_last_decoded sec base t v s)
      AND LIBEWF_RANGE_FLAG_IS_COMPRESSED = 0"
    using ov ic
    by (simp add: correct_v1_last_decoded_def Let_def v1_compressed_def
        correct_v1_flags_compressed)
  from correct_v1_compared_chunks_list [OF this, of pool base t el]
  show ?thesis by (simp add: s2)
qed


lemma fill_v1_pass_loop:
  assumes "fill_v1_pass cs pool base n d t cl s"
  shows "\<exists>v. table_entry_v1_chunk_data_offset d 0 = Inr v
     \<and> fill_v1_loop cs pool base n d t ((fill_v1_vars_init cl)\<lparr>stored_offset := v\<rparr>)
         = fill_v1_loop cs pool base n d t s"
  using assms
proof (induction rule: fill_v1_pass.induct)
  case (start v)
  then show ?case by simp
next
  case (entry s s')
  have "fill_v1_loop cs pool base n d t s = fill_v1_loop cs pool base n d t s'"
    using entry.hyps(2,3) by (subst fill_v1_loop.simps) simp
  then show ?case using entry.IH by simp
qed

lemma correct_v1_pass_loop:
  assumes "correct_v1_pass pool base n d t cl s"
  shows "\<exists>v. table_entry_v1_chunk_data_offset d 0 = Inr v
     \<and> correct_v1_loop pool base n d t ((correct_v1_vars_init cl)\<lparr>stored_offset := v\<rparr>)
         = correct_v1_loop pool base n d t s"
  using assms
proof (induction rule: correct_v1_pass.induct)
  case (start v)
  then show ?case by simp
next
  case (entry s s')
  have "correct_v1_loop pool base n d t s = correct_v1_loop pool base n d t s'"
    using entry.hyps(2,3) by (subst correct_v1_loop.simps) simp
  then show ?case using entry.IH by simp
qed

lemma correct_v1_unfold:
  assumes "\<not> base <s 0" and "length d \<le> SSIZE_MAX"
  shows "libewf_chunk_group_correct_v1 (Some cl) cs pool (Some sec) base n (Some d) t =
     (case table_entry_v1_chunk_data_offset d 0 of
        Inl e \<Rightarrow> Inl e
      | Inr v \<Rightarrow>
          (case correct_v1_loop pool base n d t ((correct_v1_vars_init cl)\<lparr>stored_offset := v\<rparr>) of
             Inl e \<Rightarrow> Inl e
           | Inr s \<Rightarrow>
               (case correct_v1_last pool sec base d t s of
                  Inl e \<Rightarrow> Inl e
                | Inr s \<Rightarrow> Inr (chunks_list s))))"
proof -
  have "table_entry_index (correct_v1_vars_init cl) = 0"
    by (simp add: correct_v1_vars_init_def)
  then show ?thesis
    using assms by (simp add: libewf_chunk_group_correct_v1_def Let_def)
qed

lemma correct_v1_success:
  assumes "libewf_chunk_group_correct_v1 (Some cl) cs pool secp base n (Some d) t = Inr cl'"
  obtains sec v s1 s2 where "secp = Some sec" and "\<not> base <s 0" and "length d \<le> SSIZE_MAX"
    and "table_entry_v1_chunk_data_offset d 0 = Inr v"
    and "correct_v1_loop pool base n d t ((correct_v1_vars_init cl)\<lparr>stored_offset := v\<rparr>) = Inr s1"
    and "correct_v1_last pool sec base d t s1 = Inr s2"
    and "cl' = chunks_list s2"
proof -
  obtain sec where sec: "secp = Some sec" and base: "\<not> base <s 0"
    and len: "length d \<le> SSIZE_MAX"
    using assms by (auto simp: libewf_chunk_group_correct_v1_def split: option.splits if_splits)
  show ?thesis
    using assms that [OF sec base len]
    by (auto simp: sec correct_v1_unfold [OF base len] split: sum.splits)
qed

lemma fill_v1_after_overflow:
  assumes pass: "fill_v1_pass cs pool base n d t cl s" and ov: "overflow s \<noteq> 0"
    and res: "libewf_chunk_group_fill_v1 (Some cl) cs pool secp base n (Some d) t = Inr cl'"
  shows "\<exists>new. cl' = chunks_list s @ new
     \<and> (\<forall>e \<in> set new. element_flags e AND LIBEWF_RANGE_FLAG_IS_COMPRESSED = 0)"
proof -
  from res obtain sec v s1 s2 where v: "table_entry_v1_chunk_data_offset d 0 = Inr v"
    and loop: "fill_v1_loop cs pool base n d t ((fill_v1_vars_init cl)\<lparr>stored_offset := v\<rparr>)
        = Inr s1"
    and last: "fill_v1_last cs pool sec base d t s1 = Inr s2"
    and cl': "cl' = chunks_list s2"
    by (rule fill_v1_success)
  have loop': "fill_v1_loop cs pool base n d t s = Inr s1"
    using fill_v1_pass_loop [OF pass] v loop by auto
  have ic: "is_compressed s = 0"
    using fill_v1_pass_latched [OF pass] ov by simp
  from fill_v1_after_latch [OF ov ic loop']
  obtain new where s1: "overflow s1 \<noteq> 0" "is_compressed s1 = 0"
    "chunks_list s1 = chunks_list s @ new"
    "\<forall>e \<in> set new. element_flags e AND LIBEWF_RANGE_FLAG_IS_COMPRESSED = 0"
    by blast
  from fill_v1_last_after_latch [OF s1(1,2) last]
  obtain e where e: "chunks_list s2 = chunks_list s1 @ [e]"
    "element_flags e AND LIBEWF_RANGE_FLAG_IS_COMPRESSED = 0"
    by blast
  have "cl' = chunks_list s @ (new @ [e])"
    using cl' e(1) s1(3) by simp
  moreover have "\<forall>x \<in> set (new @ [e]). element_flags x AND LIBEWF_RANGE_FLAG_IS_COMPRESSED = 0"
    using s1(4) e(2) by simp
  ultimately show ?thesis by blast
qed

lemma correct_v1_after_overflow:
  assumes pass: "correct_v1_pass pool base n d t cl s" and ov: "overflow s \<noteq> 0"
    and res: "libewf_chunk_group_correct_v1 (Some cl) cs pool secp base n (Some d) t = Inr cl'"
  shows "length cl' = length (chunks_list s)
     \<and> (\<forall>k < length (chunks_list s). cl' ! k = chunks_list s ! k
           \<or> element_flags (cl' ! k) AND LIBEWF_RANGE_FLAG_IS_COMPRESSED = 0)"
proof -
  from res obtain sec v s1 s2 where v: "table_entry_v1_chunk_data_offset d 0 = Inr v"
    and loop: "correct_v1_loop pool base n d t ((correct_v1_vars_init cl)\<lparr>stored_offset := v\<rparr>)
        = Inr s1"
    and last: "correct_v1_last pool sec base d t s1 = Inr s2"
    and cl': "cl' = chunks_list s2"
    by (rule correct_v1_success)
  have loop': "correct_v1_loop pool base n d t s = Inr s1"
    using correct_v1_pass_loop [OF pass] v loop by auto
  have ic: "is_compressed s = 0"
    using correct_v1_pass_latched [OF pass] ov by simp
  note a = correct_v1_after_latch [OF ov ic loop']
  then have s1: "overflow s1 \<noteq> 0" "is_compressed s1 = 0" by simp_all
  note b = correct_v1_last_after_latch [OF s1 last]
  have "length cl' = length (chunks_list s)"
    using a b cl' by simp
  moreover have "cl' ! k = chunks_list s ! k
      \<or> element_flags (cl' ! k) AND LIBEWF_RANGE_FLAG_IS_COMPRESSED = 0"
    if "k < length (chunks_list s)" for k
  proof -
    have k1: "k < length (chunks_list s1)" using a that by simp
    have "chunks_list s2 ! k = chunks_list s1 ! k
      \<or> element_flags (chunks_list s2 ! k) AND LIBEWF_RANGE_FLAG_IS_COMPRESSED = 0"
      using b k1 by blast
    moreover have "chunks_list s1 ! k = chunks_list s ! k
      \<or> element_flags (chunks_list s1 ! k) AND LIBEWF_RANGE_FLAG_IS_COMPRESSED = 0"
      using a that by blast
    ultimately show ?thesis using cl' by metis
  qed
  ultimately show ?thesis by blast
qed

lemma fill_v1_last_overflow:
  assumes "fill_v1_last cs pool sec base d t s = Inr s2"
  shows "overflow s2 = overflow s"
  using assms by (auto simp: fill_v1_last_eq fill_v1_last_step_def Let_def split: sum.splits)

lemma correct_v1_last_overflow:
  assumes "correct_v1_last pool sec base d t s = Inr s2"
  shows "overflow s2 = overflow s"
  using assms
  by (auto simp: correct_v1_last_eq correct_v1_last_decoded_def Let_def split: sum.splits)

text \<open>
  C3.  The claim: in every pass of fill or correct over version 1 entries the overflow
  flag, once set, is never cleared, and no element appended or written after it is set,
  the one of the last entry included, has the compressed flag.  From a state of the pass
  with the flag set, the body of the loop and the block of the last entry leave it set.
  The elements that fill appends after that state are those of its result beyond the
  length of the list in that state: none has the compressed flag.  Correct appends nothing:
  every element of its result is the element the list had in that state, or has been written
  since, without the compressed flag.
\<close>

theorem C3_overflow_latch_stays_set_and_clears_compressed:
  "(fill_v1_pass cs pool base n d t cl s \<and> overflow s \<noteq> 0 \<longrightarrow>
      (fill_v1_loop_body cs pool base d t s = Inr s' \<longrightarrow> overflow s' \<noteq> 0)
    \<and> (fill_v1_last cs pool sec base d t s = Inr s' \<longrightarrow> overflow s' \<noteq> 0)
    \<and> (libewf_chunk_group_fill_v1 (Some cl) cs pool secp base n (Some d) t = Inr cl' \<longrightarrow>
         (\<forall>e \<in> set (drop (length (chunks_list s)) cl').
            element_flags e AND LIBEWF_RANGE_FLAG_IS_COMPRESSED = 0)))
   \<and> (correct_v1_pass pool base n d t il c \<and> overflow c \<noteq> 0 \<longrightarrow>
      (correct_v1_loop_body pool base d t c = Inr c' \<longrightarrow> overflow c' \<noteq> 0)
    \<and> (correct_v1_last pool sec base d t c = Inr c' \<longrightarrow> overflow c' \<noteq> 0)
    \<and> (libewf_chunk_group_correct_v1 (Some il) cs pool secp base n (Some d) t = Inr il' \<longrightarrow>
         length il' = length (chunks_list c)
         \<and> (\<forall>k < length (chunks_list c). il' ! k = chunks_list c ! k
               \<or> element_flags (il' ! k) AND LIBEWF_RANGE_FLAG_IS_COMPRESSED = 0)))"
proof (intro conjI impI)
  assume a: "fill_v1_pass cs pool base n d t cl s \<and> overflow s \<noteq> 0"
  {
    assume "fill_v1_loop_body cs pool base d t s = Inr s'"
    then obtain v where "s' = fill_v1_step cs pool base t v s"
      by (auto simp: fill_v1_loop_body_eq split: sum.splits)
    then show "overflow s' \<noteq> 0"
      using a by (simp add: fill_v1_step_overflow)
  }
  {
    assume "fill_v1_last cs pool sec base d t s = Inr s'"
    then show "overflow s' \<noteq> 0"
      using a fill_v1_last_overflow by simp
  }
  {
    assume "libewf_chunk_group_fill_v1 (Some cl) cs pool secp base n (Some d) t = Inr cl'"
    from fill_v1_after_overflow [OF _ _ this, of s] a
    show "\<forall>e \<in> set (drop (length (chunks_list s)) cl').
            element_flags e AND LIBEWF_RANGE_FLAG_IS_COMPRESSED = 0"
      by auto
  }
next
  assume a: "correct_v1_pass pool base n d t il c \<and> overflow c \<noteq> 0"
  {
    assume "correct_v1_loop_body pool base d t c = Inr c'"
    then obtain v el where "c' = correct_v1_step pool base t v el c"
      by (auto simp: correct_v1_loop_body_eq split: sum.splits)
    then show "overflow c' \<noteq> 0"
      using a by (simp add: correct_v1_step_fields)
  }
  {
    assume "correct_v1_last pool sec base d t c = Inr c'"
    then show "overflow c' \<noteq> 0"
      using a correct_v1_last_overflow by simp
  }
  {
    assume r: "libewf_chunk_group_correct_v1 (Some il) cs pool secp base n (Some d) t = Inr il'"
    from correct_v1_after_overflow [OF _ _ r, of c] a
    show "length il' = length (chunks_list c)"
      by blast
    from correct_v1_after_overflow [OF _ _ r, of c] a
    show "\<forall>k < length (chunks_list c). il' ! k = chunks_list c ! k
               \<or> element_flags (il' ! k) AND LIBEWF_RANGE_FLAG_IS_COMPRESSED = 0"
      by blast
  }
qed


theorem C3_overflow_latch_stays_set_and_clears_compressed_witness:
  "fill_v1_pass 0x10000 0 0 3 [0, 0, 0, 0x40, 0, 0, 0, 0x80, 0, 0, 0, 0x90] 0 [] (fill_v1_step 0x10000 0 0 0 0x80000000 ((fill_v1_vars_init [])\<lparr>stored_offset := 0x40000000\<rparr>))
   \<and> overflow (fill_v1_step 0x10000 0 0 0 0x80000000 ((fill_v1_vars_init [])\<lparr>stored_offset := 0x40000000\<rparr>)) \<noteq> 0
   \<and> fill_v1_loop_body 0x10000 0 0 [0, 0, 0, 0x40, 0, 0, 0, 0x80, 0, 0, 0, 0x90] 0 (fill_v1_step 0x10000 0 0 0 0x80000000 ((fill_v1_vars_init [])\<lparr>stored_offset := 0x40000000\<rparr>))
      = Inr (fill_v1_step 0x10000 0 0 0 0x90000000 (fill_v1_step 0x10000 0 0 0 0x80000000 ((fill_v1_vars_init [])\<lparr>stored_offset := 0x40000000\<rparr>)))
   \<and> libewf_chunk_group_fill_v1 (Some []) 0x10000 0 (Some \<lparr>start_offset = 0xa0000000, end_offset = 0xa0000100, section_size = 0\<rparr>) 0 3
        (Some [0, 0, 0, 0x40, 0, 0, 0, 0x80, 0, 0, 0, 0x90]) 0 =
      Inr [\<lparr>element_file_index = 0, element_offset = 0x40000000, element_size = 0x40000000,
          element_flags = 0x100, mapped_offset = 0, mapped_size = 0x10000\<rparr>,
        \<lparr>element_file_index = 0, element_offset = 0x80000000, element_size = 0x10000000,
          element_flags = 0x100, mapped_offset = 0x10000, mapped_size = 0x10000\<rparr>,
        \<lparr>element_file_index = 0, element_offset = 0x90000000, element_size = 0x10000000,
          element_flags = 0x100, mapped_offset = 0x20000, mapped_size = 0x10000\<rparr>]
   \<and> overflow (fill_v1_step 0x10000 0 0 0 0x90000000 (fill_v1_step 0x10000 0 0 0 0x80000000 ((fill_v1_vars_init [])\<lparr>stored_offset := 0x40000000\<rparr>))) \<noteq> 0
   \<and> list_all (\<lambda>e. element_flags e AND LIBEWF_RANGE_FLAG_IS_COMPRESSED = 0)
        (drop (length (chunks_list (fill_v1_step 0x10000 0 0 0 0x80000000 ((fill_v1_vars_init [])\<lparr>stored_offset := 0x40000000\<rparr>))))
          [\<lparr>element_file_index = 0, element_offset = 0x40000000, element_size = 0x40000000,
          element_flags = 0x100, mapped_offset = 0, mapped_size = 0x10000\<rparr>,
        \<lparr>element_file_index = 0, element_offset = 0x80000000, element_size = 0x10000000,
          element_flags = 0x100, mapped_offset = 0x10000, mapped_size = 0x10000\<rparr>,
        \<lparr>element_file_index = 0, element_offset = 0x90000000, element_size = 0x10000000,
          element_flags = 0x100, mapped_offset = 0x20000, mapped_size = 0x10000\<rparr>])
   \<and> correct_v1_pass 0 0 3 [0, 0, 0, 0x40, 0, 0, 0, 0x80, 0, 0, 0, 0x90] 0 [\<lparr>element_file_index = 0, element_offset = 0, element_size = 0,
            element_flags = 0x2, mapped_offset = 0, mapped_size = 0\<rparr>, \<lparr>element_file_index = 0, element_offset = 0, element_size = 0,
            element_flags = 0x2, mapped_offset = 0, mapped_size = 0\<rparr>, \<lparr>element_file_index = 0, element_offset = 0, element_size = 0,
            element_flags = 0x2, mapped_offset = 0, mapped_size = 0\<rparr>] (correct_v1_step 0 0 0 0x80000000 \<lparr>element_file_index = 0, element_offset = 0, element_size = 0,
            element_flags = 0x2, mapped_offset = 0, mapped_size = 0\<rparr> ((correct_v1_vars_init [\<lparr>element_file_index = 0, element_offset = 0, element_size = 0,
            element_flags = 0x2, mapped_offset = 0, mapped_size = 0\<rparr>, \<lparr>element_file_index = 0, element_offset = 0, element_size = 0,
            element_flags = 0x2, mapped_offset = 0, mapped_size = 0\<rparr>, \<lparr>element_file_index = 0, element_offset = 0, element_size = 0,
            element_flags = 0x2, mapped_offset = 0, mapped_size = 0\<rparr>])\<lparr>stored_offset := 0x40000000\<rparr>))
   \<and> overflow (correct_v1_step 0 0 0 0x80000000 \<lparr>element_file_index = 0, element_offset = 0, element_size = 0,
            element_flags = 0x2, mapped_offset = 0, mapped_size = 0\<rparr> ((correct_v1_vars_init [\<lparr>element_file_index = 0, element_offset = 0, element_size = 0,
            element_flags = 0x2, mapped_offset = 0, mapped_size = 0\<rparr>, \<lparr>element_file_index = 0, element_offset = 0, element_size = 0,
            element_flags = 0x2, mapped_offset = 0, mapped_size = 0\<rparr>, \<lparr>element_file_index = 0, element_offset = 0, element_size = 0,
            element_flags = 0x2, mapped_offset = 0, mapped_size = 0\<rparr>])\<lparr>stored_offset := 0x40000000\<rparr>)) \<noteq> 0
   \<and> libewf_chunk_group_correct_v1 (Some [\<lparr>element_file_index = 0, element_offset = 0, element_size = 0,
            element_flags = 0x2, mapped_offset = 0, mapped_size = 0\<rparr>, \<lparr>element_file_index = 0, element_offset = 0, element_size = 0,
            element_flags = 0x2, mapped_offset = 0, mapped_size = 0\<rparr>, \<lparr>element_file_index = 0, element_offset = 0, element_size = 0,
            element_flags = 0x2, mapped_offset = 0, mapped_size = 0\<rparr>]) 0x10000 0 (Some \<lparr>start_offset = 0xa0000000, end_offset = 0xa0000100, section_size = 0\<rparr>) 0 3
        (Some [0, 0, 0, 0x40, 0, 0, 0, 0x80, 0, 0, 0, 0x90]) 0 =
      Inr [\<lparr>element_file_index = 0, element_offset = 0x40000000, element_size = 0x40000000,
          element_flags = 0x100, mapped_offset = 0, mapped_size = 0\<rparr>,
        \<lparr>element_file_index = 0, element_offset = 0x80000000, element_size = 0x10000000,
          element_flags = 0x100, mapped_offset = 0, mapped_size = 0\<rparr>,
        \<lparr>element_file_index = 0, element_offset = 0x90000000, element_size = 0x10000000,
          element_flags = 0x100, mapped_offset = 0, mapped_size = 0\<rparr>]
   \<and> length ([\<lparr>element_file_index = 0, element_offset = 0x40000000, element_size = 0x40000000,
          element_flags = 0x100, mapped_offset = 0, mapped_size = 0\<rparr>,
        \<lparr>element_file_index = 0, element_offset = 0x80000000, element_size = 0x10000000,
          element_flags = 0x100, mapped_offset = 0, mapped_size = 0\<rparr>,
        \<lparr>element_file_index = 0, element_offset = 0x90000000, element_size = 0x10000000,
          element_flags = 0x100, mapped_offset = 0, mapped_size = 0\<rparr>] :: libfdata_list_t) = length (chunks_list (correct_v1_step 0 0 0 0x80000000 \<lparr>element_file_index = 0, element_offset = 0, element_size = 0,
            element_flags = 0x2, mapped_offset = 0, mapped_size = 0\<rparr> ((correct_v1_vars_init [\<lparr>element_file_index = 0, element_offset = 0, element_size = 0,
            element_flags = 0x2, mapped_offset = 0, mapped_size = 0\<rparr>, \<lparr>element_file_index = 0, element_offset = 0, element_size = 0,
            element_flags = 0x2, mapped_offset = 0, mapped_size = 0\<rparr>, \<lparr>element_file_index = 0, element_offset = 0, element_size = 0,
            element_flags = 0x2, mapped_offset = 0, mapped_size = 0\<rparr>])\<lparr>stored_offset := 0x40000000\<rparr>)))"
proof -
  have r0: "table_entry_v1_chunk_data_offset [0, 0, 0, 0x40, 0, 0, 0, 0x80, 0, 0, 0, 0x90] 0 = Inr 0x40000000"
    by (simp add: codec_defs)
  have b0: "fill_v1_loop_body 0x10000 0 0 [0, 0, 0, 0x40, 0, 0, 0, 0x80, 0, 0, 0, 0x90] 0 ((fill_v1_vars_init [])\<lparr>stored_offset := 0x40000000\<rparr>)
      = Inr (fill_v1_step 0x10000 0 0 0 0x80000000 ((fill_v1_vars_init [])\<lparr>stored_offset := 0x40000000\<rparr>))"
    by (simp add: fill_v1_loop_body_eq fill_v1_vars_init_def codec_defs)
  have i0: "table_entry_index ((fill_v1_vars_init [])\<lparr>stored_offset := 0x40000000\<rparr>) < 3 - 1"
    by (simp add: fill_v1_vars_init_def)
  have h1: "fill_v1_pass 0x10000 0 0 3 [0, 0, 0, 0x40, 0, 0, 0, 0x80, 0, 0, 0, 0x90] 0 [] (fill_v1_step 0x10000 0 0 0 0x80000000 ((fill_v1_vars_init [])\<lparr>stored_offset := 0x40000000\<rparr>))"
    by (rule fill_v1_pass.entry [OF fill_v1_pass.start [OF r0] i0 b0])
  have h2: "overflow (fill_v1_step 0x10000 0 0 0 0x80000000 ((fill_v1_vars_init [])\<lparr>stored_offset := 0x40000000\<rparr>)) \<noteq> 0"
    by (simp add: fill_v1_step_overflow fill_v1_vars_init_def v1_latch_def v1_current_def
        v1_size_def INT32_MAX_def)
  have h3: "fill_v1_loop_body 0x10000 0 0 [0, 0, 0, 0x40, 0, 0, 0, 0x80, 0, 0, 0, 0x90] 0 (fill_v1_step 0x10000 0 0 0 0x80000000 ((fill_v1_vars_init [])\<lparr>stored_offset := 0x40000000\<rparr>))
      = Inr (fill_v1_step 0x10000 0 0 0 0x90000000 (fill_v1_step 0x10000 0 0 0 0x80000000 ((fill_v1_vars_init [])\<lparr>stored_offset := 0x40000000\<rparr>)))"
    by (simp add: fill_v1_loop_body_eq fill_v1_vars_init_def codec_defs)
  have h4: "libewf_chunk_group_fill_v1 (Some []) 0x10000 0 (Some \<lparr>start_offset = 0xa0000000, end_offset = 0xa0000100, section_size = 0\<rparr>) 0 3
        (Some [0, 0, 0, 0x40, 0, 0, 0, 0x80, 0, 0, 0, 0x90]) 0 =
      Inr [\<lparr>element_file_index = 0, element_offset = 0x40000000, element_size = 0x40000000,
          element_flags = 0x100, mapped_offset = 0, mapped_size = 0x10000\<rparr>,
        \<lparr>element_file_index = 0, element_offset = 0x80000000, element_size = 0x10000000,
          element_flags = 0x100, mapped_offset = 0x10000, mapped_size = 0x10000\<rparr>,
        \<lparr>element_file_index = 0, element_offset = 0x90000000, element_size = 0x10000000,
          element_flags = 0x100, mapped_offset = 0x20000, mapped_size = 0x10000\<rparr>]"
    by (simp add: fill_v1_unfold fill_v1_loop.simps fill_v1_loop_body_eq fill_v1_last_eq
        fill_v1_step_def fill_v1_last_step_def fill_v1_vars_init_def
        v1_current_def v1_compressed_def v1_size_def v1_corrupted_def v1_latch_def
        fill_v1_flags_def v1_last_size_def v1_last_corrupted_def
        INT32_MAX_def SSIZE_MAX_def codec_defs flag_defs Let_def
        word_sless_alt word_sle_eq)
  have cb0: "correct_v1_loop_body 0 0 [0, 0, 0, 0x40, 0, 0, 0, 0x80, 0, 0, 0, 0x90] 0 ((correct_v1_vars_init [\<lparr>element_file_index = 0, element_offset = 0, element_size = 0,
            element_flags = 0x2, mapped_offset = 0, mapped_size = 0\<rparr>, \<lparr>element_file_index = 0, element_offset = 0, element_size = 0,
            element_flags = 0x2, mapped_offset = 0, mapped_size = 0\<rparr>, \<lparr>element_file_index = 0, element_offset = 0, element_size = 0,
            element_flags = 0x2, mapped_offset = 0, mapped_size = 0\<rparr>])\<lparr>stored_offset := 0x40000000\<rparr>)
      = Inr (correct_v1_step 0 0 0 0x80000000 \<lparr>element_file_index = 0, element_offset = 0, element_size = 0,
            element_flags = 0x2, mapped_offset = 0, mapped_size = 0\<rparr> ((correct_v1_vars_init [\<lparr>element_file_index = 0, element_offset = 0, element_size = 0,
            element_flags = 0x2, mapped_offset = 0, mapped_size = 0\<rparr>, \<lparr>element_file_index = 0, element_offset = 0, element_size = 0,
            element_flags = 0x2, mapped_offset = 0, mapped_size = 0\<rparr>, \<lparr>element_file_index = 0, element_offset = 0, element_size = 0,
            element_flags = 0x2, mapped_offset = 0, mapped_size = 0\<rparr>])\<lparr>stored_offset := 0x40000000\<rparr>))"
    by (simp add: correct_v1_loop_body_eq correct_v1_vars_init_def codec_defs list_defs)
  have ci0: "table_entry_index ((correct_v1_vars_init [\<lparr>element_file_index = 0, element_offset = 0, element_size = 0,
            element_flags = 0x2, mapped_offset = 0, mapped_size = 0\<rparr>, \<lparr>element_file_index = 0, element_offset = 0, element_size = 0,
            element_flags = 0x2, mapped_offset = 0, mapped_size = 0\<rparr>, \<lparr>element_file_index = 0, element_offset = 0, element_size = 0,
            element_flags = 0x2, mapped_offset = 0, mapped_size = 0\<rparr>])\<lparr>stored_offset := 0x40000000\<rparr>) < 3 - 1"
    by (simp add: correct_v1_vars_init_def)
  have g1: "correct_v1_pass 0 0 3 [0, 0, 0, 0x40, 0, 0, 0, 0x80, 0, 0, 0, 0x90] 0 [\<lparr>element_file_index = 0, element_offset = 0, element_size = 0,
            element_flags = 0x2, mapped_offset = 0, mapped_size = 0\<rparr>, \<lparr>element_file_index = 0, element_offset = 0, element_size = 0,
            element_flags = 0x2, mapped_offset = 0, mapped_size = 0\<rparr>, \<lparr>element_file_index = 0, element_offset = 0, element_size = 0,
            element_flags = 0x2, mapped_offset = 0, mapped_size = 0\<rparr>] (correct_v1_step 0 0 0 0x80000000 \<lparr>element_file_index = 0, element_offset = 0, element_size = 0,
            element_flags = 0x2, mapped_offset = 0, mapped_size = 0\<rparr> ((correct_v1_vars_init [\<lparr>element_file_index = 0, element_offset = 0, element_size = 0,
            element_flags = 0x2, mapped_offset = 0, mapped_size = 0\<rparr>, \<lparr>element_file_index = 0, element_offset = 0, element_size = 0,
            element_flags = 0x2, mapped_offset = 0, mapped_size = 0\<rparr>, \<lparr>element_file_index = 0, element_offset = 0, element_size = 0,
            element_flags = 0x2, mapped_offset = 0, mapped_size = 0\<rparr>])\<lparr>stored_offset := 0x40000000\<rparr>))"
    by (rule correct_v1_pass.entry [OF correct_v1_pass.start [OF r0] ci0 cb0])
  have g2: "overflow (correct_v1_step 0 0 0 0x80000000 \<lparr>element_file_index = 0, element_offset = 0, element_size = 0,
            element_flags = 0x2, mapped_offset = 0, mapped_size = 0\<rparr> ((correct_v1_vars_init [\<lparr>element_file_index = 0, element_offset = 0, element_size = 0,
            element_flags = 0x2, mapped_offset = 0, mapped_size = 0\<rparr>, \<lparr>element_file_index = 0, element_offset = 0, element_size = 0,
            element_flags = 0x2, mapped_offset = 0, mapped_size = 0\<rparr>, \<lparr>element_file_index = 0, element_offset = 0, element_size = 0,
            element_flags = 0x2, mapped_offset = 0, mapped_size = 0\<rparr>])\<lparr>stored_offset := 0x40000000\<rparr>)) \<noteq> 0"
    by (simp add: correct_v1_step_fields correct_v1_vars_init_def v1_latch_def v1_current_def
        v1_size_def INT32_MAX_def)
  have g3: "libewf_chunk_group_correct_v1 (Some [\<lparr>element_file_index = 0, element_offset = 0, element_size = 0,
            element_flags = 0x2, mapped_offset = 0, mapped_size = 0\<rparr>, \<lparr>element_file_index = 0, element_offset = 0, element_size = 0,
            element_flags = 0x2, mapped_offset = 0, mapped_size = 0\<rparr>, \<lparr>element_file_index = 0, element_offset = 0, element_size = 0,
            element_flags = 0x2, mapped_offset = 0, mapped_size = 0\<rparr>]) 0x10000 0 (Some \<lparr>start_offset = 0xa0000000, end_offset = 0xa0000100, section_size = 0\<rparr>) 0 3
        (Some [0, 0, 0, 0x40, 0, 0, 0, 0x80, 0, 0, 0, 0x90]) 0 =
      Inr [\<lparr>element_file_index = 0, element_offset = 0x40000000, element_size = 0x40000000,
          element_flags = 0x100, mapped_offset = 0, mapped_size = 0\<rparr>,
        \<lparr>element_file_index = 0, element_offset = 0x80000000, element_size = 0x10000000,
          element_flags = 0x100, mapped_offset = 0, mapped_size = 0\<rparr>,
        \<lparr>element_file_index = 0, element_offset = 0x90000000, element_size = 0x10000000,
          element_flags = 0x100, mapped_offset = 0, mapped_size = 0\<rparr>]"
    by (simp add: correct_v1_defs v1_defs codec_defs list_defs flag_defs Let_def
        word_sless_alt word_sle_eq)
  note r = C3_overflow_latch_stays_set_and_clears_compressed [where cs = "0x10000" and pool = 0
      and base = 0 and n = 3 and d = "[0, 0, 0, 0x40, 0, 0, 0, 0x80, 0, 0, 0, 0x90]" and t = 0 and cl = "[]"
      and s = "(fill_v1_step 0x10000 0 0 0 0x80000000 ((fill_v1_vars_init [])\<lparr>stored_offset := 0x40000000\<rparr>))"
      and s' = "fill_v1_step 0x10000 0 0 0 0x90000000 (fill_v1_step 0x10000 0 0 0 0x80000000 ((fill_v1_vars_init [])\<lparr>stored_offset := 0x40000000\<rparr>))"
      and secp = "Some \<lparr>start_offset = 0xa0000000, end_offset = 0xa0000100, section_size = 0\<rparr>"
      and cl' = "[\<lparr>element_file_index = 0, element_offset = 0x40000000, element_size = 0x40000000,
          element_flags = 0x100, mapped_offset = 0, mapped_size = 0x10000\<rparr>,
        \<lparr>element_file_index = 0, element_offset = 0x80000000, element_size = 0x10000000,
          element_flags = 0x100, mapped_offset = 0x10000, mapped_size = 0x10000\<rparr>,
        \<lparr>element_file_index = 0, element_offset = 0x90000000, element_size = 0x10000000,
          element_flags = 0x100, mapped_offset = 0x20000, mapped_size = 0x10000\<rparr>]"
      and il = "[\<lparr>element_file_index = 0, element_offset = 0, element_size = 0,
            element_flags = 0x2, mapped_offset = 0, mapped_size = 0\<rparr>, \<lparr>element_file_index = 0, element_offset = 0, element_size = 0,
            element_flags = 0x2, mapped_offset = 0, mapped_size = 0\<rparr>, \<lparr>element_file_index = 0, element_offset = 0, element_size = 0,
            element_flags = 0x2, mapped_offset = 0, mapped_size = 0\<rparr>]"
      and c = "(correct_v1_step 0 0 0 0x80000000 \<lparr>element_file_index = 0, element_offset = 0, element_size = 0,
            element_flags = 0x2, mapped_offset = 0, mapped_size = 0\<rparr> ((correct_v1_vars_init [\<lparr>element_file_index = 0, element_offset = 0, element_size = 0,
            element_flags = 0x2, mapped_offset = 0, mapped_size = 0\<rparr>, \<lparr>element_file_index = 0, element_offset = 0, element_size = 0,
            element_flags = 0x2, mapped_offset = 0, mapped_size = 0\<rparr>, \<lparr>element_file_index = 0, element_offset = 0, element_size = 0,
            element_flags = 0x2, mapped_offset = 0, mapped_size = 0\<rparr>])\<lparr>stored_offset := 0x40000000\<rparr>))"
      and il' = "[\<lparr>element_file_index = 0, element_offset = 0x40000000, element_size = 0x40000000,
          element_flags = 0x100, mapped_offset = 0, mapped_size = 0\<rparr>,
        \<lparr>element_file_index = 0, element_offset = 0x80000000, element_size = 0x10000000,
          element_flags = 0x100, mapped_offset = 0, mapped_size = 0\<rparr>,
        \<lparr>element_file_index = 0, element_offset = 0x90000000, element_size = 0x10000000,
          element_flags = 0x100, mapped_offset = 0, mapped_size = 0\<rparr>]"]
  have c1: "overflow (fill_v1_step 0x10000 0 0 0 0x90000000 (fill_v1_step 0x10000 0 0 0 0x80000000 ((fill_v1_vars_init [])\<lparr>stored_offset := 0x40000000\<rparr>))) \<noteq> 0"
    using r h1 h2 h3 by blast
  have "\<forall>e \<in> set (drop (length (chunks_list (fill_v1_step 0x10000 0 0 0 0x80000000 ((fill_v1_vars_init [])\<lparr>stored_offset := 0x40000000\<rparr>))))
          [\<lparr>element_file_index = 0, element_offset = 0x40000000, element_size = 0x40000000,
          element_flags = 0x100, mapped_offset = 0, mapped_size = 0x10000\<rparr>,
        \<lparr>element_file_index = 0, element_offset = 0x80000000, element_size = 0x10000000,
          element_flags = 0x100, mapped_offset = 0x10000, mapped_size = 0x10000\<rparr>,
        \<lparr>element_file_index = 0, element_offset = 0x90000000, element_size = 0x10000000,
          element_flags = 0x100, mapped_offset = 0x20000, mapped_size = 0x10000\<rparr>]).
      element_flags e AND LIBEWF_RANGE_FLAG_IS_COMPRESSED = 0"
    using r h1 h2 h4 by blast
  then have c2: "list_all (\<lambda>e. element_flags e AND LIBEWF_RANGE_FLAG_IS_COMPRESSED = 0)
        (drop (length (chunks_list (fill_v1_step 0x10000 0 0 0 0x80000000 ((fill_v1_vars_init [])\<lparr>stored_offset := 0x40000000\<rparr>))))
          [\<lparr>element_file_index = 0, element_offset = 0x40000000, element_size = 0x40000000,
          element_flags = 0x100, mapped_offset = 0, mapped_size = 0x10000\<rparr>,
        \<lparr>element_file_index = 0, element_offset = 0x80000000, element_size = 0x10000000,
          element_flags = 0x100, mapped_offset = 0x10000, mapped_size = 0x10000\<rparr>,
        \<lparr>element_file_index = 0, element_offset = 0x90000000, element_size = 0x10000000,
          element_flags = 0x100, mapped_offset = 0x20000, mapped_size = 0x10000\<rparr>])"
    by (simp only: list_all_iff)
  have d1: "length ([\<lparr>element_file_index = 0, element_offset = 0x40000000, element_size = 0x40000000,
          element_flags = 0x100, mapped_offset = 0, mapped_size = 0\<rparr>,
        \<lparr>element_file_index = 0, element_offset = 0x80000000, element_size = 0x10000000,
          element_flags = 0x100, mapped_offset = 0, mapped_size = 0\<rparr>,
        \<lparr>element_file_index = 0, element_offset = 0x90000000, element_size = 0x10000000,
          element_flags = 0x100, mapped_offset = 0, mapped_size = 0\<rparr>] :: libfdata_list_t) = length (chunks_list (correct_v1_step 0 0 0 0x80000000 \<lparr>element_file_index = 0, element_offset = 0, element_size = 0,
            element_flags = 0x2, mapped_offset = 0, mapped_size = 0\<rparr> ((correct_v1_vars_init [\<lparr>element_file_index = 0, element_offset = 0, element_size = 0,
            element_flags = 0x2, mapped_offset = 0, mapped_size = 0\<rparr>, \<lparr>element_file_index = 0, element_offset = 0, element_size = 0,
            element_flags = 0x2, mapped_offset = 0, mapped_size = 0\<rparr>, \<lparr>element_file_index = 0, element_offset = 0, element_size = 0,
            element_flags = 0x2, mapped_offset = 0, mapped_size = 0\<rparr>])\<lparr>stored_offset := 0x40000000\<rparr>)))"
    using r g1 g2 g3 by blast
  show ?thesis
    using h1 h2 h3 h4 c1 c2 g1 g2 g3 d1 by (intro conjI)
qed


section \<open>Bytes and words\<close>

text \<open>
  The bytes that the codec writes for a word give the word back; the entry that
  \<open>libewf_chunk_group_generate_table_entries_data\<close> writes for an element decoded from a
  stored offset is that stored offset.
\<close>

lemma bit_byte_of_word:
  "k + 8 \<le> LENGTH('a) \<Longrightarrow> bit (push_bit k (ucast (ucast (drop_bit k (v :: 'a :: len word)) :: 8 word)) :: 'a word) n
     = (k \<le> n \<and> n < k + 8 \<and> bit v n)"
  by (auto simp: bit_simps)

lemma bit_byte0_of_word:
  "8 \<le> LENGTH('a) \<Longrightarrow> bit (ucast (ucast (v :: 'a :: len word) :: 8 word) :: 'a word) n
     = (n < 8 \<and> bit v n)"
  by (auto simp: bit_simps)

lemma uint32_of_bytes:
  "push_bit 24 (ucast (ucast (drop_bit 24 v) :: 8 word)) OR
   push_bit 16 (ucast (ucast (drop_bit 16 v) :: 8 word)) OR
   push_bit 8 (ucast (ucast (drop_bit 8 v) :: 8 word)) OR
   ucast (ucast v :: 8 word) = (v :: 32 word)"
proof (rule bit_word_eqI)
  fix n assume "n < LENGTH(32)"
  then show "bit (push_bit 24 (ucast (ucast (drop_bit 24 v) :: 8 word)) OR
   push_bit 16 (ucast (ucast (drop_bit 16 v) :: 8 word)) OR
   push_bit 8 (ucast (ucast (drop_bit 8 v) :: 8 word)) OR
   ucast (ucast v :: 8 word) :: 32 word) n = bit v n"
    by (simp add: bit_or_iff bit_byte_of_word bit_byte0_of_word) arith
qed

lemma sint_nat: "0 \<le> sint (w :: 32 word) \<Longrightarrow> nat (sint w) = unat w"
proof -
  assume a: "0 \<le> sint w"
  have "sint w < 2 ^ 32" using sint_lt [of w] by simp
  then have "uint w = sint w"
    using a by (simp add: uint_sint take_bit_int_eq_self)
  then show ?thesis by (simp add: unat_eq_nat_uint)
qed

lemma uint64_of_bytes:
  "push_bit 56 (ucast (ucast (drop_bit 56 v) :: 8 word)) OR
   push_bit 48 (ucast (ucast (drop_bit 48 v) :: 8 word)) OR
   push_bit 40 (ucast (ucast (drop_bit 40 v) :: 8 word)) OR
   push_bit 32 (ucast (ucast (drop_bit 32 v) :: 8 word)) OR
   push_bit 24 (ucast (ucast (drop_bit 24 v) :: 8 word)) OR
   push_bit 16 (ucast (ucast (drop_bit 16 v) :: 8 word)) OR
   push_bit 8 (ucast (ucast (drop_bit 8 v) :: 8 word)) OR
   ucast (ucast v :: 8 word) = (v :: 64 word)"
proof (rule bit_word_eqI)
  fix n assume "n < LENGTH(64)"
  then show "bit (push_bit 56 (ucast (ucast (drop_bit 56 v) :: 8 word)) OR
   push_bit 48 (ucast (ucast (drop_bit 48 v) :: 8 word)) OR
   push_bit 40 (ucast (ucast (drop_bit 40 v) :: 8 word)) OR
   push_bit 32 (ucast (ucast (drop_bit 32 v) :: 8 word)) OR
   push_bit 24 (ucast (ucast (drop_bit 24 v) :: 8 word)) OR
   push_bit 16 (ucast (ucast (drop_bit 16 v) :: 8 word)) OR
   push_bit 8 (ucast (ucast (drop_bit 8 v) :: 8 word)) OR
   ucast (ucast v :: 8 word) :: 64 word) n = bit v n"
    by (simp add: bit_or_iff bit_byte_of_word bit_byte0_of_word) arith
qed

lemma bit_0x80000000: "bit (0x80000000 :: 32 word) n = (n = 31)"
proof -
  have "(0x80000000 :: 32 word) = 2 ^ 31" by simp
  then have "bit (0x80000000 :: 32 word) n = bit (2 ^ 31 :: 32 word) n" by (simp only:)
  also have "\<dots> = (n = 31)" by (subst bit_exp_iff) auto
  finally show ?thesis .
qed

lemma bit_0x7fffffff: "bit (0x7fffffff :: 32 word) n = (n < 31)"
proof -
  have "(0x7fffffff :: 32 word) = mask 31" by (simp add: mask_eq_exp_minus_1)
  then have "bit (0x7fffffff :: 32 word) n = bit (mask 31 :: 32 word) n" by (simp only:)
  also have "\<dots> = (n < 31)" by (subst bit_mask_iff) auto
  finally show ?thesis .
qed

lemma v1_word_round_trip:
  "(if bit st 31 then ucast (ucast (st AND 0x7fffffff) :: 64 word) OR 0x80000000
    else ucast (ucast (st AND 0x7fffffff) :: 64 word)) = (st :: 32 word)"
proof (rule bit_word_eqI)
  fix n assume "n < LENGTH(32)"
  then show "bit (if bit st 31 then ucast (ucast (st AND 0x7fffffff) :: 64 word) OR 0x80000000
    else ucast (ucast (st AND 0x7fffffff) :: 64 word) :: 32 word) n = bit st n"
    by (cases "n = 31")
      (auto simp add: bit_or_iff bit_and_iff bit_ucast_iff bit_0x80000000 bit_0x7fffffff
         simp del: bit_numeral_word_iff)
qed

lemma ucast_ucast_32_64: "ucast (ucast (st :: 32 word) :: 64 word) = st"
  by (rule bit_word_eqI) (auto simp: bit_simps)

section \<open>The table entries that generate writes\<close>

text \<open>
  A write of the codec changes the bytes it covers and no other; the 32-bit value of a
  version 1 entry (lines 1484-1489) and the chunk data flags of a version 2 entry (lines
  1508-1521) as functions of the element; and the loop: when it returns, the buffer has
  kept its length and holds, for every index below \<^verbatim>\<open>number_of_entries\<close>, the entry of the
  element of the list at that index.
\<close>

lemma copy_from_uint32_length:
  "byte_stream_copy_from_uint32_little_endian b off v = Inr b' \<Longrightarrow>
     off + 4 \<le> length b \<and> length b' = length b"
  by (auto simp: byte_stream_copy_from_uint32_little_endian_def split: if_splits)

lemma copy_from_uint64_length:
  "byte_stream_copy_from_uint64_little_endian b off v = Inr b' \<Longrightarrow>
     off + 8 \<le> length b \<and> length b' = length b"
  by (auto simp: byte_stream_copy_from_uint64_little_endian_def split: if_splits)

lemma copy_from_uint32_nth:
  "byte_stream_copy_from_uint32_little_endian b off v = Inr b' \<Longrightarrow>
     j < off \<or> off + 4 \<le> j \<Longrightarrow> b' ! j = b ! j"
  by (auto simp: byte_stream_copy_from_uint32_little_endian_def split: if_splits)

lemma copy_from_uint64_nth:
  "byte_stream_copy_from_uint64_little_endian b off v = Inr b' \<Longrightarrow>
     j < off \<or> off + 8 \<le> j \<Longrightarrow> b' ! j = b ! j"
  by (auto simp: byte_stream_copy_from_uint64_little_endian_def split: if_splits)

lemma copy_from_uint32_read:
  "byte_stream_copy_from_uint32_little_endian b off v = Inr b' \<Longrightarrow> uint32_le b' off = v"
  by (auto simp: byte_stream_copy_from_uint32_little_endian_def uint32_le_def uint32_of_bytes
      split: if_splits)

lemma copy_from_uint64_read:
  "byte_stream_copy_from_uint64_little_endian b off v = Inr b' \<Longrightarrow> uint64_le b' off = v"
  by (auto simp: byte_stream_copy_from_uint64_little_endian_def uint64_le_def uint64_of_bytes
      split: if_splits)

lemma uint32_le_cong:
  "(\<And>j. off \<le> j \<Longrightarrow> j < off + 4 \<Longrightarrow> b' ! j = b ! j) \<Longrightarrow> uint32_le b' off = uint32_le b off"
  by (simp add: uint32_le_def)

lemma uint64_le_cong:
  "(\<And>j. off \<le> j \<Longrightarrow> j < off + 8 \<Longrightarrow> b' ! j = b ! j) \<Longrightarrow> uint64_le b' off = uint64_le b off"
  by (simp add: uint64_le_def)

definition generate_v1_table_offset :: "off64_t \<Rightarrow> list_element \<Rightarrow> uint32_t" where
  "generate_v1_table_offset base el =
     (if element_flags el AND LIBEWF_RANGE_FLAG_IS_COMPRESSED \<noteq> 0
      then ucast (element_offset el - base) OR 0x80000000
      else ucast (element_offset el - base))"

definition generate_v2_chunk_data_flags :: "uint32_t \<Rightarrow> uint32_t" where
  "generate_v2_chunk_data_flags fl =
     ((if fl AND LIBEWF_RANGE_FLAG_IS_COMPRESSED \<noteq> 0
       then LIBEWF_CHUNK_DATA_FLAG_IS_COMPRESSED else 0)
      OR (if fl AND LIBEWF_RANGE_FLAG_HAS_CHECKSUM \<noteq> 0
          then LIBEWF_CHUNK_DATA_FLAG_HAS_CHECKSUM else 0))
     OR (if fl AND LIBEWF_RANGE_FLAG_USES_PATTERN_FILL \<noteq> 0
         then LIBEWF_CHUNK_DATA_FLAG_USES_PATTERN_FILL else 0)"

lemma generate_loop_body_v1:
  assumes "generate_loop_body cl 1 es base s = Inr s'"
  obtains el where
    "libfdata_list_get_element_by_index cl (sint (g_table_entry_index s)) = Inr el"
    and "byte_stream_copy_from_uint32_little_endian (g_buffer s) (g_table_entries_data s)
           (generate_v1_table_offset base el) = Inr (g_buffer s')"
    and "g_table_entries_data s' = g_table_entries_data s + es"
    and "g_table_entry_index s' = g_table_entry_index s + 1"
  using assms
  by (auto simp: generate_loop_body_def generate_get_element_def generate_table_entry_v1_def
      generate_v1_table_offset_def Let_def split: sum.splits if_splits)

lemma generate_loop_body_v2:
  assumes "generate_loop_body cl 2 es base s = Inr s'"
  obtains el b1 b2 where
    "libfdata_list_get_element_by_index cl (sint (g_table_entry_index s)) = Inr el"
    and "byte_stream_copy_from_uint64_little_endian (g_buffer s) (g_table_entries_data s)
           (element_offset el) = Inr b1"
    and "byte_stream_copy_from_uint32_little_endian b1 (g_table_entries_data s + 8)
           (ucast (element_size el)) = Inr b2"
    and "byte_stream_copy_from_uint32_little_endian b2 (g_table_entries_data s + 12)
           (generate_v2_chunk_data_flags (element_flags el)) = Inr (g_buffer s')"
    and "g_table_entries_data s' = g_table_entries_data s + es"
    and "g_table_entry_index s' = g_table_entry_index s + 1"
  using assms
  by (auto simp: generate_loop_body_def generate_get_element_def generate_table_entry_v2_def
      generate_v2_chunk_data_flags_def Let_def split: sum.splits if_splits)

lemma generate_loop_invariant:
  assumes "generate_loop cl fv es n base s = Inr s'"
    and "I s"
    and "\<And>s s1. I s \<Longrightarrow> g_table_entry_index s < n \<Longrightarrow>
           generate_loop_body cl fv es base s = Inr s1 \<Longrightarrow> I s1"
  shows "I s' \<and> \<not> g_table_entry_index s' < n"
  using assms
proof (induction cl fv es n base s rule: generate_loop.induct)
  case (1 cl fv es n base s)
  show ?case
  proof (cases "g_table_entry_index s < n")
    case True
    obtain s1 where body: "generate_loop_body cl fv es base s = Inr s1"
      and rest: "generate_loop cl fv es n base s1 = Inr s'"
      using "1.prems"(1) True
      by (subst (asm) generate_loop.simps) (auto split: sum.splits)
    have "I s1"
      using "1.prems"(3) [OF "1.prems"(2) True body] .
    then show ?thesis
      using "1.IH" [OF True body rest] "1.prems"(3) by blast
  next
    case False
    then have "s' = s"
      using "1.prems"(1) by (subst (asm) generate_loop.simps) simp
    then show ?thesis using False "1.prems"(2) by simp
  qed
qed

lemma get_element_nth:
  assumes "libfdata_list_get_element_by_index cl (sint (i :: uint32_t)) = Inr el"
  shows "unat i < length cl \<and> el = cl ! unat i"
proof -
  have ge: "0 \<le> sint i" and lt: "sint i < int (length cl)" and el: "el = cl ! nat (sint i)"
    using assms by (auto simp: libfdata_list_get_element_by_index_def split: if_splits)
  have "nat (sint i) = unat i" using ge by (rule sint_nat)
  moreover have "nat (sint i) < length cl" using ge lt by linarith
  ultimately show ?thesis using el by simp
qed

definition generate_v1_inv ::
  "libfdata_list_t \<Rightarrow> off64_t \<Rightarrow> uint32_t \<Rightarrow> nat \<Rightarrow> generate_vars \<Rightarrow> bool" where
  "generate_v1_inv cl base n len s =
     (g_table_entry_index s \<le> n
      \<and> g_table_entries_data s = 4 * unat (g_table_entry_index s)
      \<and> length (g_buffer s) = len
      \<and> (\<forall>k < unat (g_table_entry_index s).
            k < length cl \<and> 4 * k + 4 \<le> len
            \<and> uint32_le (g_buffer s) (4 * k) = generate_v1_table_offset base (cl ! k)))"

lemma generate_v1_inv_step:
  assumes inv: "generate_v1_inv cl base n len s"
    and lt: "g_table_entry_index s < n"
    and body: "generate_loop_body cl 1 4 base s = Inr s1"
  shows "generate_v1_inv cl base n len s1"
proof -
  let ?i = "unat (g_table_entry_index s)"
  have suc: "unat (g_table_entry_index s + 1) = Suc ?i"
    using lt by (rule uint32_less_Suc)
  have off: "g_table_entries_data s = 4 * ?i" and len: "length (g_buffer s) = len"
    and old: "\<And>k. k < ?i \<Longrightarrow> k < length cl \<and> 4 * k + 4 \<le> len
            \<and> uint32_le (g_buffer s) (4 * k) = generate_v1_table_offset base (cl ! k)"
    using inv by (simp_all add: generate_v1_inv_def)
  from body obtain el where
    el: "libfdata_list_get_element_by_index cl (sint (g_table_entry_index s)) = Inr el"
    and wr: "byte_stream_copy_from_uint32_little_endian (g_buffer s) (g_table_entries_data s)
           (generate_v1_table_offset base el) = Inr (g_buffer s1)"
    and off1: "g_table_entries_data s1 = g_table_entries_data s + 4"
    and idx1: "g_table_entry_index s1 = g_table_entry_index s + 1"
    by (rule generate_loop_body_v1)
  note g = get_element_nth [OF el]
  note wl = copy_from_uint32_length [OF wr]
  have "g_table_entry_index s1 \<le> n"
    using uint32_less_inc(1) [OF lt] by (simp add: idx1)
  moreover have "g_table_entries_data s1 = 4 * unat (g_table_entry_index s1)"
    by (simp add: off1 idx1 suc off)
  moreover have "length (g_buffer s1) = len"
    using wl len by simp
  moreover have "k < length cl \<and> 4 * k + 4 \<le> len
      \<and> uint32_le (g_buffer s1) (4 * k) = generate_v1_table_offset base (cl ! k)"
    if "k < unat (g_table_entry_index s1)" for k
  proof (cases "k < ?i")
    case True
    have "uint32_le (g_buffer s1) (4 * k) = uint32_le (g_buffer s) (4 * k)"
    proof (rule uint32_le_cong)
      fix j assume "4 * k \<le> j" and "j < 4 * k + 4"
      then have "j < g_table_entries_data s" using True off by simp
      then show "g_buffer s1 ! j = g_buffer s ! j"
        using copy_from_uint32_nth [OF wr] by blast
    qed
    then show ?thesis using old [OF True] by simp
  next
    case False
    then have k: "k = ?i" using that by (simp add: idx1 suc)
    have "uint32_le (g_buffer s1) (4 * k) = generate_v1_table_offset base el"
      using copy_from_uint32_read [OF wr] by (simp add: off k)
    then show ?thesis using g wl len by (simp add: k off)
  qed
  ultimately show ?thesis
    unfolding generate_v1_inv_def by blast
qed

definition generate_v2_inv ::
  "libfdata_list_t \<Rightarrow> uint32_t \<Rightarrow> nat \<Rightarrow> generate_vars \<Rightarrow> bool" where
  "generate_v2_inv cl n len s =
     (g_table_entry_index s \<le> n
      \<and> g_table_entries_data s = 16 * unat (g_table_entry_index s)
      \<and> length (g_buffer s) = len
      \<and> (\<forall>k < unat (g_table_entry_index s).
            k < length cl \<and> 16 * k + 16 \<le> len
            \<and> uint64_le (g_buffer s) (16 * k) = element_offset (cl ! k)
            \<and> uint32_le (g_buffer s) (16 * k + 8) = ucast (element_size (cl ! k))
            \<and> uint32_le (g_buffer s) (16 * k + 12)
                = generate_v2_chunk_data_flags (element_flags (cl ! k))))"

lemma generate_v2_inv_step:
  assumes inv: "generate_v2_inv cl n len s"
    and lt: "g_table_entry_index s < n"
    and body: "generate_loop_body cl 2 16 base s = Inr s1"
  shows "generate_v2_inv cl n len s1"
proof -
  let ?i = "unat (g_table_entry_index s)"
  have suc: "unat (g_table_entry_index s + 1) = Suc ?i"
    using lt by (rule uint32_less_Suc)
  have off: "g_table_entries_data s = 16 * ?i" and len: "length (g_buffer s) = len"
    and old: "\<And>k. k < ?i \<Longrightarrow> k < length cl \<and> 16 * k + 16 \<le> len
            \<and> uint64_le (g_buffer s) (16 * k) = element_offset (cl ! k)
            \<and> uint32_le (g_buffer s) (16 * k + 8) = ucast (element_size (cl ! k))
            \<and> uint32_le (g_buffer s) (16 * k + 12)
                = generate_v2_chunk_data_flags (element_flags (cl ! k))"
    using inv by (simp_all add: generate_v2_inv_def)
  from body obtain el b1 b2 where
    el: "libfdata_list_get_element_by_index cl (sint (g_table_entry_index s)) = Inr el"
    and w1: "byte_stream_copy_from_uint64_little_endian (g_buffer s) (g_table_entries_data s)
           (element_offset el) = Inr b1"
    and w2: "byte_stream_copy_from_uint32_little_endian b1 (g_table_entries_data s + 8)
           (ucast (element_size el)) = Inr b2"
    and w3: "byte_stream_copy_from_uint32_little_endian b2 (g_table_entries_data s + 12)
           (generate_v2_chunk_data_flags (element_flags el)) = Inr (g_buffer s1)"
    and off1: "g_table_entries_data s1 = g_table_entries_data s + 16"
    and idx1: "g_table_entry_index s1 = g_table_entry_index s + 1"
    by (rule generate_loop_body_v2)
  note g = get_element_nth [OF el]
  note l1 = copy_from_uint64_length [OF w1]
  note l2 = copy_from_uint32_length [OF w2]
  note l3 = copy_from_uint32_length [OF w3]
  have nth: "g_buffer s1 ! j = g_buffer s ! j" if "j < 16 * ?i" for j
  proof -
    have "g_buffer s1 ! j = b2 ! j"
      using copy_from_uint32_nth [OF w3, of j] that off by simp
    also have "\<dots> = b1 ! j"
      using copy_from_uint32_nth [OF w2, of j] that off by simp
    also have "\<dots> = g_buffer s ! j"
      using copy_from_uint64_nth [OF w1, of j] that off by simp
    finally show ?thesis .
  qed
  have r1: "uint64_le (g_buffer s1) (16 * ?i) = element_offset el"
  proof -
    have "uint64_le (g_buffer s1) (16 * ?i) = uint64_le b2 (16 * ?i)"
      by (rule uint64_le_cong) (use copy_from_uint32_nth [OF w3] off in simp)
    also have "\<dots> = uint64_le b1 (16 * ?i)"
      by (rule uint64_le_cong) (use copy_from_uint32_nth [OF w2] off in simp)
    also have "\<dots> = element_offset el"
      using copy_from_uint64_read [OF w1] by (simp add: off)
    finally show ?thesis .
  qed
  have r2: "uint32_le (g_buffer s1) (16 * ?i + 8) = ucast (element_size el)"
  proof -
    have "uint32_le (g_buffer s1) (16 * ?i + 8) = uint32_le b2 (16 * ?i + 8)"
      by (rule uint32_le_cong) (use copy_from_uint32_nth [OF w3] off in simp)
    also have "\<dots> = ucast (element_size el)"
      using copy_from_uint32_read [OF w2] by (simp add: off)
    finally show ?thesis .
  qed
  have r3: "uint32_le (g_buffer s1) (16 * ?i + 12)
      = generate_v2_chunk_data_flags (element_flags el)"
    using copy_from_uint32_read [OF w3] by (simp add: off)
  have "g_table_entry_index s1 \<le> n"
    using uint32_less_inc(1) [OF lt] by (simp add: idx1)
  moreover have "g_table_entries_data s1 = 16 * unat (g_table_entry_index s1)"
    by (simp add: off1 idx1 suc off)
  moreover have "length (g_buffer s1) = len"
    using l1 l2 l3 len by simp
  moreover have "k < length cl \<and> 16 * k + 16 \<le> len
            \<and> uint64_le (g_buffer s1) (16 * k) = element_offset (cl ! k)
            \<and> uint32_le (g_buffer s1) (16 * k + 8) = ucast (element_size (cl ! k))
            \<and> uint32_le (g_buffer s1) (16 * k + 12)
                = generate_v2_chunk_data_flags (element_flags (cl ! k))"
    if "k < unat (g_table_entry_index s1)" for k
  proof (cases "k < ?i")
    case True
    have "uint64_le (g_buffer s1) (16 * k) = uint64_le (g_buffer s) (16 * k)"
      by (rule uint64_le_cong) (use nth True in simp)
    moreover have "uint32_le (g_buffer s1) (16 * k + 8) = uint32_le (g_buffer s) (16 * k + 8)"
      by (rule uint32_le_cong) (use nth True in simp)
    moreover have "uint32_le (g_buffer s1) (16 * k + 12) = uint32_le (g_buffer s) (16 * k + 12)"
      by (rule uint32_le_cong) (use nth True in simp)
    ultimately show ?thesis using old [OF True] by simp
  next
    case False
    then have k: "k = ?i" using that by (simp add: idx1 suc)
    show ?thesis using g l1 l2 l3 len r1 r2 r3 by (simp add: k off)
  qed
  ultimately show ?thesis
    unfolding generate_v2_inv_def by blast
qed

lemma generate_v1_result:
  assumes "libewf_chunk_group_generate_table_entries_data (Some cl) 1 (Some buf) n base = Inr b"
  shows "length b = length buf \<and> length buf \<le> SSIZE_MAX \<and> 4 * unat n \<le> length buf
     \<and> \<not> base <s 0
     \<and> (\<forall>k < unat n. k < length cl
           \<and> uint32_le b (4 * k) = generate_v1_table_offset base (cl ! k))"
proof -
  let ?s0 = "\<lparr>g_buffer = buf, g_table_entries_data = 0,
              g_chunk_data_offset = 0, g_chunk_data_size = 0, g_chunk_data_flags = 0,
              g_range_flags = 0, g_table_offset = 0, g_table_entry_index = 0,
              g_file_io_pool_entry = 0\<rparr>"
  obtain s' where len: "length buf \<le> SSIZE_MAX" and n: "4 * unat n \<le> length buf"
    and base: "\<not> base <s 0"
    and loop: "generate_loop cl 1 4 n base ?s0 = Inr s'" and b: "b = g_buffer s'"
    using assms
    by (auto simp: libewf_chunk_group_generate_table_entries_data_def Let_def
        sizeof_ewf_table_entry_v1_t_def mult.commute split: if_splits sum.splits)
  have "generate_v1_inv cl base n (length buf) ?s0"
    by (simp add: generate_v1_inv_def)
  then have "generate_v1_inv cl base n (length buf) s' \<and> \<not> g_table_entry_index s' < n"
    using generate_loop_invariant [OF loop, of "generate_v1_inv cl base n (length buf)"]
      generate_v1_inv_step by blast
  then have "g_table_entry_index s' = n" and "generate_v1_inv cl base n (length buf) s'"
    by (auto simp: generate_v1_inv_def)
  then show ?thesis
    using len n base by (simp add: generate_v1_inv_def b)
qed

lemma generate_v2_result:
  assumes "libewf_chunk_group_generate_table_entries_data (Some cl) 2 (Some buf) n base = Inr b"
  shows "length b = length buf \<and> length buf \<le> SSIZE_MAX \<and> 16 * unat n \<le> length buf
     \<and> (\<forall>k < unat n. k < length cl
            \<and> uint64_le b (16 * k) = element_offset (cl ! k)
            \<and> uint32_le b (16 * k + 8) = ucast (element_size (cl ! k))
            \<and> uint32_le b (16 * k + 12)
                = generate_v2_chunk_data_flags (element_flags (cl ! k)))"
proof -
  let ?s0 = "\<lparr>g_buffer = buf, g_table_entries_data = 0,
              g_chunk_data_offset = 0, g_chunk_data_size = 0, g_chunk_data_flags = 0,
              g_range_flags = 0, g_table_offset = 0, g_table_entry_index = 0,
              g_file_io_pool_entry = 0\<rparr>"
  obtain s' where len: "length buf \<le> SSIZE_MAX" and n: "16 * unat n \<le> length buf"
    and loop: "generate_loop cl 2 16 n base ?s0 = Inr s'" and b: "b = g_buffer s'"
    using assms
    by (auto simp: libewf_chunk_group_generate_table_entries_data_def Let_def
        sizeof_ewf_table_entry_v2_t_def mult.commute split: if_splits sum.splits)
  have "generate_v2_inv cl n (length buf) ?s0"
    by (simp add: generate_v2_inv_def)
  then have "generate_v2_inv cl n (length buf) s' \<and> \<not> g_table_entry_index s' < n"
    using generate_loop_invariant [OF loop, of "generate_v2_inv cl n (length buf)"]
      generate_v2_inv_step by blast
  then have "g_table_entry_index s' = n" and "generate_v2_inv cl n (length buf) s'"
    by (auto simp: generate_v2_inv_def)
  then show ?thesis
    using len n by (simp add: generate_v2_inv_def b)
qed

lemma generate_v1_table_offset_of_entry:
  assumes "v1_element_of_entry base st e"
  shows "generate_v1_table_offset base e = st"
proof -
  have c: "LIBEWF_RANGE_FLAG_IS_COMPRESSED \<noteq> 0"
    by (simp add: LIBEWF_RANGE_FLAG_IS_COMPRESSED_def)
  consider
    (a) "element_offset e = base + ucast (st AND 0x7fffffff)"
      "(element_flags e AND LIBEWF_RANGE_FLAG_IS_COMPRESSED \<noteq> 0) = bit st 31"
    | (b) "element_offset e = base + ucast st"
      "element_flags e AND LIBEWF_RANGE_FLAG_IS_COMPRESSED = 0"
    using assms unfolding v1_element_of_entry_def by blast
  then show ?thesis
  proof cases
    case a
    then show ?thesis
      using v1_word_round_trip [of st]
      by (cases "bit st 31") (simp_all add: generate_v1_table_offset_def)
  next
    case b
    then show ?thesis
      by (simp add: generate_v1_table_offset_def ucast_ucast_32_64)
  qed
qed

section \<open>Filling again from the generated entries\<close>

text \<open>
  Two runs of the loop of fill over buffers that hold the same stored offsets, with any
  pool entries and any tainted arguments, append elements with the same offsets and the
  same compressed flags.
\<close>

definition same_offset_and_compressed :: "list_element \<Rightarrow> list_element \<Rightarrow> bool" where
  "same_offset_and_compressed e e' =
     (element_offset e' = element_offset e
      \<and> element_flags e' AND LIBEWF_RANGE_FLAG_IS_COMPRESSED
          = element_flags e AND LIBEWF_RANGE_FLAG_IS_COMPRESSED)"

definition fill_v1_sim :: "fill_v1_vars \<Rightarrow> fill_v1_vars \<Rightarrow> bool" where
  "fill_v1_sim s s' =
     (overflow s' = overflow s \<and> is_compressed s' = is_compressed s
      \<and> stored_offset s' = stored_offset s \<and> table_entry_index s' = table_entry_index s
      \<and> list_all2 same_offset_and_compressed (chunks_list s) (chunks_list s'))"

lemma fill_v1_sim_step:
  assumes "fill_v1_sim s s'"
  shows "fill_v1_sim (fill_v1_step cs pool base t v s) (fill_v1_step cs pool' base t' v s')"
proof -
  have "list_all2 same_offset_and_compressed (chunks_list (fill_v1_step cs pool base t v s))
      (chunks_list (fill_v1_step cs pool' base t' v s'))"
    unfolding fill_v1_step_chunks_list
    by (rule list_all2_appendI)
      (use assms in \<open>simp_all add: fill_v1_sim_def same_offset_and_compressed_def
         fill_v1_flags_compressed\<close>)
  then show ?thesis
    using assms
    by (simp add: fill_v1_sim_def fill_v1_step_overflow fill_v1_step_is_compressed)
qed

lemma fill_v1_sim_last_step:
  assumes "fill_v1_sim s s'"
  shows "list_all2 same_offset_and_compressed
      (chunks_list (fill_v1_last_step cs pool sec base t v s))
      (chunks_list (fill_v1_last_step cs pool' sec base t' v s'))"
  unfolding fill_v1_last_step_chunks_list
  by (rule list_all2_appendI)
    (use assms in \<open>simp_all add: fill_v1_sim_def same_offset_and_compressed_def
       fill_v1_flags_compressed\<close>)

lemma fill_v1_loop_sim:
  assumes "fill_v1_loop cs pool base n d t s = Inr s1"
    and "fill_v1_sim s s'"
    and "\<And>i. table_entry_index s < i \<Longrightarrow> i \<le> n - 1 \<Longrightarrow>
           table_entry_v1_chunk_data_offset b i = table_entry_v1_chunk_data_offset d i"
  shows "\<exists>s1'. fill_v1_loop cs pool' base n b t' s' = Inr s1' \<and> fill_v1_sim s1 s1'"
  using assms
proof (induction cs pool base n d t s arbitrary: s' rule: fill_v1_loop.induct)
  case (1 cs pool base n d t s)
  have idx: "table_entry_index s' = table_entry_index s"
    using "1.prems"(2) by (simp add: fill_v1_sim_def)
  show ?case
  proof (cases "table_entry_index s < n - 1")
    case True
    note inc = uint32_less_inc [OF True]
    obtain v where v: "table_entry_v1_chunk_data_offset d (table_entry_index s + 1) = Inr v"
      and body: "fill_v1_loop_body cs pool base d t s = Inr (fill_v1_step cs pool base t v s)"
      and rest: "fill_v1_loop cs pool base n d t (fill_v1_step cs pool base t v s) = Inr s1"
      using "1.prems"(1) True
      by (subst (asm) fill_v1_loop.simps) (auto simp: fill_v1_loop_body_eq split: sum.splits)
    have v': "table_entry_v1_chunk_data_offset b (table_entry_index s' + 1) = Inr v"
      using "1.prems"(3) [OF inc(2) inc(1)] v by (simp add: idx)
    have body': "fill_v1_loop_body cs pool' base b t' s'
        = Inr (fill_v1_step cs pool' base t' v s')"
      by (simp add: fill_v1_loop_body_eq v')
    have "\<exists>s1'. fill_v1_loop cs pool' base n b t' (fill_v1_step cs pool' base t' v s') = Inr s1'
        \<and> fill_v1_sim s1 s1'"
    proof (rule "1.IH" [OF True body rest])
      show "fill_v1_sim (fill_v1_step cs pool base t v s) (fill_v1_step cs pool' base t' v s')"
        using "1.prems"(2) by (rule fill_v1_sim_step)
    next
      fix i
      assume "table_entry_index (fill_v1_step cs pool base t v s) < i" and le: "i \<le> n - 1"
      then have "table_entry_index s < i" using inc(2) by simp
      then show "table_entry_v1_chunk_data_offset b i = table_entry_v1_chunk_data_offset d i"
        using "1.prems"(3) le by blast
    qed
    then show ?thesis
      using True body' idx by (subst fill_v1_loop.simps) simp
  next
    case False
    then have "s1 = s"
      using "1.prems"(1) by (subst (asm) fill_v1_loop.simps) simp
    moreover have "fill_v1_loop cs pool' base n b t' s' = Inr s'"
      using False idx by (subst fill_v1_loop.simps) simp
    ultimately show ?thesis using "1.prems"(2) by simp
  qed
qed

lemma uint32_le_take:
  "off + 4 \<le> m \<Longrightarrow> uint32_le (take m b) off = uint32_le b off"
  by (simp add: uint32_le_def)

lemma uint64_le_take:
  "off + 8 \<le> m \<Longrightarrow> uint64_le (take m b) off = uint64_le b off"
  by (simp add: uint64_le_def)

lemma table_entry_v1_eq:
  "table_entry_v1_chunk_data_offset d i =
     (if 4 * unat i + 4 \<le> length d then Inr (uint32_le d (4 * unat i))
      else Inl OUT_OF_BOUNDS_ACCESS)"
  by (simp add: table_entry_v1_chunk_data_offset_def byte_stream_copy_to_uint32_eq
      sizeof_ewf_table_entry_v1_t_def)

lemma fill_v1_loop_index:
  assumes "fill_v1_loop cs pool base n d t s = Inr s1" and "table_entry_index s \<le> n - 1"
  shows "table_entry_index s1 = n - 1"
proof -
  have "table_entry_index s1 \<le> n - 1 \<and> \<not> table_entry_index s1 < n - 1"
    by (rule fill_v1_loop_invariant [OF assms(1), of "\<lambda>s. table_entry_index s \<le> n - 1"])
      (use assms(2) uint32_less_inc(1) in simp_all)
  then show ?thesis by (auto simp: le_less)
qed

lemma fill_v1_round_trip:
  assumes fill: "libewf_chunk_group_fill_v1 (Some []) cs pool secp base n (Some d) t = Inr cl"
    and ne: "unat ne = length cl"
    and emit: "libewf_chunk_group_generate_table_entries_data (Some cl) 1 (Some buf) ne base
                 = Inr b"
  shows "\<exists>cl'. libewf_chunk_group_fill_v1 (Some []) cs pool' secp base ne
                 (Some (take (4 * unat ne) b)) t' = Inr cl'
     \<and> list_all2 same_offset_and_compressed cl cl'"
proof -
  from fill obtain sec v s1 s2 where sec: "secp = Some sec" and base: "\<not> base <s 0"
    and v: "table_entry_v1_chunk_data_offset d 0 = Inr v"
    and loop: "fill_v1_loop cs pool base n d t ((fill_v1_vars_init [])\<lparr>stored_offset := v\<rparr>)
        = Inr s1"
    and last: "fill_v1_last cs pool sec base d t s1 = Inr s2"
    and cl: "cl = chunks_list s2"
    by (rule fill_v1_success)
  note r = fill_v1_result [OF fill]
  have len: "length cl = unat (n - 1) + 1"
    using r by simp
  have n0: "n \<noteq> 0"
  proof
    assume "n = 0"
    then have "length cl = 2 ^ 32" using len by (simp add: unat_uint32_minus_one)
    then show False using ne unat_uint32_bound [of ne] by simp
  qed
  then have n1: "unat (n - 1) = unat n - 1" and pos: "0 < unat n"
    by (simp_all add: unat_minus_one unat_gt_0)
  have n: "ne = n"
    using ne len n1 pos by (simp add: word_unat_eq_iff)
  note g = generate_v1_result [OF emit]
  let ?b = "take (4 * unat n) b"
  have lenb: "length ?b = 4 * unat n"
    using g by (simp add: n)
  have rd: "table_entry_v1_chunk_data_offset ?b i = table_entry_v1_chunk_data_offset d i"
    if "i \<le> n - 1" for i
  proof -
    have i: "unat i < unat n"
      using that n1 pos by (simp add: word_le_nat_alt)
    then have "unat i \<le> unat (n - 1)" using n1 by simp
    then have "fill_v1_entry_ok cs base d (unat i) (cl ! unat i)"
      using r by auto
    then obtain st where st: "table_entry_v1_chunk_data_offset d i = Inr st"
      and of_entry: "v1_element_of_entry base st (cl ! unat i)"
      by (auto simp: fill_v1_entry_ok_def)
    have "uint32_le b (4 * unat i) = generate_v1_table_offset base (cl ! unat i)"
      using g i by (simp add: n)
    also have "\<dots> = st"
      using of_entry by (rule generate_v1_table_offset_of_entry)
    finally have "uint32_le ?b (4 * unat i) = st"
      using i by (simp add: uint32_le_take)
    then show ?thesis
      using i lenb st by (simp add: table_entry_v1_eq [of ?b])
  qed
  let ?s0 = "(fill_v1_vars_init [])\<lparr>stored_offset := v\<rparr>"
  have v': "table_entry_v1_chunk_data_offset ?b 0 = Inr v"
    using rd [of 0] v by simp
  have "fill_v1_sim ?s0 ?s0"
    by (simp add: fill_v1_sim_def fill_v1_vars_init_def)
  then obtain s1' where loop': "fill_v1_loop cs pool' base n ?b t' ?s0 = Inr s1'"
    and sim: "fill_v1_sim s1 s1'"
    using fill_v1_loop_sim [OF loop, of ?s0 ?b pool' t'] rd by blast
  have idx: "table_entry_index s1 = n - 1"
    by (rule fill_v1_loop_index [OF loop]) (simp add: fill_v1_vars_init_def)
  have idx': "table_entry_index s1' = n - 1"
    using sim idx by (simp add: fill_v1_sim_def)
  obtain vl where vl: "table_entry_v1_chunk_data_offset d (n - 1) = Inr vl"
    and s2: "s2 = fill_v1_last_step cs pool sec base t vl s1"
    using last by (auto simp: fill_v1_last_eq idx split: sum.splits)
  have last': "fill_v1_last cs pool' sec base ?b t' s1'
      = Inr (fill_v1_last_step cs pool' sec base t' vl s1')"
    using rd [of "n - 1"] vl by (simp add: fill_v1_last_eq idx')
  have "4 * unat n \<le> length buf" and "length buf \<le> SSIZE_MAX"
    using g by (simp_all add: n)
  then have "length ?b \<le> SSIZE_MAX"
    unfolding lenb by (rule order_trans)
  then have "libewf_chunk_group_fill_v1 (Some []) cs pool' (Some sec) base n (Some ?b) t'
      = Inr (chunks_list (fill_v1_last_step cs pool' sec base t' vl s1'))"
    using v' loop' last' by (simp add: fill_v1_unfold [OF base])
  moreover have "list_all2 same_offset_and_compressed cl
      (chunks_list (fill_v1_last_step cs pool' sec base t' vl s1'))"
    unfolding cl s2 using sim by (rule fill_v1_sim_last_step)
  ultimately show ?thesis
    by (simp add: n sec)
qed

lemma fill_v2_flags_round_trip:
  "fill_v2_flags t' (generate_v2_chunk_data_flags (fill_v2_flags t fl))
       AND LIBEWF_RANGE_FLAG_IS_COMPRESSED
     = fill_v2_flags t fl AND LIBEWF_RANGE_FLAG_IS_COMPRESSED"
  "(fill_v2_flags t' (generate_v2_chunk_data_flags (fill_v2_flags t fl))
       AND LIBEWF_RANGE_FLAG_USES_PATTERN_FILL \<noteq> 0)
     = (fill_v2_flags t fl AND LIBEWF_RANGE_FLAG_USES_PATTERN_FILL \<noteq> 0)"
  by (simp_all add: fill_v2_flags_def generate_v2_chunk_data_flags_def flag_defs)

lemma fill_v2_element_round_trip:
  assumes x: "x = fill_v2_element cs pool t eo m d off"
    and o: "uint64_le b off' = element_offset x"
    and f: "uint32_le b (off' + 12) = generate_v2_chunk_data_flags (element_flags x)"
  shows "same_offset_and_compressed x (fill_v2_element cs pool' t' eo m' b off')"
proof -
  have fx: "element_flags x = fill_v2_flags t (uint32_le d (off + 12))"
    by (simp add: x fill_v2_element_def Let_def)
  have ox: "fill_v2_flags t (uint32_le d (off + 12)) AND LIBEWF_RANGE_FLAG_USES_PATTERN_FILL \<noteq> 0
      \<Longrightarrow> element_offset x = eo"
    by (simp add: x fill_v2_element_def Let_def)
  show ?thesis
    using ox
    by (simp add: same_offset_and_compressed_def fill_v2_element_def [of cs pool' t'] Let_def
        o f fx fill_v2_flags_round_trip)
qed

lemma fill_v2_round_trip:
  assumes fill: "libewf_chunk_group_fill_v2 hs (Some []) cs pool secp n (Some d) t = Inr cl"
    and ne: "unat ne = length cl"
    and emit: "libewf_chunk_group_generate_table_entries_data (Some cl) 2 (Some buf) ne base
                 = Inr b"
  shows "\<exists>cl'. libewf_chunk_group_fill_v2 hs (Some []) cs pool' secp n'
                 (Some (take (16 * unat ne) b)) t' = Inr cl'
     \<and> list_all2 same_offset_and_compressed cl cl'"
proof -
  from fill obtain sec where sec: "secp = Some sec" and len: "length d \<le> SSIZE_MAX"
    by (rule fill_v2_success)
  let ?eo = "start_offset sec + of_nat hs"
  have el: "cl ! k = fill_v2_element cs pool t (?eo + of_nat (16 * k)) (of_nat k * ucast cs)
      d (16 * k)" if "k < unat ne" for k
    using fill_v2_result [OF len, of hs "[]" cs pool sec n t] fill that ne
    by (auto simp: sec)
  note g = generate_v2_result [OF emit]
  let ?b = "take (16 * unat ne) b"
  have lenb: "length ?b = 16 * unat ne"
    using g by simp
  have "16 * unat ne \<le> length buf" and "length buf \<le> SSIZE_MAX"
    using g by simp_all
  then have "length ?b \<le> SSIZE_MAX"
    unfolding lenb by (rule order_trans)
  from fill_v2_result [OF this, of hs "[]" cs pool' sec n' t']
  obtain cl' where fill': "libewf_chunk_group_fill_v2 hs (Some []) cs pool' (Some sec) n'
      (Some ?b) t' = Inr cl'"
    and len': "length cl' = unat ne"
    and el': "\<And>k. k < unat ne \<Longrightarrow> cl' ! k =
        fill_v2_element cs pool' t' (?eo + of_nat (16 * k)) (of_nat k * ucast cs) ?b (16 * k)"
    unfolding lenb by auto
  have "same_offset_and_compressed (cl ! k) (cl' ! k)" if "k < unat ne" for k
  proof -
    have o: "uint64_le ?b (16 * k) = element_offset (cl ! k)"
      using g that by (simp add: uint64_le_take)
    have f: "uint32_le ?b (16 * k + 12)
        = generate_v2_chunk_data_flags (element_flags (cl ! k))"
      using g that by (simp add: uint32_le_take)
    show ?thesis
      unfolding el' [OF that] using el [OF that] o f by (rule fill_v2_element_round_trip)
  qed
  then have "list_all2 same_offset_and_compressed cl cl'"
    using ne len' by (simp add: list_all2_conv_all_nth)
  then show ?thesis
    using fill' by (auto simp: sec)
qed



end
